(* ===== verification/Prelude.thy ===== *)
theory Prelude
  imports Main "HOL-Library.Word"
begin

text \<open>
  Shared vocabulary of the development: the widths of Rust's integers, byte strings, the result
  type of fallible code, and the pieces of Rust's standard library the program calls on strings
  and numbers (\<^verbatim>\<open>str::trim\<close>, \<^verbatim>\<open>str::split\<close>, \<^verbatim>\<open>str::contains\<close>, \<^verbatim>\<open>str::parse\<close>,
  \<^verbatim>\<open>u32::to_string\<close>).  A Rust string is the list of its UTF-8 bytes, held as a HOL
  \<open>string\<close>; \<open>str_len\<close> and slicing therefore count bytes, as Rust does.
\<close>

unbundle bit_operations_syntax

subsection \<open>Integers and results\<close>

type_synonym u8 = "8 word"
type_synonym u16 = "16 word"
type_synonym u32 = "32 word"
type_synonym u64 = "64 word"
type_synonym usize = "64 word"
type_synonym bytes = "u8 list"

text \<open>
  A call either returns, reports an error to its caller (\<^verbatim>\<open>Err\<close>), or panics.  The
  message of an error is kept; a panic is its own constructor, because no caller recovers from it.
\<close>

datatype fault = Failed string | Panicked string

type_synonym 'a res = "fault + 'a"

definition res_bind :: "'a res \<Rightarrow> ('a \<Rightarrow> 'b res) \<Rightarrow> 'b res" where
  "res_bind m f = (case m of Inl e \<Rightarrow> Inl e | Inr a \<Rightarrow> f a)"

lemma res_bind_simps [simp]:
  "res_bind (Inl e) f = Inl e"
  "res_bind (Inr a) f = f a"
  by (simp_all add: res_bind_def)

lemma res_bind_eq_Inr:
  "res_bind m f = Inr b \<longleftrightarrow> (\<exists>a. m = Inr a \<and> f a = Inr b)"
  by (cases m) simp_all

text \<open>\<^verbatim>\<open>iter().map(f).collect::<Result<Vec<_>, _>>()\<close>: stops at the first error.\<close>

fun map_res :: "('a \<Rightarrow> 'b res) \<Rightarrow> 'a list \<Rightarrow> 'b list res" where
  "map_res f [] = Inr []"
| "map_res f (x # xs) =
     (case f x of Inl e \<Rightarrow> Inl e
      | Inr y \<Rightarrow> (case map_res f xs of Inl e \<Rightarrow> Inl e | Inr ys \<Rightarrow> Inr (y # ys)))"

lemma map_res_Inr_iff: "map_res f xs = Inr ys \<longleftrightarrow> map f xs = map Inr ys"
proof (induction xs arbitrary: ys)
  case (Cons x xs)
  show ?case
  proof (cases ys)
    case (Cons y ys')
    have "map_res f (x # xs) = Inr (y # ys') \<longleftrightarrow> f x = Inr y \<and> map_res f xs = Inr ys'"
      by (auto split: sum.splits)
    then show ?thesis by (simp add: Cons Cons.IH)
  qed (auto split: sum.splits)
qed auto

lemma map_res_map: "map_res f (map g xs) = map_res (\<lambda>x. f (g x)) xs"
  by (induction xs) (auto split: sum.splits)

lemma map_res_all_Inr: "(\<And>x. x \<in> set xs \<Longrightarrow> f x = Inr (g x)) \<Longrightarrow> map_res f xs = Inr (map g xs)"
  by (induction xs) auto

lemma map_res_Inl_exists: "map_res f xs = Inl e \<Longrightarrow> \<exists>x\<in>set xs. f x = Inl e"
  by (induction xs) (auto split: sum.splits)

subsection \<open>Trimming\<close>

text \<open>
  The UTF-8 encodings of the characters with the Unicode property \<open>White_Space\<close>, which is what
  \<^verbatim>\<open>str::trim\<close> removes at both ends.
\<close>

definition white_space :: "string list" where
  "white_space =
     [[CHR 0x09], [CHR 0x0A], [CHR 0x0B], [CHR 0x0C], [CHR 0x0D], [CHR 0x20],
      [CHR 0xC2, CHR 0x85], [CHR 0xC2, CHR 0xA0],
      [CHR 0xE1, CHR 0x9A, CHR 0x80],
      [CHR 0xE2, CHR 0x80, CHR 0x80], [CHR 0xE2, CHR 0x80, CHR 0x81],
      [CHR 0xE2, CHR 0x80, CHR 0x82], [CHR 0xE2, CHR 0x80, CHR 0x83],
      [CHR 0xE2, CHR 0x80, CHR 0x84], [CHR 0xE2, CHR 0x80, CHR 0x85],
      [CHR 0xE2, CHR 0x80, CHR 0x86], [CHR 0xE2, CHR 0x80, CHR 0x87],
      [CHR 0xE2, CHR 0x80, CHR 0x88], [CHR 0xE2, CHR 0x80, CHR 0x89],
      [CHR 0xE2, CHR 0x80, CHR 0x8A], [CHR 0xE2, CHR 0x80, CHR 0xA8],
      [CHR 0xE2, CHR 0x80, CHR 0xA9], [CHR 0xE2, CHR 0x80, CHR 0xAF],
      [CHR 0xE2, CHR 0x81, CHR 0x9F], [CHR 0xE3, CHR 0x80, CHR 0x80]]"

text \<open>Remove one of the sequences \<open>ps\<close> from the front, if one is there.\<close>

fun strip_one :: "'a list list \<Rightarrow> 'a list \<Rightarrow> 'a list option" where
  "strip_one [] s = None"
| "strip_one (p # ps) s =
     (if p \<noteq> [] \<and> take (length p) s = p then Some (drop (length p) s) else strip_one ps s)"

lemma strip_one_shorter: "strip_one ps s = Some r \<Longrightarrow> length r < length s"
proof (induction ps)
  case (Cons p ps)
  have "drop (length p) s = r \<Longrightarrow> length r < length s"
    if "p \<noteq> []" and "take (length p) s = p"
    using that by (cases s) auto
  with Cons show ?case by (auto split: if_splits)
qed simp

lemma strip_one_drop: "strip_one ps s = Some r \<Longrightarrow> \<exists>n. r = drop n s"
  by (induction ps) (auto split: if_splits)

lemma strip_one_None_iff: "strip_one ps s = None \<longleftrightarrow> (\<forall>p\<in>set ps. p \<noteq> [] \<longrightarrow> take (length p) s \<noteq> p)"
  by (induction ps) auto

lemma strip_one_take_None: "strip_one ps s = None \<Longrightarrow> strip_one ps (take n s) = None"
proof (induction ps)
  case (Cons p ps)
  have "take (length p) s = p" if "take (length p) (take n s) = p"
    using that by (metis length_take min.absorb_iff1 min.cobounded2 min_def take_take)
  with Cons show ?case by (auto split: if_splits)
qed simp

function trim_with :: "'a list list \<Rightarrow> 'a list \<Rightarrow> 'a list" where
  "trim_with ps s = (case strip_one ps s of None \<Rightarrow> s | Some r \<Rightarrow> trim_with ps r)"
  by pat_completeness auto
termination
  by (relation "measure (\<lambda>(ps, s). length s)") (auto dest: strip_one_shorter)

declare trim_with.simps [simp del]

lemma trim_with_stripped: "strip_one ps (trim_with ps s) = None"
proof (induction ps s rule: trim_with.induct)
  case (1 ps s)
  then show ?case by (cases "strip_one ps s") (simp_all add: trim_with.simps [of ps s])
qed

lemma trim_with_id: "strip_one ps s = None \<Longrightarrow> trim_with ps s = s"
  by (simp add: trim_with.simps)

lemma trim_with_drop: "\<exists>n. trim_with ps s = drop n s"
proof (induction ps s rule: trim_with.induct)
  case (1 ps s)
  show ?case
  proof (cases "strip_one ps s")
    case None
    then have "trim_with ps s = drop 0 s" by (simp add: trim_with.simps)
    then show ?thesis ..
  next
    case (Some r)
    then obtain m where m: "r = drop m s" using strip_one_drop by blast
    from 1 Some obtain k where "trim_with ps r = drop k r" by blast
    with Some m have "trim_with ps s = drop (k + m) s"
      by (simp add: trim_with.simps [of ps s])
    then show ?thesis ..
  qed
qed

definition trim_start :: "string \<Rightarrow> string" where
  "trim_start s = trim_with white_space s"

definition trim_end :: "string \<Rightarrow> string" where
  "trim_end s = rev (trim_with (map rev white_space) (rev s))"

definition trim :: "string \<Rightarrow> string" where
  "trim s = trim_end (trim_start s)"

lemma trim_end_take: "\<exists>n. trim_end s = take n s"
proof -
  obtain n where "trim_with (map rev white_space) (rev s) = drop n (rev s)"
    using trim_with_drop by blast
  then have "trim_end s = take (length s - n) s"
    by (simp add: trim_end_def rev_drop)
  then show ?thesis ..
qed

lemmas trim_eval = trim_def trim_start_def trim_end_def trim_with.simps white_space_def

text \<open>A string is trimmed when it neither starts nor ends with white space.\<close>

definition trimmed :: "string \<Rightarrow> bool" where
  "trimmed s \<longleftrightarrow> strip_one white_space s = None \<and> strip_one (map rev white_space) (rev s) = None"

lemma trim_trimmed [simp]: "trimmed (trim s)"
proof -
  let ?t = "trim_start s"
  have "strip_one white_space ?t = None" by (simp add: trim_start_def trim_with_stripped)
  moreover obtain n where "trim_end ?t = take n ?t" using trim_end_take by blast
  ultimately have "strip_one white_space (trim s) = None"
    by (simp add: trim_def strip_one_take_None)
  then show ?thesis
    by (simp add: trimmed_def trim_def trim_end_def trim_with_stripped)
qed

lemma trim_id [simp]: "trimmed s \<Longrightarrow> trim s = s"
  by (simp add: trimmed_def trim_def trim_start_def trim_end_def trim_with_id)

lemma trim_idem: "trim (trim s) = trim s"
  by simp

subsection \<open>Prefixes, substrings, splitting\<close>

definition strip_prefix :: "char \<Rightarrow> string \<Rightarrow> string option" where
  "strip_prefix c s = (case s of [] \<Rightarrow> None | d # ds \<Rightarrow> if d = c then Some ds else None)"

lemma strip_prefix_simps [simp]:
  "strip_prefix c [] = None"
  "strip_prefix c (d # ds) = (if d = c then Some ds else None)"
  by (simp_all add: strip_prefix_def)

definition starts_with :: "'a list \<Rightarrow> 'a list \<Rightarrow> bool" where
  "starts_with s p \<longleftrightarrow> take (length p) s = p"

text \<open>\<^verbatim>\<open>haystack.contains(needle)\<close>.\<close>

fun str_contains :: "'a list \<Rightarrow> 'a list \<Rightarrow> bool" where
  "str_contains [] n \<longleftrightarrow> n = []"
| "str_contains (c # cs) n \<longleftrightarrow> starts_with (c # cs) n \<or> str_contains cs n"

lemma starts_with_iff: "starts_with s p \<longleftrightarrow> (\<exists>r. s = p @ r)"
  by (metis append_eq_conv_conj append_take_drop_id starts_with_def)

lemma str_contains_iff: "str_contains s n \<longleftrightarrow> (\<exists>p r. s = p @ n @ r)"
proof (induction s)
  case (Cons c cs)
  have "(\<exists>p r. c # cs = p @ n @ r) \<longleftrightarrow> (\<exists>r. c # cs = n @ r) \<or> (\<exists>p r. cs = p @ n @ r)"
    by (metis append_Cons append_Nil list.inject neq_Nil_conv)
  then show ?case by (simp add: Cons.IH starts_with_iff)
qed simp

text \<open>\<^verbatim>\<open>s.split(c)\<close>: always at least one piece.\<close>

fun split_on :: "'a \<Rightarrow> 'a list \<Rightarrow> 'a list list" where
  "split_on c [] = [[]]"
| "split_on c (x # xs) =
     (if x = c then [] # split_on c xs
      else (case split_on c xs of [] \<Rightarrow> [[x]] | p # ps \<Rightarrow> (x # p) # ps))"

lemma split_on_not_Nil [simp]: "split_on c s \<noteq> []"
  by (cases s) (auto split: list.splits)

lemma split_on_pieces: "p \<in> set (split_on c s) \<Longrightarrow> c \<notin> set p"
  by (induction s arbitrary: p) (auto split: if_splits list.splits)

fun join_with :: "'a list \<Rightarrow> 'a list list \<Rightarrow> 'a list" where
  "join_with sep [] = []"
| "join_with sep [p] = p"
| "join_with sep (p # q # ps) = p @ sep @ join_with sep (q # ps)"

lemma split_on_no_sep: "c \<notin> set s \<Longrightarrow> split_on c s = [s]"
  by (induction s) auto

lemma split_on_append: "c \<notin> set p \<Longrightarrow> split_on c (p @ c # s) = p # split_on c s"
  by (induction p) auto

lemma split_on_join:
  "ps \<noteq> [] \<Longrightarrow> (\<And>p. p \<in> set ps \<Longrightarrow> c \<notin> set p) \<Longrightarrow> split_on c (join_with [c] ps) = ps"
proof (induction "[c]" ps rule: join_with.induct)
  case (3 p q ps)
  then show ?case by (simp add: split_on_append)
qed (simp_all add: split_on_no_sep)

subsection \<open>Decimal numbers\<close>

definition digit_val :: "char \<Rightarrow> nat option" where
  "digit_val c = (let n = of_char c :: nat in if 48 \<le> n \<and> n \<le> 57 then Some (n - 48) else None)"

fun parse_digits :: "nat \<Rightarrow> string \<Rightarrow> nat option" where
  "parse_digits acc [] = Some acc"
| "parse_digits acc (c # cs) =
     (case digit_val c of None \<Rightarrow> None | Some d \<Rightarrow> parse_digits (10 * acc + d) cs)"

text \<open>
  \<^verbatim>\<open>s.parse::<uN>()\<close>: an optional \<open>+\<close>, then at least one digit and nothing
  else, and the value must not exceed the maximum of the type.
\<close>

definition parse_uint :: "nat \<Rightarrow> string \<Rightarrow> nat option" where
  "parse_uint maxval s =
     (let ds = (case strip_prefix (CHR ''+'') s of None \<Rightarrow> s | Some r \<Rightarrow> r)
      in if ds = [] then None
         else (case parse_digits 0 ds of None \<Rightarrow> None
               | Some n \<Rightarrow> if n \<le> maxval then Some n else None))"

definition parse_u32 :: "string \<Rightarrow> u32 option" where
  "parse_u32 s = map_option word_of_nat (parse_uint (2 ^ 32 - 1) s)"

definition digit_char :: "nat \<Rightarrow> char" where
  "digit_char d = char_of (48 + d)"

fun show_nat :: "nat \<Rightarrow> string" where
  "show_nat n = (if n < 10 then [digit_char n] else show_nat (n div 10) @ [digit_char (n mod 10)])"

declare show_nat.simps [simp del]

definition show_u32 :: "u32 \<Rightarrow> string" where
  "show_u32 w = show_nat (unat w)"

lemma digit_val_char: "d < 10 \<Longrightarrow> digit_val (digit_char d) = Some d"
  by (simp add: digit_val_def digit_char_def)

lemma digit_val_is_digit: "digit_val c = Some d \<Longrightarrow> d < 10 \<and> c = digit_char d"
proof -
  assume "digit_val c = Some d"
  then have "48 \<le> (of_char c :: nat)" and "(of_char c :: nat) \<le> 57" and "d = of_char c - 48"
    by (auto simp: digit_val_def Let_def split: if_splits)
  then have "48 + d = of_char c" and "d < 10" by auto
  then show ?thesis by (simp add: digit_char_def)
qed

lemma parse_digits_append:
  "parse_digits a (s @ t) = (case parse_digits a s of None \<Rightarrow> None | Some b \<Rightarrow> parse_digits b t)"
  by (induction s arbitrary: a) (auto split: option.splits)

lemma parse_digits_show_nat: "parse_digits 0 (show_nat n) = Some n"
proof (induction n rule: show_nat.induct)
  case (1 n)
  show ?case
  proof (cases "n < 10")
    case True
    then show ?thesis by (simp add: show_nat.simps digit_val_char)
  next
    case False
    with 1 have "parse_digits 0 (show_nat (n div 10)) = Some (n div 10)" by simp
    with False show ?thesis
      by (simp add: show_nat.simps [of n] parse_digits_append digit_val_char)
  qed
qed

lemma show_nat_digits: "c \<in> set (show_nat n) \<Longrightarrow> \<exists>d<10. c = digit_char d"
proof (induction n rule: show_nat.induct)
  case (1 n)
  show ?case
  proof (cases "n < 10")
    case True
    with 1 show ?thesis by (auto simp: show_nat.simps [of n])
  next
    case False
    with 1 have "c \<in> set (show_nat (n div 10)) \<or> c = digit_char (n mod 10)"
      by (auto simp: show_nat.simps [of n])
    moreover have "n mod 10 < 10" by simp
    ultimately show ?thesis using 1 False by blast
  qed
qed

lemma show_nat_not_Nil [simp]: "show_nat n \<noteq> []"
  by (subst show_nat.simps) simp

lemma digit_char_neq:
  assumes "d < 10" and "(of_char c :: nat) < 48 \<or> 57 < (of_char c :: nat)"
  shows "digit_char d \<noteq> c"
proof
  assume "digit_char d = c"
  then have "(of_char c :: nat) = of_char (char_of (48 + d))" by (simp add: digit_char_def)
  also have "\<dots> = 48 + d" using assms(1) by simp
  finally show False using assms by simp
qed

lemma hd_show_nat: "\<exists>d<10. hd (show_nat n) = digit_char d"
  using show_nat_digits [of "hd (show_nat n)" n] by simp

lemma parse_uint_show_nat: "n \<le> m \<Longrightarrow> parse_uint m (show_nat n) = Some n"
proof -
  assume n: "n \<le> m"
  obtain d where d: "d < 10" "hd (show_nat n) = digit_char d" using hd_show_nat by blast
  then have "hd (show_nat n) \<noteq> CHR ''+''" using digit_char_neq [of d "CHR ''+''"] by simp
  then have "strip_prefix (CHR ''+'') (show_nat n) = None"
    by (cases "show_nat n") auto
  with n show ?thesis by (simp add: parse_uint_def parse_digits_show_nat)
qed

theorem parse_show_u32: "parse_u32 (show_u32 w) = Some w"
proof -
  have "unat w \<le> 2 ^ 32 - 1" using unsigned_less [of w, where ?'a = nat] by simp
  then show ?thesis by (simp add: parse_u32_def show_u32_def parse_uint_show_nat)
qed

lemma strip_one_white_space_None:
  assumes "\<And>p. p \<in> set ps \<Longrightarrow> p \<noteq> [] \<Longrightarrow> hd p \<noteq> hd s" and "s \<noteq> []"
  shows "strip_one ps s = None"
  using assms
proof (induction ps)
  case (Cons p ps)
  have "take (length p) s \<noteq> p" if "p \<noteq> []"
    using that Cons.prems(1) [of p] Cons.prems(2) by (cases p; cases s) auto
  with Cons show ?case by auto
qed simp

lemma trimmed_show_nat [simp]: "trimmed (show_nat n)"
proof -
  obtain d where d: "d < 10" "hd (show_nat n) = digit_char d" using hd_show_nat by blast
  obtain e where e: "e < 10" "hd (rev (show_nat n)) = digit_char e"
    using show_nat_digits [of "last (show_nat n)" n] by (auto simp: hd_rev)
  have nd: "digit_char k \<noteq> hd p" if "k < 10" and "p \<in> set white_space \<union> set (map rev white_space)" for k p
    by (rule digit_char_neq [OF that(1)]) (use that(2) in \<open>auto simp: white_space_def\<close>)
  have "strip_one white_space (show_nat n) = None"
    by (rule strip_one_white_space_None) (use d nd in \<open>fastforce\<close>)+
  moreover have "strip_one (map rev white_space) (rev (show_nat n)) = None"
    by (rule strip_one_white_space_None) (use e nd in \<open>fastforce\<close>)+
  ultimately show ?thesis by (simp add: trimmed_def)
qed

subsection \<open>Bytes of a string\<close>

definition as_bytes :: "string \<Rightarrow> bytes" where
  "as_bytes s = map (\<lambda>c. word_of_nat (of_char c)) s"

definition of_bytes :: "bytes \<Rightarrow> string" where
  "of_bytes bs = map (\<lambda>b. char_of (unat b)) bs"

lemma length_as_bytes [simp]: "length (as_bytes s) = length s"
  by (simp add: as_bytes_def)

lemma of_bytes_as_bytes [simp]: "of_bytes (as_bytes s) = s"
proof -
  have "char_of (unat (word_of_nat (of_char c) :: u8)) = c" for c :: char
    by (simp add: unat_of_nat take_bit_nat_def)
  then show ?thesis by (simp add: as_bytes_def of_bytes_def map_idI)
qed

lemma as_bytes_inj: "as_bytes s = as_bytes t \<Longrightarrow> s = t"
  by (metis of_bytes_as_bytes)

subsection \<open>Big-endian words\<close>

definition be_word :: "bytes \<Rightarrow> 'a :: len word" where
  "be_word bs = foldl (\<lambda>acc b. push_bit 8 acc + ucast b) 0 bs"

fun be_bytes :: "nat \<Rightarrow> 'a :: len word \<Rightarrow> bytes" where
  "be_bytes 0 w = []"
| "be_bytes (Suc n) w = be_bytes n (drop_bit 8 w) @ [ucast w]"

lemma length_be_bytes [simp]: "length (be_bytes n w) = n"
  by (induction n arbitrary: w) simp_all

lemma be_word_snoc: "be_word (bs @ [b]) = push_bit 8 (be_word bs) + ucast b"
  by (simp add: be_word_def)

lemma push_add_low: "push_bit 8 (drop_bit 8 (x :: 'a :: len word)) + take_bit 8 x = x"
proof -
  have "push_bit 8 (drop_bit 8 x) + take_bit 8 x = push_bit 8 (drop_bit 8 x) OR take_bit 8 x"
    by (rule disjunctive_add) (auto simp: bit_simps)
  also have "\<dots> = x"
    by (rule bit_eqI) (auto simp: bit_simps)
  finally show ?thesis .
qed

lemma be_word_be_bytes: "be_word (be_bytes n w) = take_bit (8 * n) w"
proof (induction n arbitrary: w)
  case (Suc n)
  let ?x = "take_bit (8 * Suc n) w"
  have "take_bit (8 * n) (drop_bit 8 w) = drop_bit 8 ?x" by (rule bit_eqI) (auto simp: bit_simps)
  moreover have "ucast (ucast w :: u8) = take_bit 8 ?x" by (rule bit_eqI) (auto simp: bit_simps)
  ultimately have "be_word (be_bytes (Suc n) w) = push_bit 8 (drop_bit 8 ?x) + take_bit 8 ?x"
    by (simp add: be_word_snoc Suc.IH)
  then show ?case by (simp only: push_add_low)
qed (simp add: be_word_def)

lemma be_word_be_bytes_id [simp]: "LENGTH('a) \<le> 8 * n \<Longrightarrow> be_word (be_bytes n w) = (w :: 'a :: len word)"
  by (simp add: be_word_be_bytes take_bit_word_eq_self)

end
