(* ===== verification/Messages.thy ===== *)
theory Messages
  imports Prelude
begin

text \<open>
  The vocabulary of \<^verbatim>\<open>src/messages.rs\<close>: connection identifiers and their generator, the
  events and commands that travel between the packet sources, the network stack and the Python
  side, and \<^verbatim>\<open>SmolPacket\<close>.  The accessors of smoltcp's \<^verbatim>\<open>Ipv4Packet\<close> and
  \<^verbatim>\<open>Ipv6Packet\<close> are not part of the repository; they are the fields of \<open>smol_wire\<close>, a
  parameter of every definition that inspects a packet.  What a handler does to the outside world
  (answering or dropping a oneshot channel, sending on a channel) is a list of \<open>effect\<close>s.
\<close>

subsection \<open>Addresses (\<^verbatim>\<open>std::net\<close>)\<close>

datatype ip_addr = IpV4 u32 | IpV6 "128 word"

text \<open>\<^verbatim>\<open>SocketAddr\<close>: IPv6 socket addresses also carry flow information and a scope id.\<close>

datatype socket_addr = SockV4 u32 u16 | SockV6 "128 word" u16 u32 u32

fun sock_ip :: "socket_addr \<Rightarrow> ip_addr" where
  "sock_ip (SockV4 a p) = IpV4 a"
| "sock_ip (SockV6 a p f s) = IpV6 a"

fun sock_port :: "socket_addr \<Rightarrow> u16" where
  "sock_port (SockV4 a p) = p"
| "sock_port (SockV6 a p f s) = p"

text \<open>\<^verbatim>\<open>SocketAddr::new\<close>.\<close>

fun sock_new :: "ip_addr \<Rightarrow> u16 \<Rightarrow> socket_addr" where
  "sock_new (IpV4 a) p = SockV4 a p"
| "sock_new (IpV6 a) p = SockV6 a p 0 0"

text \<open>\<^verbatim>\<open>SocketAddr::set_ip\<close>: a change of version makes a new address with the old port.\<close>

fun set_ip :: "ip_addr \<Rightarrow> socket_addr \<Rightarrow> socket_addr" where
  "set_ip (IpV4 b) (SockV4 a p) = SockV4 b p"
| "set_ip (IpV6 b) (SockV6 a p f s) = SockV6 b p f s"
| "set_ip b s = sock_new b (sock_port s)"

fun is_ipv4 :: "ip_addr \<Rightarrow> bool" where
  "is_ipv4 (IpV4 a) = True"
| "is_ipv4 (IpV6 a) = False"

fun is_multicast :: "ip_addr \<Rightarrow> bool" where
  "is_multicast (IpV4 a) \<longleftrightarrow> drop_bit 28 a = 14"
| "is_multicast (IpV6 a) \<longleftrightarrow> drop_bit 120 a = 255"

fun is_loopback :: "ip_addr \<Rightarrow> bool" where
  "is_loopback (IpV4 a) \<longleftrightarrow> drop_bit 24 a = 127"
| "is_loopback (IpV6 a) \<longleftrightarrow> a = 1"

fun is_unspecified :: "ip_addr \<Rightarrow> bool" where
  "is_unspecified (IpV4 a) \<longleftrightarrow> a = 0"
| "is_unspecified (IpV6 a) \<longleftrightarrow> a = 0"

lemma sock_new_sel [simp]: "sock_ip (sock_new a p) = a" "sock_port (sock_new a p) = p"
  by (cases a; simp)+

lemma set_ip_sel [simp]: "sock_ip (set_ip a s) = a" "sock_port (set_ip a s) = sock_port s"
  by (cases a; cases s; simp)+

subsection \<open>Connection identifiers\<close>

datatype connection_id = ConnectionId (cid_val: usize)

text \<open>The generator holds the next identifier; \<^verbatim>\<open>usize\<close> wraps around in a release build.\<close>

datatype connection_id_generator = ConnectionIdGenerator (gen_next: usize)

definition gen_tcp :: connection_id_generator where
  "gen_tcp = ConnectionIdGenerator 2"

definition gen_udp :: connection_id_generator where
  "gen_udp = ConnectionIdGenerator 3"

definition next_id :: "connection_id_generator \<Rightarrow> connection_id \<times> connection_id_generator" where
  "next_id g = (ConnectionId (gen_next g), ConnectionIdGenerator (gen_next g + 2))"

definition is_tcp :: "connection_id \<Rightarrow> bool" where
  "is_tcp c \<longleftrightarrow> cid_val c AND 1 = 0"

definition unassigned_udp :: connection_id where
  "unassigned_udp = ConnectionId 1"

definition cid_display :: "connection_id \<Rightarrow> string" where
  "cid_display c = show_nat (unat (cid_val c))"

definition cid_debug :: "connection_id \<Rightarrow> string" where
  "cid_debug c = cid_display c @ (if is_tcp c then ''#TCP'' else ''#UDP'')"

subsection \<open>Tunnel information, events and commands\<close>

datatype tunnel_info =
    WireGuard socket_addr socket_addr
  | LocalRedirector "u32 option" "string option" "(string \<times> u16) option"
  | NoTunnel

text \<open>A oneshot sender is named by a number, and so is a channel of commands.\<close>

type_synonym oneshot = nat
type_synonym command_chan = nat

datatype transport_event =
  ConnectionEstablished connection_id socket_addr socket_addr tunnel_info "command_chan option"

datatype transport_command =
    ReadData connection_id u32 oneshot
  | WriteData connection_id bytes
  | DrainWriter connection_id oneshot
  | CloseConnection connection_id bool

fun command_connection_id :: "transport_command \<Rightarrow> connection_id" where
  "command_connection_id (ReadData i n tx) = i"
| "command_connection_id (WriteData i d) = i"
| "command_connection_id (DrainWriter i tx) = i"
| "command_connection_id (CloseConnection i h) = i"

subsection \<open>Packets\<close>

text \<open>
  The protocol numbers the program tells apart; every other variant of smoltcp's
  \<^verbatim>\<open>IpProtocol\<close> is \<open>OtherProtocol\<close> of its number.
\<close>

datatype ip_protocol = Tcp | Udp | Icmp | Icmpv6 | OtherProtocol u8

datatype smol_packet = V4 bytes | V6 bytes

text \<open>smoltcp's packet accessors.\<close>

record smol_wire =
  v4_new_checked :: "bytes \<Rightarrow> bool"
  v4_src_addr :: "bytes \<Rightarrow> u32"
  v4_dst_addr :: "bytes \<Rightarrow> u32"
  v4_next_header :: "bytes \<Rightarrow> ip_protocol"
  v4_payload :: "bytes \<Rightarrow> bytes"
  v4_verify_checksum :: "bytes \<Rightarrow> bool"
  v4_fill_checksum :: "bytes \<Rightarrow> bytes"
  v6_new_checked :: "bytes \<Rightarrow> bool"
  v6_src_addr :: "bytes \<Rightarrow> 128 word"
  v6_dst_addr :: "bytes \<Rightarrow> 128 word"
  v6_next_header :: "bytes \<Rightarrow> ip_protocol"
  v6_payload :: "bytes \<Rightarrow> bytes"

datatype network_event = ReceivePacket smol_packet tunnel_info
datatype network_command = SendPacket smol_packet

definition smol_try_from :: "smol_wire \<Rightarrow> bytes \<Rightarrow> smol_packet res" where
  "smol_try_from w value =
     (case value of
        [] \<Rightarrow> Inl (Failed ''Empty packet.'')
      | b # _ \<Rightarrow>
          let version = drop_bit 4 b in
          if version = 4 then
            (if v4_new_checked w value then Inr (V4 value) else Inl (Failed ''malformed IPv4 packet''))
          else if version = 6 then
            (if v6_new_checked w value then Inr (V6 value) else Inl (Failed ''malformed IPv6 packet''))
          else Inl (Failed ''Not an IP packet''))"

fun src_ip :: "smol_wire \<Rightarrow> smol_packet \<Rightarrow> ip_addr" where
  "src_ip w (V4 b) = IpV4 (v4_src_addr w b)"
| "src_ip w (V6 b) = IpV6 (v6_src_addr w b)"

fun dst_ip :: "smol_wire \<Rightarrow> smol_packet \<Rightarrow> ip_addr" where
  "dst_ip w (V4 b) = IpV4 (v4_dst_addr w b)"
| "dst_ip w (V6 b) = IpV6 (v6_dst_addr w b)"

fun transport_protocol :: "smol_wire \<Rightarrow> smol_packet \<Rightarrow> ip_protocol" where
  "transport_protocol w (V4 b) = v4_next_header w b"
| "transport_protocol w (V6 b) =
     (case v6_next_header w b of
        Tcp \<Rightarrow> Tcp
      | Udp \<Rightarrow> Udp
      | Icmp \<Rightarrow> Icmp
      | Icmpv6 \<Rightarrow> Icmpv6
      | other \<Rightarrow> other)"

fun payload :: "smol_wire \<Rightarrow> smol_packet \<Rightarrow> bytes" where
  "payload w (V4 b) = v4_payload w b"
| "payload w (V6 b) = v6_payload w b"

fun into_inner :: "smol_packet \<Rightarrow> bytes" where
  "into_inner (V4 b) = b"
| "into_inner (V6 b) = b"

fun fill_ip_checksum :: "smol_wire \<Rightarrow> smol_packet \<Rightarrow> smol_packet" where
  "fill_ip_checksum w (V4 b) = V4 (v4_fill_checksum w b)"
| "fill_ip_checksum w (V6 b) = V6 b"

text \<open>
  The accessors for packets without options or extension headers: the concrete wire format the
  examples are evaluated with.
\<close>

definition protocol_of :: "u8 \<Rightarrow> ip_protocol" where
  "protocol_of b =
     (if b = 6 then Tcp else if b = 17 then Udp else if b = 1 then Icmp else if b = 58 then Icmpv6
      else OtherProtocol b)"

definition basic_wire :: smol_wire where
  "basic_wire =
     \<lparr>v4_new_checked = (\<lambda>b. 20 \<le> length b),
      v4_src_addr = (\<lambda>b. be_word (take 4 (drop 12 b))),
      v4_dst_addr = (\<lambda>b. be_word (take 4 (drop 16 b))),
      v4_next_header = (\<lambda>b. protocol_of (b ! 9)),
      v4_payload = (\<lambda>b. drop 20 b),
      v4_verify_checksum = (\<lambda>b. True),
      v4_fill_checksum = (\<lambda>b. b),
      v6_new_checked = (\<lambda>b. 40 \<le> length b),
      v6_src_addr = (\<lambda>b. be_word (take 16 (drop 8 b))),
      v6_dst_addr = (\<lambda>b. be_word (take 16 (drop 24 b))),
      v6_next_header = (\<lambda>b. protocol_of (b ! 6)),
      v6_payload = (\<lambda>b. drop 40 b)\<rparr>"

subsection \<open>Effects\<close>

text \<open>
  \<open>SendData tx d\<close> is \<^verbatim>\<open>tx.send(d)\<close> on a oneshot channel of byte vectors, \<open>DropData tx\<close>
  drops the sender unused (the receiver sees an error); \<open>SendUnit\<close> and \<open>DropUnit\<close> are the same
  on a channel of \<^verbatim>\<open>()\<close>.  \<open>EmitEvent\<close> is a send on the channel to Python,
  \<open>EmitCommand\<close> one on the channel to the packet source.
\<close>

datatype effect =
    SendData oneshot bytes
  | DropData oneshot
  | SendUnit oneshot
  | DropUnit oneshot
  | EmitEvent transport_event
  | EmitCommand network_command

text \<open>
  A handler that can fail after it has already done something: its effects so far, and its result.
\<close>

type_synonym 'a run = "effect list \<times> 'a res"

definition run_bind :: "'o list \<times> 'a res \<Rightarrow> ('a \<Rightarrow> 'o list \<times> 'b res) \<Rightarrow> 'o list \<times> 'b res" where
  "run_bind m f = (case m of (es, Inl e) \<Rightarrow> (es, Inl e) | (es, Inr a) \<Rightarrow> (let (es', r) = f a in (es @ es', r)))"

lemma run_bind_simps [simp]:
  "run_bind (es, Inl e) f = (es, Inl e)"
  "run_bind (es, Inr a) f = (es @ fst (f a), snd (f a))"
  by (simp_all add: run_bind_def split: prod.splits)

lemma run_bind_eq_Inr:
  "run_bind m f = (es, Inr b) \<longleftrightarrow> (\<exists>es1 a es2. m = (es1, Inr a) \<and> f a = (es2, Inr b) \<and> es = es1 @ es2)"
  by (cases m; cases "snd m") (auto simp: run_bind_def split: prod.splits)

definition events_of :: "effect list \<Rightarrow> transport_event list" where
  "events_of es = List.map_filter (\<lambda>e. case e of EmitEvent v \<Rightarrow> Some v | _ \<Rightarrow> None) es"

definition commands_of :: "effect list \<Rightarrow> network_command list" where
  "commands_of es = List.map_filter (\<lambda>e. case e of EmitCommand v \<Rightarrow> Some v | _ \<Rightarrow> None) es"

lemma events_of_simps [simp]:
  "events_of [] = []"
  "events_of (e # es) = (case e of EmitEvent v \<Rightarrow> v # events_of es | _ \<Rightarrow> events_of es)"
  "events_of (es @ fs) = events_of es @ events_of fs"
  by (auto simp: events_of_def List.map_filter_def split: effect.splits)

lemma commands_of_simps [simp]:
  "commands_of [] = []"
  "commands_of (e # es) = (case e of EmitCommand v \<Rightarrow> v # commands_of es | _ \<Rightarrow> commands_of es)"
  "commands_of (es @ fs) = commands_of es @ commands_of fs"
  by (auto simp: commands_of_def List.map_filter_def split: effect.splits)

subsection \<open>Identifiers are fresh and keep their protocol\<close>

text \<open>The identifiers handed out by \<open>n\<close> successive calls.\<close>

fun next_ids :: "nat \<Rightarrow> connection_id_generator \<Rightarrow> connection_id list" where
  "next_ids 0 g = []"
| "next_ids (Suc n) g = (let (i, g') = next_id g in i # next_ids n g')"

lemma next_ids_eq:
  "next_ids n g = map (\<lambda>k. ConnectionId (gen_next g + 2 * word_of_nat k)) [0..<n]"
proof (induction n arbitrary: g)
  case (Suc n)
  have "map (\<lambda>k. ConnectionId (gen_next g + 2 * word_of_nat k)) [0..<Suc n]
      = ConnectionId (gen_next g) # map (\<lambda>k. ConnectionId (gen_next g + 2 * word_of_nat (Suc k))) [0..<n]"
    by (simp only: upt_conv_Cons [OF zero_less_Suc] map_Suc_upt [symmetric] list.map map_map comp_def) simp
  with Suc show ?case by (simp add: next_id_def algebra_simps)
qed simp

lemma and_one_add_two: "(x + 2 * y) AND 1 = x AND (1 :: 'a :: len word)"
  by (simp add: and_one_eq mod_2_eq_odd)

lemma is_tcp_next_ids:
  "i \<in> set (next_ids n g) \<Longrightarrow> is_tcp i \<longleftrightarrow> gen_next g AND 1 = 0"
  by (auto simp: next_ids_eq is_tcp_def and_one_add_two)

lemma two_times_inj:
  assumes "2 * word_of_nat j = (2 * word_of_nat k :: usize)" and "j < 2 ^ 63" and "k < 2 ^ 63"
  shows "j = k"
proof -
  have "unat (word_of_nat (2 * m) :: usize) = 2 * m" if "m < 2 ^ 63" for m
    using that by (simp add: unat_of_nat take_bit_nat_def del: of_nat_mult)
  moreover have "(word_of_nat (2 * j) :: usize) = word_of_nat (2 * k)" using assms(1) by simp
  ultimately show ?thesis using assms(2,3) by (metis mult_cancel1 zero_neq_numeral)
qed

lemma distinct_next_ids: "n \<le> 2 ^ 63 \<Longrightarrow> distinct (next_ids n g)"
  by (auto simp: next_ids_eq distinct_map inj_on_def intro: two_times_inj)

text \<open>The ids a generator started as \<open>g\<close> has handed out so far.\<close>

definition issued :: "connection_id_generator \<Rightarrow> connection_id list \<Rightarrow> bool" where
  "issued g ids \<longleftrightarrow> ids = next_ids (length ids) g"

definition gen_after :: "connection_id_generator \<Rightarrow> nat \<Rightarrow> connection_id_generator" where
  "gen_after g n = ConnectionIdGenerator (gen_next g + 2 * word_of_nat n)"

lemma gen_after_0 [simp]: "gen_after g 0 = g"
  by (cases g) (simp add: gen_after_def)

lemma issued_Nil [simp]: "issued g []"
  by (simp add: issued_def)

lemma next_ids_snoc: "next_ids (Suc n) g = next_ids n g @ [ConnectionId (gen_next (gen_after g n))]"
  by (simp add: next_ids_eq gen_after_def)

lemma next_id_gen_after: "next_id (gen_after g n) = (ConnectionId (gen_next (gen_after g n)), gen_after g (Suc n))"
  by (simp add: next_id_def gen_after_def algebra_simps)

lemma issued_snoc: "issued g ids \<Longrightarrow> issued g (ids @ [ConnectionId (gen_next (gen_after g (length ids)))])"
  unfolding issued_def length_append_singleton next_ids_snoc by simp

lemma issued_fresh:
  assumes "issued g ids" and "length ids < 2 ^ 63"
  shows "ConnectionId (gen_next (gen_after g (length ids))) \<notin> set ids"
proof -
  have "distinct (next_ids (Suc (length ids)) g)" using assms(2) by (intro distinct_next_ids) simp
  then have "distinct (next_ids (length ids) g @ [ConnectionId (gen_next (gen_after g (length ids)))])"
    by (simp only: next_ids_snoc)
  moreover have "next_ids (length ids) g = ids" using assms(1) by (simp add: issued_def)
  ultimately show ?thesis by simp
qed

lemma issued_distinct: "issued g ids \<Longrightarrow> length ids < 2 ^ 63 \<Longrightarrow> distinct ids"
  using distinct_next_ids [of "length ids" g] by (simp add: issued_def)

lemma issued_is_tcp: "issued g ids \<Longrightarrow> i \<in> set ids \<Longrightarrow> is_tcp i \<longleftrightarrow> gen_next g AND 1 = 0"
  using is_tcp_next_ids [of i "length ids" g] by (simp add: issued_def)

end
