(* ===== verification/Lru_Cache.thy ===== *)
theory Lru_Cache
  imports Prelude
begin

text \<open>
  The interface of \<^verbatim>\<open>lru_time_cache::LruCache\<close> as the program uses it: the operations of
  \<open>lru\<close> are parameters of every component that keeps a cache, and \<open>lru_laws\<close> is what those
  components rely on.  Time is a number of milliseconds; every call is told the current time, because
  the crate reads the clock.  \<open>content now c\<close> is what is alive in the cache at time \<open>now\<close>.  The
  contract is discharged for \<open>timed\<close>, an association list with time stamps.
\<close>

record ('k, 'v, 'c) lru =
  lru_new :: "'c"
  lru_get :: "nat \<Rightarrow> 'k \<Rightarrow> 'c \<Rightarrow> 'v option \<times> 'c"
  lru_write :: "'k \<Rightarrow> 'v \<Rightarrow> 'c \<Rightarrow> 'c"
  lru_insert :: "nat \<Rightarrow> 'k \<Rightarrow> 'v \<Rightarrow> 'c \<Rightarrow> 'v option \<times> 'c"
  lru_iter :: "nat \<Rightarrow> 'c \<Rightarrow> 'c"
  lru_clear :: "'c \<Rightarrow> 'c"
  lru_is_empty :: "'c \<Rightarrow> bool"

text \<open>
  \<open>lru_get\<close> is \<^verbatim>\<open>get\<close> and \<^verbatim>\<open>get_mut\<close> (both drop expired entries and refresh the
  one found); \<open>lru_write\<close> is an assignment through the reference \<^verbatim>\<open>get_mut\<close> returned;
  \<open>lru_insert\<close> returns the value it replaces; \<open>lru_iter\<close> is the creation of an iterator, which
  drops expired entries and, as long as it is not advanced, refreshes none.  An entry lives for \<open>ttl\<close> milliseconds after it was last inserted or got.
\<close>

locale lru_laws =
  fixes L :: "('k, 'v, 'c) lru"
    and ttl :: nat
    and content :: "nat \<Rightarrow> 'c \<Rightarrow> 'k \<rightharpoonup> 'v"
  assumes content_new: "content now (lru_new L) = Map.empty"
    and get_value: "fst (lru_get L now k c) = content now c k"
    and get_content: "content now (snd (lru_get L now k c)) = content now c"
    and write_content: "content now c k = Some v0 \<Longrightarrow> content now (lru_write L k v c) = (content now c)(k \<mapsto> v)"
    and insert_old: "fst (lru_insert L now k v c) = content now c k"
    and insert_content: "content now (snd (lru_insert L now k v c)) = (content now c)(k \<mapsto> v)"
    and iter_content: "now \<le> t \<Longrightarrow> content t (lru_iter L now c) = content t c"
    and clear_content: "content now (lru_clear L c) = Map.empty"
    and empty_content: "lru_is_empty L c \<Longrightarrow> content now c = Map.empty"
    and expiry: "now \<le> now' \<Longrightarrow> content now' c \<subseteq>\<^sub>m content now c"
    and insert_lives: "t \<le> now + ttl \<Longrightarrow> now \<le> t \<Longrightarrow> content t (snd (lru_insert L now k v c)) k = Some v"
    and insert_other: "now \<le> t \<Longrightarrow> k' \<noteq> k \<Longrightarrow> content t (snd (lru_insert L now k v c)) k' = content t c k'"
    and get_lives: "content now c k = Some v \<Longrightarrow> now \<le> t \<Longrightarrow> t \<le> now + ttl \<Longrightarrow>
        content t (snd (lru_get L now k c)) k = Some v"
    and write_lives: "content t c k = Some v0 \<Longrightarrow> content t (lru_write L k v c) k = Some v"
begin

lemma expiryD: "content now' c k = Some v \<Longrightarrow> now \<le> now' \<Longrightarrow> content now c k = Some v"
  using expiry [of now now' c] by (fastforce simp: map_le_def dom_def)

lemma get_pair: "lru_get L now k c = (r, c') \<Longrightarrow> r = content now c k \<and> content now c' = content now c"
  using get_value get_content by (metis fst_conv snd_conv)

lemma insert_pair: "lru_insert L now k v c = (r, c') \<Longrightarrow> r = content now c k \<and> content now c' = (content now c)(k \<mapsto> v)"
  using insert_old insert_content by (metis fst_conv snd_conv)

end

text \<open>
  What a run of several calls needs beside this: neither a lookup nor a write through a reference
  shortens the life of another entry.
\<close>

locale lru_frame = lru_laws +
  assumes get_keeps: "content t c k' = Some v \<Longrightarrow> now \<le> t \<Longrightarrow> content t (snd (lru_get L now k c)) k' = Some v"
    and write_other: "k' \<noteq> k \<Longrightarrow> content t (lru_write L k v c) k' = content t c k'"
begin

lemma get_pair_keeps: "lru_get L now k c = (r, c') \<Longrightarrow> content t c k' = Some v \<Longrightarrow> now \<le> t \<Longrightarrow> content t c' k' = Some v"
  using get_keeps by (metis snd_conv)

end

subsection \<open>A cache with time stamps\<close>

type_synonym ('k, 'v) timed = "('k \<times> 'v \<times> nat) list"

definition timed_content :: "nat \<Rightarrow> nat \<Rightarrow> ('k, 'v) timed \<Rightarrow> 'k \<rightharpoonup> 'v" where
  "timed_content ttl now c k =
     (case map_of c k of Some (v, t) \<Rightarrow> if now \<le> t + ttl then Some v else None | None \<Rightarrow> None)"

definition timed_get :: "nat \<Rightarrow> nat \<Rightarrow> 'k \<Rightarrow> ('k, 'v) timed \<Rightarrow> 'v option \<times> ('k, 'v) timed" where
  "timed_get ttl now k c =
     (case timed_content ttl now c k of
        None \<Rightarrow> (None, c)
      | Some v \<Rightarrow> (Some v, (k, v, max now (snd (the (map_of c k)))) # c))"

definition timed_write :: "'k \<Rightarrow> 'v \<Rightarrow> ('k, 'v) timed \<Rightarrow> ('k, 'v) timed" where
  "timed_write k v c = (case map_of c k of None \<Rightarrow> c | Some (v0, t) \<Rightarrow> (k, v, t) # c)"

definition timed_lru :: "nat \<Rightarrow> ('k, 'v, ('k, 'v) timed) lru" where
  "timed_lru ttl =
     \<lparr>lru_new = [],
      lru_get = timed_get ttl,
      lru_write = timed_write,
      lru_insert = (\<lambda>now k v c. (timed_content ttl now c k, (k, v, now) # c)),
      lru_iter = (\<lambda>now c. c),
      lru_clear = (\<lambda>c. []),
      lru_is_empty = (\<lambda>c. c = [])\<rparr>"

lemma timed_content_Nil [simp]: "timed_content ttl now [] = Map.empty"
  by (simp add: timed_content_def fun_eq_iff)

lemma timed_content_Cons:
  "timed_content ttl now ((k, v, t) # c) k' =
     (if k' = k then (if now \<le> t + ttl then Some v else None) else timed_content ttl now c k')"
  by (simp add: timed_content_def)

lemma timed_content_Some:
  "timed_content ttl now c k = Some v \<longleftrightarrow> (\<exists>t. map_of c k = Some (v, t) \<and> now \<le> t + ttl)"
  by (auto simp: timed_content_def split: option.splits if_splits)

interpretation timed: lru_laws "timed_lru ttl" ttl "timed_content ttl" for ttl
proof unfold_locales
  fix now now' t k k' v v0 and c :: "('a, 'b) timed"
  show "fst (lru_get (timed_lru ttl) now k c) = timed_content ttl now c k"
    by (simp add: timed_lru_def timed_get_def split: option.splits)
  show "timed_content ttl now (snd (lru_get (timed_lru ttl) now k c)) = timed_content ttl now c"
    by (cases "timed_content ttl now c k")
      (auto simp: fun_eq_iff timed_lru_def timed_get_def timed_content_Cons)
  show "timed_content ttl now c k = Some v0 \<Longrightarrow>
      timed_content ttl now (lru_write (timed_lru ttl) k v c) = (timed_content ttl now c)(k \<mapsto> v)"
    by (rule ext) (auto simp: timed_lru_def timed_write_def timed_content_Cons timed_content_Some)
  show "timed_content ttl t c k = Some v0 \<Longrightarrow> timed_content ttl t (lru_write (timed_lru ttl) k v c) k = Some v"
    by (auto simp: timed_lru_def timed_write_def timed_content_Cons timed_content_Some)
  show "now \<le> now' \<Longrightarrow> timed_content ttl now' c \<subseteq>\<^sub>m timed_content ttl now c"
    by (auto simp: map_le_def dom_def timed_content_def split: option.splits)
  show "timed_content ttl now c k = Some v \<Longrightarrow> now \<le> t \<Longrightarrow> t \<le> now + ttl \<Longrightarrow>
      timed_content ttl t (snd (lru_get (timed_lru ttl) now k c)) k = Some v"
    by (auto simp: timed_lru_def timed_get_def timed_content_Cons split: option.splits)
qed (auto simp: timed_lru_def timed_content_Cons fun_eq_iff)

interpretation timed: lru_frame "timed_lru ttl" ttl "timed_content ttl" for ttl
proof unfold_locales
  fix now t k k' v and c :: "('a, 'b) timed"
  show "timed_content ttl t (snd (lru_get (timed_lru ttl) now k c)) k' = Some v"
    if "timed_content ttl t c k' = Some v" "now \<le> t"
    using that by (auto simp: timed_lru_def timed_get_def timed_content_Cons timed_content_Some max_def split: option.splits)
  show "k' \<noteq> k \<Longrightarrow> timed_content ttl t (lru_write (timed_lru ttl) k v c) k' = timed_content ttl t c k'"
    by (auto simp: timed_lru_def timed_write_def timed_content_Cons split: option.splits)
qed

end
