(* ===== verification/Udp.thy ===== *)
theory Udp
  imports Messages Lru_Cache
begin

text \<open>
  \<^verbatim>\<open>src/network/udp.rs\<close>: UDP "connections" keyed by the pair of source and destination
  address.  A connection hands datagrams to readers in order; the handler maps address pairs to
  connection ids and ids to connections in two caches whose entries expire.  The caches are the
  parameters \<open>L\<close> (address pair to id) and \<open>C\<close> (id to connection); packet parsing
  (\<^verbatim>\<open>internet_packet\<close>) and emission (smoltcp) are parameters too.
\<close>

subsection \<open>One connection\<close>

record conn_state =
  cs_closed :: bool
  cs_packets :: "bytes list"
  cs_read_tx :: "oneshot option"

definition conn_default :: conn_state where
  "conn_default = \<lparr>cs_closed = False, cs_packets = [], cs_read_tx = None\<rparr>"

definition add_packet :: "bytes \<Rightarrow> conn_state \<Rightarrow> conn_state \<times> effect list" where
  "add_packet data s =
     (if cs_closed s then (s, [])
      else case cs_read_tx s of
        Some tx \<Rightarrow> (s\<lparr>cs_read_tx := None\<rparr>, [SendData tx data])
      | None \<Rightarrow> (s\<lparr>cs_packets := cs_packets s @ [data]\<rparr>, []))"

definition packet_queue_len :: "conn_state \<Rightarrow> nat" where
  "packet_queue_len s = length (cs_packets s)"

definition add_reader :: "oneshot \<Rightarrow> conn_state \<Rightarrow> (conn_state \<times> effect list) res" where
  "add_reader tx s =
     (if cs_read_tx s \<noteq> None then Inl (Panicked ''assertion failed: self.read_tx.is_none()'')
      else Inr
        (if cs_closed s then (s, [DropData tx])
         else case cs_packets s of
           data # rest \<Rightarrow> (s\<lparr>cs_packets := rest\<rparr>, [SendData tx data])
         | [] \<Rightarrow> (s\<lparr>cs_read_tx := Some tx\<rparr>, [])))"

definition conn_close :: "conn_state \<Rightarrow> conn_state \<times> effect list" where
  "conn_close s =
     (let (s', es) =
        (if cs_closed s then (s, [])
         else case cs_read_tx s of
           Some tx \<Rightarrow> (s\<lparr>cs_read_tx := None\<rparr>, [DropData tx])
         | None \<Rightarrow> (s\<lparr>cs_packets := []\<rparr>, []))
      in (s'\<lparr>cs_closed := True\<rparr>, es))"

subsection \<open>The handler\<close>

definition UDP_TIMEOUT :: nat where "UDP_TIMEOUT = 60 * 1000"

type_synonym four_tuple = "socket_addr \<times> socket_addr"

record udp_packet =
  up_src_addr :: socket_addr
  up_dst_addr :: socket_addr
  up_payload :: bytes

record ('i, 'c) udp_handler =
  uh_generator :: connection_id_generator
  uh_id_lookup :: 'i
  uh_connections :: 'c

type_synonym 'i id_cache = "(four_tuple, connection_id, 'i) lru"
type_synonym 'c conn_cache = "(connection_id, conn_state \<times> four_tuple, 'c) lru"

definition udp_new :: "'i id_cache \<Rightarrow> 'c conn_cache \<Rightarrow> ('i, 'c) udp_handler" where
  "udp_new L C = \<lparr>uh_generator = gen_udp, uh_id_lookup = lru_new L, uh_connections = lru_new C\<rparr>"

definition udp_read_data ::
  "'c conn_cache \<Rightarrow> nat \<Rightarrow> connection_id \<Rightarrow> oneshot \<Rightarrow> ('i, 'c) udp_handler \<Rightarrow>
   (('i, 'c) udp_handler \<times> effect list) res" where
  "udp_read_data C now cid tx h =
     (case lru_get C now cid (uh_connections h) of
        (Some (state, addrs), c) \<Rightarrow>
          res_bind (add_reader tx state) (\<lambda>(state', es).
            Inr (h\<lparr>uh_connections := lru_write C cid (state', addrs) c\<rparr>, es))
      | (None, c) \<Rightarrow> Inr (h\<lparr>uh_connections := c\<rparr>, [DropData tx]))"

definition udp_write_data ::
  "'i id_cache \<Rightarrow> 'c conn_cache \<Rightarrow> nat \<Rightarrow> connection_id \<Rightarrow> bytes \<Rightarrow> ('i, 'c) udp_handler \<Rightarrow>
   ('i, 'c) udp_handler \<times> udp_packet option" where
  "udp_write_data L C now cid data h =
     (case lru_get C now cid (uh_connections h) of
        (None, c) \<Rightarrow> (h\<lparr>uh_connections := c\<rparr>, None)
      | (Some (state, addrs), c) \<Rightarrow>
          let h' = h\<lparr>uh_connections := c, uh_id_lookup := snd (lru_insert L now addrs cid (uh_id_lookup h))\<rparr> in
          if cs_closed state then (h', None)
          else (h', Some \<lparr>up_src_addr = snd addrs, up_dst_addr = fst addrs, up_payload = data\<rparr>))"

definition udp_drain_writer :: "connection_id \<Rightarrow> oneshot \<Rightarrow> effect list" where
  "udp_drain_writer cid tx = [SendUnit tx]"

definition udp_close_connection ::
  "'c conn_cache \<Rightarrow> nat \<Rightarrow> connection_id \<Rightarrow> ('i, 'c) udp_handler \<Rightarrow> ('i, 'c) udp_handler \<times> effect list" where
  "udp_close_connection C now cid h =
     (case lru_get C now cid (uh_connections h) of
        (Some (state, addrs), c) \<Rightarrow>
          let (state', es) = conn_close state in (h\<lparr>uh_connections := lru_write C cid (state', addrs) c\<rparr>, es)
      | (None, c) \<Rightarrow> (h\<lparr>uh_connections := c\<rparr>, []))"

fun udp_handle_command ::
  "'i id_cache \<Rightarrow> 'c conn_cache \<Rightarrow> nat \<Rightarrow> transport_command \<Rightarrow> ('i, 'c) udp_handler \<Rightarrow>
   (('i, 'c) udp_handler \<times> effect list \<times> udp_packet option) res" where
  "udp_handle_command L C now (ReadData cid n tx) h =
     res_bind (udp_read_data C now cid tx h) (\<lambda>(h', es). Inr (h', es, None))"
| "udp_handle_command L C now (WriteData cid data) h =
     (let (h', p) = udp_write_data L C now cid data h in Inr (h', [], p))"
| "udp_handle_command L C now (DrainWriter cid tx) h = Inr (h, udp_drain_writer cid tx, None)"
| "udp_handle_command L C now (CloseConnection cid half) h =
     (let (h', es) = udp_close_connection C now cid h in Inr (h', es, None))"

text \<open>
  \<^verbatim>\<open>receive_data\<close>: the permit is used exactly when the result has an \<open>EmitEvent\<close>; otherwise
  it is given back to the channel.
\<close>

definition udp_receive_data ::
  "'i id_cache \<Rightarrow> 'c conn_cache \<Rightarrow> nat \<Rightarrow> udp_packet \<Rightarrow> tunnel_info \<Rightarrow> ('i, 'c) udp_handler \<Rightarrow>
   ('i, 'c) udp_handler \<times> effect list" where
  "udp_receive_data L C now packet tunnel_info h =
     (let addrs = (up_src_addr packet, up_dst_addr packet);
          (found, i) = lru_get L now addrs (uh_id_lookup h);
          potential_cid = (case found of None \<Rightarrow> unassigned_udp | Some cid \<Rightarrow> cid)
      in case lru_get C now potential_cid (uh_connections h) of
           (Some (state, addrs'), c) \<Rightarrow>
             let (state', es) = add_packet (up_payload packet) state
             in (h\<lparr>uh_id_lookup := i, uh_connections := lru_write C potential_cid (state', addrs') c\<rparr>, es)
         | (None, c) \<Rightarrow>
             let (state, es) = add_packet (up_payload packet) conn_default;
                 (connection_id, g) = next_id (uh_generator h)
             in (h\<lparr>uh_generator := g,
                   uh_id_lookup := snd (lru_insert L now addrs connection_id i),
                   uh_connections := snd (lru_insert C now connection_id (state, addrs) c)\<rparr>,
                 es @ [EmitEvent (ConnectionEstablished connection_id (up_src_addr packet) (up_dst_addr packet) tunnel_info None)]))"

text \<open>\<^verbatim>\<open>poll_delay\<close>, in milliseconds, and \<^verbatim>\<open>poll\<close>.\<close>

definition udp_poll_delay :: "'c conn_cache \<Rightarrow> ('i, 'c) udp_handler \<Rightarrow> nat option" where
  "udp_poll_delay C h = (if lru_is_empty C (uh_connections h) then None else Some (5 * 1000))"

definition udp_poll :: "'i id_cache \<Rightarrow> 'c conn_cache \<Rightarrow> nat \<Rightarrow> ('i, 'c) udp_handler \<Rightarrow> ('i, 'c) udp_handler" where
  "udp_poll L C now h =
     h\<lparr>uh_connections := lru_iter C now (uh_connections h), uh_id_lookup := lru_iter L now (uh_id_lookup h)\<rparr>"

subsection \<open>Datagrams and IP packets\<close>

text \<open>\<^verbatim>\<open>internet_packet\<close>'s view of a packet.\<close>

record internet_packet =
  ip_src :: socket_addr
  ip_dst :: socket_addr
  ip_payload :: bytes
  ip_tcp_syn :: bool

type_synonym packet_parser = "smol_packet \<Rightarrow> internet_packet option"

definition udp_try_from :: "packet_parser \<Rightarrow> smol_packet \<Rightarrow> udp_packet res" where
  "udp_try_from parse value =
     (case parse value of
        None \<Rightarrow> Inl (Failed ''malformed packet'')
      | Some p \<Rightarrow> Inr \<lparr>up_src_addr = ip_src p, up_dst_addr = ip_dst p, up_payload = ip_payload p\<rparr>)"

text \<open>smoltcp's representations and the functions that write them into a buffer.\<close>

record 'a ip_repr =
  repr_src :: 'a
  repr_dst :: 'a
  repr_next_header :: ip_protocol
  repr_payload_len :: nat
  repr_hop_limit :: u8

record udp_wire =
  udp_header_len :: nat
  v4_buffer_len :: "u32 ip_repr \<Rightarrow> nat"
  v6_buffer_len :: "128 word ip_repr \<Rightarrow> nat"
  v4_emit :: "u32 ip_repr \<Rightarrow> bytes \<Rightarrow> bytes"
  v6_emit :: "128 word ip_repr \<Rightarrow> bytes \<Rightarrow> bytes"
  v4_udp_emit :: "u16 \<Rightarrow> u16 \<Rightarrow> u32 \<Rightarrow> u32 \<Rightarrow> bytes \<Rightarrow> bytes \<Rightarrow> bytes"
  v6_udp_emit :: "u16 \<Rightarrow> u16 \<Rightarrow> 128 word \<Rightarrow> 128 word \<Rightarrow> bytes \<Rightarrow> bytes \<Rightarrow> bytes"

text \<open>
  The two \<open>udp_emit\<close> write the UDP header and the payload into the payload area of the IP packet;
  mismatched address versions are \<^verbatim>\<open>unreachable!\<close>.
\<close>

fun udp_into_smol :: "udp_wire \<Rightarrow> udp_packet \<Rightarrow> smol_packet res" where
  "udp_into_smol w p =
     (case (up_src_addr p, up_dst_addr p) of
        (SockV4 sa sp, SockV4 da dp) \<Rightarrow>
          let repr = \<lparr>repr_src = sa, repr_dst = da, repr_next_header = Messages.Udp,
                      repr_payload_len = udp_header_len w + length (up_payload p), repr_hop_limit = 255\<rparr>;
              packet = v4_emit w repr (replicate (v4_buffer_len w repr) 0)
          in Inr (V4 (v4_udp_emit w sp dp sa da (up_payload p) packet))
      | (SockV6 sa sp sf ss, SockV6 da dp df ds) \<Rightarrow>
          let repr = \<lparr>repr_src = sa, repr_dst = da, repr_next_header = Messages.Udp,
                      repr_payload_len = udp_header_len w + length (up_payload p), repr_hop_limit = 255\<rparr>;
              packet = v6_emit w repr (replicate (v6_buffer_len w repr) 0)
          in Inr (V6 (v6_udp_emit w sp dp sa da (up_payload p) packet))
      | _ \<Rightarrow> Inl (Panicked ''Mismatched IP address versions''))"

subsection \<open>A connection answers its readers in order and delivers its packets in order\<close>

datatype conn_op = AddPacket bytes | AddReader oneshot | CloseConn

fun conn_step :: "conn_op \<Rightarrow> conn_state \<Rightarrow> (conn_state \<times> effect list) res" where
  "conn_step (AddPacket d) s = Inr (add_packet d s)"
| "conn_step (AddReader tx) s = add_reader tx s"
| "conn_step CloseConn s = Inr (conn_close s)"

fun conn_run :: "conn_op list \<Rightarrow> conn_state \<Rightarrow> (conn_state \<times> effect list) res" where
  "conn_run [] s = Inr (s, [])"
| "conn_run (op # ops) s =
     res_bind (conn_step op s) (\<lambda>(s', es). res_bind (conn_run ops s') (\<lambda>(s'', es'). Inr (s'', es @ es')))"

definition readers_of :: "conn_op list \<Rightarrow> oneshot list" where
  "readers_of ops = List.map_filter (\<lambda>op. case op of AddReader tx \<Rightarrow> Some tx | _ \<Rightarrow> None) ops"

definition packets_of :: "conn_op list \<Rightarrow> bytes list" where
  "packets_of ops = List.map_filter (\<lambda>op. case op of AddPacket d \<Rightarrow> Some d | _ \<Rightarrow> None) ops"

definition resolved :: "effect list \<Rightarrow> oneshot list" where
  "resolved es = List.map_filter (\<lambda>e. case e of SendData tx d \<Rightarrow> Some tx | DropData tx \<Rightarrow> Some tx | _ \<Rightarrow> None) es"

definition delivered :: "effect list \<Rightarrow> bytes list" where
  "delivered es = List.map_filter (\<lambda>e. case e of SendData tx d \<Rightarrow> Some d | _ \<Rightarrow> None) es"

lemma trace_simps [simp]:
  "readers_of [] = []" "packets_of [] = []" "resolved [] = []" "delivered [] = []"
  "readers_of (op # ops) = (case op of AddReader tx \<Rightarrow> tx # readers_of ops | _ \<Rightarrow> readers_of ops)"
  "packets_of (op # ops) = (case op of AddPacket d \<Rightarrow> d # packets_of ops | _ \<Rightarrow> packets_of ops)"
  "resolved (e # es) = (case e of SendData tx d \<Rightarrow> tx # resolved es | DropData tx \<Rightarrow> tx # resolved es | _ \<Rightarrow> resolved es)"
  "delivered (e # es) = (case e of SendData tx d \<Rightarrow> d # delivered es | _ \<Rightarrow> delivered es)"
  "resolved (es @ fs) = resolved es @ resolved fs"
  "delivered (es @ fs) = delivered es @ delivered fs"
  by (auto simp: readers_of_def packets_of_def resolved_def delivered_def List.map_filter_def
      split: conn_op.splits effect.splits)

definition pending :: "conn_state \<Rightarrow> oneshot list" where
  "pending s = (case cs_read_tx s of None \<Rightarrow> [] | Some tx \<Rightarrow> [tx])"

text \<open>A waiting reader means an empty queue, and a closed connection has neither.\<close>

definition conn_inv :: "conn_state \<Rightarrow> bool" where
  "conn_inv s \<longleftrightarrow>
     (cs_read_tx s \<noteq> None \<longrightarrow> cs_packets s = []) \<and>
     (cs_closed s \<longrightarrow> cs_packets s = [] \<and> cs_read_tx s = None)"

lemma conn_inv_default [simp]: "conn_inv conn_default"
  by (simp add: conn_inv_def conn_default_def)

lemmas conn_op_defs = add_packet_def add_reader_def conn_close_def Let_def

lemma conn_step_inv: "conn_inv s \<Longrightarrow> conn_step op s = Inr (s', es) \<Longrightarrow> conn_inv s'"
  by (cases op) (auto simp: conn_inv_def conn_op_defs split: option.splits if_splits list.splits)

lemma conn_step_readers:
  "conn_inv s \<Longrightarrow> conn_step op s = Inr (s', es) \<Longrightarrow> pending s @ readers_of [op] = resolved es @ pending s'"
  by (cases op) (auto simp: conn_inv_def pending_def conn_op_defs split: option.splits if_splits list.splits)

lemma conn_step_packets:
  "conn_inv s \<Longrightarrow> conn_step op s = Inr (s', es) \<Longrightarrow>
   \<exists>lost. cs_packets s @ packets_of [op] = delivered es @ cs_packets s' @ lost \<and>
     (lost \<noteq> [] \<longrightarrow> cs_closed s') \<and> (cs_closed s' \<longrightarrow> cs_closed s \<or> op = CloseConn) \<and> (cs_closed s \<longrightarrow> cs_closed s')"
  by (cases op) (auto simp: conn_inv_def conn_op_defs split: option.splits if_splits list.splits)

lemma conn_run_inv: "conn_inv s \<Longrightarrow> conn_run ops s = Inr (s', es) \<Longrightarrow> conn_inv s'"
  by (induction ops arbitrary: s es) (auto simp: res_bind_eq_Inr dest: conn_step_inv)

lemma conn_run_readers:
  "conn_inv s \<Longrightarrow> conn_run ops s = Inr (s', es) \<Longrightarrow> pending s @ readers_of ops = resolved es @ pending s'"
proof (induction ops arbitrary: s es)
  case (Cons op ops)
  from Cons.prems(2) obtain s1 es1 es2 where
    s1: "conn_step op s = Inr (s1, es1)" "conn_run ops s1 = Inr (s', es2)" "es = es1 @ es2"
    by (auto simp: res_bind_eq_Inr)
  have "pending s @ readers_of (op # ops) = (pending s @ readers_of [op]) @ readers_of ops"
    by (simp split: conn_op.splits)
  also have "\<dots> = resolved es1 @ pending s1 @ readers_of ops"
    unfolding conn_step_readers [OF Cons.prems(1) s1(1)] by simp
  also have "\<dots> = resolved es @ pending s'"
    using Cons.IH [OF conn_step_inv [OF Cons.prems(1) s1(1)] s1(2)] s1(3) by simp
  finally show ?case .
qed simp

lemma conn_run_closed:
  "conn_inv s \<Longrightarrow> conn_run ops s = Inr (s', es) \<Longrightarrow> cs_closed s \<Longrightarrow>
   cs_closed s' \<and> delivered es = [] \<and> cs_packets s' = []"
proof (induction ops arbitrary: s es)
  case (Cons op ops)
  from Cons.prems(2) obtain s1 es1 es2 where
    s1: "conn_step op s = Inr (s1, es1)" "conn_run ops s1 = Inr (s', es2)" "es = es1 @ es2"
    by (auto simp: res_bind_eq_Inr)
  have "s1 = s \<and> delivered es1 = []"
    using s1(1) Cons.prems(1,3) by (cases op) (auto simp: conn_inv_def conn_op_defs split: if_splits)
  then show ?case using Cons.IH [of s es2] s1 Cons.prems(1,3) by simp
qed (simp add: conn_inv_def)

lemma conn_run_packets:
  "conn_inv s \<Longrightarrow> conn_run ops s = Inr (s', es) \<Longrightarrow>
   \<exists>lost. cs_packets s @ packets_of ops = delivered es @ cs_packets s' @ lost \<and>
     (lost \<noteq> [] \<longrightarrow> cs_closed s') \<and> (cs_closed s' \<longrightarrow> cs_closed s \<or> CloseConn \<in> set ops)"
proof (induction ops arbitrary: s es)
  case (Cons op ops)
  from Cons.prems(2) obtain s1 es1 es2 where
    s1: "conn_step op s = Inr (s1, es1)" "conn_run ops s1 = Inr (s', es2)" "es = es1 @ es2"
    by (auto simp: res_bind_eq_Inr)
  from conn_step_packets [OF Cons.prems(1) s1(1)] obtain l1 where
    l1: "cs_packets s @ packets_of [op] = delivered es1 @ cs_packets s1 @ l1"
      "l1 \<noteq> [] \<longrightarrow> cs_closed s1" "cs_closed s1 \<longrightarrow> cs_closed s \<or> op = CloseConn" by blast
  note inv1 = conn_step_inv [OF Cons.prems(1) s1(1)]
  from Cons.IH [OF inv1 s1(2)] obtain l2 where
    l2: "cs_packets s1 @ packets_of ops = delivered es2 @ cs_packets s' @ l2"
      "l2 \<noteq> [] \<longrightarrow> cs_closed s'" "cs_closed s' \<longrightarrow> cs_closed s1 \<or> CloseConn \<in> set ops" by blast
  have stays: "cs_closed s1 \<Longrightarrow> cs_closed s' \<and> delivered es2 = [] \<and> cs_packets s' = []"
    using conn_run_closed [OF inv1 s1(2)] by blast
  have "cs_packets s @ packets_of (op # ops) = (cs_packets s @ packets_of [op]) @ packets_of ops"
    by (simp split: conn_op.splits)
  also have "\<dots> = delivered es @ cs_packets s' @ (if cs_closed s1 then l1 @ packets_of ops else l2)"
    using l1 l2 stays inv1 s1(3) by (auto simp: conn_inv_def)
  finally show ?case using l1 l2 stays by (auto split: if_splits)
qed simp

text \<open>
  Whatever packets arrive, readers come and closes happen on a connection, every reader is
  answered exactly once, in the order the readers came (with data, or by dropping its channel once
  the connection is closed), except at most the last one, which is still waiting.
\<close>

theorem conn_readers_in_order:
  assumes "conn_run ops conn_default = Inr (s, es)"
  shows "readers_of ops = resolved es @ pending s"
  using conn_run_readers [OF conn_inv_default assms] by (simp add: pending_def conn_default_def)

theorem conn_readers_in_order_witness:
  "readers_of [AddReader 1, AddPacket [7], AddReader 2, CloseConn, AddReader 3] = [1, 2, 3] \<and>
   conn_run [AddReader 1, AddPacket [7], AddReader 2, CloseConn, AddReader 3] conn_default
     = Inr (\<lparr>cs_closed = True, cs_packets = [], cs_read_tx = None\<rparr>, [SendData 1 [7], DropData 2, DropData 3])"
proof -
  have run: "conn_run [AddReader 1, AddPacket [7], AddReader 2, CloseConn, AddReader 3] conn_default
     = Inr (\<lparr>cs_closed = True, cs_packets = [], cs_read_tx = None\<rparr>, [SendData 1 [7], DropData 2, DropData 3])"
    by (simp add: conn_default_def conn_op_defs)
  from conn_readers_in_order [OF run] run show ?thesis by (simp add: pending_def)
qed

text \<open>
  A connection is a FIFO: the packets handed to readers, followed by those still queued, are
  the packets that arrived, in order, up to a tail that is lost only if the connection was closed.
\<close>

theorem conn_fifo:
  assumes "conn_run ops conn_default = Inr (s, es)"
  shows "\<exists>lost. packets_of ops = delivered es @ cs_packets s @ lost \<and> (lost \<noteq> [] \<longrightarrow> CloseConn \<in> set ops)"
  using conn_run_packets [OF conn_inv_default assms] by (auto simp: conn_default_def)

theorem conn_fifo_witness:
  "\<exists>s es. conn_run [AddPacket [1], AddPacket [2], AddReader 9, AddPacket [3]] conn_default = Inr (s, es) \<and>
     delivered es @ cs_packets s = [[1], [2], [3]]"
proof -
  obtain s es where run: "conn_run [AddPacket [1], AddPacket [2], AddReader 9, AddPacket [3]] conn_default = Inr (s, es)"
    by (simp add: conn_default_def conn_op_defs)
  from conn_fifo [OF run] run show ?thesis by auto
qed

subsection \<open>The handler keeps connections apart\<close>

fun event_cid :: "transport_event \<Rightarrow> connection_id" where
  "event_cid (ConnectionEstablished cid src dst ti tx) = cid"

abbreviation event_cids :: "effect list \<Rightarrow> connection_id list" where
  "event_cids es \<equiv> map event_cid (events_of es)"

datatype udp_op = UReceive udp_packet tunnel_info | UCommand transport_command | UPoll

fun udp_apply ::
  "'i id_cache \<Rightarrow> 'c conn_cache \<Rightarrow> nat \<Rightarrow> udp_op \<Rightarrow> ('i, 'c) udp_handler \<Rightarrow>
   (('i, 'c) udp_handler \<times> effect list \<times> udp_packet option) res" where
  "udp_apply L C now (UReceive p ti) h = (let (h', es) = udp_receive_data L C now p ti h in Inr (h', es, None))"
| "udp_apply L C now (UCommand cmd) h = udp_handle_command L C now cmd h"
| "udp_apply L C now UPoll h = Inr (udp_poll L C now h, [], None)"

text \<open>
  The states a handler goes through as time passes, with the connection ids announced so far.
\<close>

inductive udp_reach ::
  "'i id_cache \<Rightarrow> 'c conn_cache \<Rightarrow> connection_id list \<Rightarrow> nat \<Rightarrow> ('i, 'c) udp_handler \<Rightarrow> bool"
  for L C where
  udp_init: "udp_reach L C [] now (udp_new L C)"
| udp_next: "udp_reach L C ids now h \<Longrightarrow> now \<le> now' \<Longrightarrow> udp_apply L C now' op h = Inr (h', es, out) \<Longrightarrow>
    udp_reach L C (ids @ event_cids es) now' h'"

text \<open>
  The invariant: ids are handed out in sequence; every id in a cache was handed out; an address
  pair is looked up to a connection of that address pair; connections are well-formed.
\<close>

definition udp_ok ::
  "connection_id list \<Rightarrow> connection_id_generator \<Rightarrow> (four_tuple \<rightharpoonup> connection_id) \<Rightarrow>
   (connection_id \<rightharpoonup> conn_state \<times> four_tuple) \<Rightarrow> bool" where
  "udp_ok ids g lookup conns \<longleftrightarrow>
     g = gen_after gen_udp (length ids) \<and>
     issued gen_udp ids \<and>
     (\<forall>a i. lookup a = Some i \<longrightarrow> i \<in> set ids) \<and>
     (\<forall>i sa. conns i = Some sa \<longrightarrow> i \<in> set ids \<and> conn_inv (fst sa)) \<and>
     (\<forall>a i sa. lookup a = Some i \<longrightarrow> conns i = Some sa \<longrightarrow> snd sa = a)"

definition udp_inv ::
  "(nat \<Rightarrow> 'i \<Rightarrow> four_tuple \<rightharpoonup> connection_id) \<Rightarrow> (nat \<Rightarrow> 'c \<Rightarrow> connection_id \<rightharpoonup> conn_state \<times> four_tuple) \<Rightarrow>
   connection_id list \<Rightarrow> nat \<Rightarrow> ('i, 'c) udp_handler \<Rightarrow> bool" where
  "udp_inv cl cc ids now h \<longleftrightarrow>
     udp_ok ids (uh_generator h) (cl now (uh_id_lookup h)) (cc now (uh_connections h))"

lemma udp_ok_empty: "udp_ok [] gen_udp Map.empty Map.empty"
  by (simp add: udp_ok_def)

lemma udp_ok_le:
  assumes "udp_ok ids g lookup conns" and "lookup' \<subseteq>\<^sub>m lookup" and "conns' \<subseteq>\<^sub>m conns"
  shows "udp_ok ids g lookup' conns'"
proof -
  have l: "lookup' a = Some i \<Longrightarrow> lookup a = Some i" for a i
    using assms(2) by (metis domI map_le_def)
  have c: "conns' i = Some sa \<Longrightarrow> conns i = Some sa" for i sa
    using assms(3) by (metis domI map_le_def)
  show ?thesis
    using assms(1) l c unfolding udp_ok_def by blast
qed

lemma udp_ok_addrs: "udp_ok ids g lookup conns \<Longrightarrow> lookup a = Some i \<Longrightarrow> conns i = Some (s, a') \<Longrightarrow> a' = a"
  unfolding udp_ok_def by (metis snd_conv)

lemma udp_ok_state: "udp_ok ids g lookup conns \<Longrightarrow> conns i = Some (s, a) \<Longrightarrow> i \<in> set ids \<and> conn_inv s"
  unfolding udp_ok_def by (metis fst_conv)

lemma udp_ok_write:
  "udp_ok ids g lookup conns \<Longrightarrow> conns i = Some (s0, a) \<Longrightarrow> conn_inv s \<Longrightarrow>
   udp_ok ids g lookup (conns(i \<mapsto> (s, a)))"
  using udp_ok_addrs [of ids g lookup conns _ i s0 a]
  unfolding udp_ok_def by (auto split: if_splits simp del: split_paired_All)

lemma udp_ok_refresh:
  "udp_ok ids g lookup conns \<Longrightarrow> conns i = Some (s, a) \<Longrightarrow> udp_ok ids g (lookup(a \<mapsto> i)) conns"
  unfolding udp_ok_def by (auto split: if_splits simp del: split_paired_All)

lemma unassigned_not_issued:
  assumes "issued gen_udp ids" and "length ids < 2 ^ 63 - 1"
  shows "unassigned_udp \<notin> set ids"
proof -
  let ?n = "length ids"
  have "next_ids (Suc ?n) (ConnectionIdGenerator 1) = unassigned_udp # next_ids ?n gen_udp"
    by (simp add: next_id_def unassigned_udp_def gen_udp_def)
  moreover have "distinct (next_ids (Suc ?n) (ConnectionIdGenerator 1))"
    using assms(2) by (intro distinct_next_ids) simp
  moreover have "next_ids ?n gen_udp = ids" using assms(1) by (simp add: issued_def)
  ultimately show ?thesis by simp
qed

lemma udp_ok_fresh:
  assumes ok: "udp_ok ids g lookup conns" and n: "length ids < 2 ^ 63 - 1" and s: "conn_inv s"
    and i: "i = ConnectionId (gen_next g)"
  shows "udp_ok (ids @ [i]) (ConnectionIdGenerator (gen_next g + 2)) (lookup(a \<mapsto> i)) (conns(i \<mapsto> (s, a)))"
proof -
  have g: "g = gen_after gen_udp (length ids)" and iss: "issued gen_udp ids"
    using ok by (auto simp: udp_ok_def)
  then have new: "i \<notin> set ids" using issued_fresh [OF iss] n i by simp
  have g': "ConnectionIdGenerator (gen_next g + 2) = gen_after gen_udp (length (ids @ [i]))"
    by (simp add: g gen_after_def algebra_simps)
  have "\<forall>a. lookup a \<noteq> Some i" and "conns i = None"
    using new ok by (auto simp: udp_ok_def simp del: split_paired_All not_None_eq) (metis new not_None_eq)+
  then show ?thesis
    using ok s issued_snoc [OF iss] i g
    unfolding udp_ok_def g' by (auto split: if_splits simp del: split_paired_All)
qed

lemma receive_data_fresh:
  assumes "lru_get L now (up_src_addr p, up_dst_addr p) (uh_id_lookup h) = (found, l)"
    and "lru_get C now (case found of None \<Rightarrow> unassigned_udp | Some cid \<Rightarrow> cid) (uh_connections h) = (None, c)"
  shows "udp_receive_data L C now p ti h =
     (let i = ConnectionId (gen_next (uh_generator h)); a = (up_src_addr p, up_dst_addr p) in
      (h\<lparr>uh_generator := ConnectionIdGenerator (gen_next (uh_generator h) + 2),
         uh_id_lookup := snd (lru_insert L now a i l),
         uh_connections := snd (lru_insert C now i (conn_default\<lparr>cs_packets := [up_payload p]\<rparr>, a) c)\<rparr>,
       [EmitEvent (ConnectionEstablished i (up_src_addr p) (up_dst_addr p) ti None)]))"
  using assms by (simp add: udp_receive_data_def Let_def next_id_def add_packet_def conn_default_def)

lemma receive_data_known:
  assumes "lru_get L now (up_src_addr p, up_dst_addr p) (uh_id_lookup h) = (found, l)"
    and "pc = (case found of None \<Rightarrow> unassigned_udp | Some cid \<Rightarrow> cid)"
    and "lru_get C now pc (uh_connections h) = (Some (s, a), c)"
    and "add_packet (up_payload p) s = (s', es)"
  shows "udp_receive_data L C now p ti h =
     (h\<lparr>uh_id_lookup := l, uh_connections := lru_write C pc (s', a) c\<rparr>, es)"
  using assms by (simp add: udp_receive_data_def Let_def)

lemma add_packet_inv: "conn_inv s \<Longrightarrow> add_packet d s = (s', es) \<Longrightarrow> conn_inv s' \<and> events_of es = []"
  using conn_step_inv [of s "AddPacket d"]
  by (auto simp: add_packet_def split: if_splits option.splits)

lemma add_reader_inv: "conn_inv s \<Longrightarrow> add_reader tx s = Inr (s', es) \<Longrightarrow> conn_inv s' \<and> events_of es = []"
  using conn_step_inv [of s "AddReader tx"]
  by (auto simp: add_reader_def split: if_splits list.splits)

lemma conn_close_inv: "conn_inv s \<Longrightarrow> conn_close s = (s', es) \<Longrightarrow> conn_inv s' \<and> events_of es = []"
  using conn_step_inv [of s CloseConn]
  by (auto simp: conn_close_def Let_def split: if_splits option.splits)

locale udp_caches = ids: lru_laws L ttl cl + conns: lru_laws C ttl cc
  for L :: "'i id_cache" and C :: "'c conn_cache" and ttl cl cc
begin

lemma inv_new: "udp_inv cl cc [] now (udp_new L C)"
  by (simp add: udp_inv_def udp_new_def udp_ok_empty ids.content_new conns.content_new)

lemma inv_later: "udp_inv cl cc is now h \<Longrightarrow> now \<le> now' \<Longrightarrow> udp_inv cl cc is now' h"
  unfolding udp_inv_def by (erule udp_ok_le) (simp_all add: ids.expiry conns.expiry)

text \<open>What \<^verbatim>\<open>receive_data\<close> does, on the two branches.\<close>

lemma receive_cases:
  assumes inv: "udp_inv cl cc is now h" and n: "length is < 2 ^ 63 - 1"
    and r: "udp_receive_data L C now p ti h = (h', es)"
  defines "a \<equiv> (up_src_addr p, up_dst_addr p)"
  obtains (known) i s s' where "cl now (uh_id_lookup h) a = Some i" "cc now (uh_connections h) i = Some (s, a)"
      "add_packet (up_payload p) s = (s', es)" "cl now (uh_id_lookup h') = cl now (uh_id_lookup h)"
      "cc now (uh_connections h') = (cc now (uh_connections h))(i \<mapsto> (s', a))" "uh_generator h' = uh_generator h"
    | (fresh) i where "i = ConnectionId (gen_next (uh_generator h))"
      "es = [EmitEvent (ConnectionEstablished i (up_src_addr p) (up_dst_addr p) ti None)]"
      "uh_generator h' = ConnectionIdGenerator (gen_next (uh_generator h) + 2)"
      "cl now (uh_id_lookup h') = (cl now (uh_id_lookup h))(a \<mapsto> i)"
      "cc now (uh_connections h') = (cc now (uh_connections h))(i \<mapsto> (conn_default\<lparr>cs_packets := [up_payload p]\<rparr>, a))"
      "\<And>i'. cl now (uh_id_lookup h) a = Some i' \<Longrightarrow> cc now (uh_connections h) i' = None"
      "\<And>t. now \<le> t \<Longrightarrow> t \<le> now + ttl \<Longrightarrow>
         cc t (uh_connections h') i = Some (conn_default\<lparr>cs_packets := [up_payload p]\<rparr>, a)"
proof -
  obtain found l where l: "lru_get L now a (uh_id_lookup h) = (found, l)" by (metis surj_pair)
  define pc where "pc = (case found of None \<Rightarrow> unassigned_udp | Some cid \<Rightarrow> cid)"
  obtain st c where c: "lru_get C now pc (uh_connections h) = (st, c)" by (metis surj_pair)
  from ids.get_pair [OF l] have found: "found = cl now (uh_id_lookup h) a" and cl: "cl now l = cl now (uh_id_lookup h)" by auto
  from conns.get_pair [OF c] have st: "st = cc now (uh_connections h) pc" and cc: "cc now c = cc now (uh_connections h)" by auto
  show thesis
  proof (cases st)
    case None
    note eq = receive_data_fresh [OF l [unfolded a_def] c [unfolded None pc_def], of ti]
    have dead: "cc now (uh_connections h) i' = None" if "cl now (uh_id_lookup h) a = Some i'" for i'
      using that None st found by (simp add: pc_def)
    show ?thesis
      using r dead unfolding eq
      by (intro fresh [OF refl]) (auto simp: Let_def a_def [symmetric] ids.insert_content
          conns.insert_content conns.insert_lives cl cc)
  next
    case (Some sa)
    then obtain s a' where sa: "cc now (uh_connections h) pc = Some (s, a')" using st by (cases sa) auto
    have "cl now (uh_id_lookup h) a = Some pc"
    proof (cases found)
      case None
      with sa inv have "unassigned_udp \<in> set is" by (auto simp: pc_def udp_inv_def udp_ok_def)
      moreover have "issued gen_udp is" using inv by (simp add: udp_inv_def udp_ok_def)
      ultimately show ?thesis using unassigned_not_issued [OF _ n] by blast
    qed (use found in \<open>simp add: pc_def\<close>)
    moreover from this sa inv have "a' = a" unfolding udp_inv_def by (metis udp_ok_addrs)
    moreover obtain s' es' where ap: "add_packet (up_payload p) s = (s', es')" by (metis surj_pair)
    moreover have "lru_get C now pc (uh_connections h) = (Some (s, a'), c)" using c sa st by simp
    note eq = receive_data_known [OF l [unfolded a_def] pc_def this ap, of ti]
    moreover have "cc now (lru_write C pc (s', a') c) = (cc now (uh_connections h))(pc \<mapsto> (s', a'))"
      using conns.write_content [of now c pc "(s, a')" "(s', a')"] sa cc by simp
    ultimately show ?thesis
      using r sa cl by (intro known [of pc s s']) auto
  qed
qed

lemma receive_inv:
  assumes "udp_inv cl cc is now h" and "length is < 2 ^ 63 - 1" and "udp_receive_data L C now p ti h = (h', es)"
  shows "udp_inv cl cc (is @ event_cids es) now h'"
  using assms
proof (cases rule: receive_cases)
  case (known i s s')
  then have "events_of es = []" and "conn_inv s'"
    using add_packet_inv udp_ok_state assms(1) unfolding udp_inv_def by blast+
  with known assms(1) show ?thesis
    using udp_ok_write [of "is" _ _ _ i s _ s'] by (simp add: udp_inv_def)
next
  case (fresh i)
  have "conn_inv (conn_default\<lparr>cs_packets := [up_payload p]\<rparr>)" by (simp add: conn_inv_def conn_default_def)
  with fresh assms(1,2) show ?thesis
    using udp_ok_fresh by (simp add: udp_inv_def)
qed

lemma read_inv:
  assumes "udp_inv cl cc is now h" and "udp_read_data C now i tx h = Inr (h', es)"
  shows "udp_inv cl cc is now h' \<and> events_of es = []"
proof -
  obtain r c where c: "lru_get C now i (uh_connections h) = (r, c)" by (metis surj_pair)
  from conns.get_pair [OF c] have r: "r = cc now (uh_connections h) i" and cc: "cc now c = cc now (uh_connections h)" by auto
  show ?thesis
  proof (cases r)
    case None
    with assms c cc show ?thesis by (auto simp: udp_read_data_def udp_inv_def)
  next
    case (Some sa)
    then obtain s a where sa: "r = Some (s, a)" by (cases sa) auto
    then obtain s' where s': "add_reader tx s = Inr (s', es)"
      and h': "h' = h\<lparr>uh_connections := lru_write C i (s', a) c\<rparr>"
      using assms(2) c by (auto simp: udp_read_data_def res_bind_eq_Inr)
    have "conn_inv s" using assms(1) sa r udp_ok_state unfolding udp_inv_def by metis
    then show ?thesis
      using s' h' assms(1) sa r cc add_reader_inv udp_ok_write conns.write_content [of now c i "(s, a)" "(s', a)"]
      by (auto simp: udp_inv_def)
  qed
qed

lemma write_inv:
  assumes "udp_inv cl cc is now h" and "udp_write_data L C now i d h = (h', p)"
  shows "udp_inv cl cc is now h'"
proof -
  obtain r c where c: "lru_get C now i (uh_connections h) = (r, c)" by (metis surj_pair)
  from conns.get_pair [OF c] have r: "r = cc now (uh_connections h) i" and cc: "cc now c = cc now (uh_connections h)" by auto
  show ?thesis
  proof (cases r)
    case None
    with assms c cc show ?thesis by (auto simp: udp_write_data_def udp_inv_def)
  next
    case (Some sa)
    then obtain s a where sa: "r = Some (s, a)" by (cases sa) auto
    then have "h' = h\<lparr>uh_connections := c, uh_id_lookup := snd (lru_insert L now a i (uh_id_lookup h))\<rparr>"
      using assms(2) c by (auto simp: udp_write_data_def Let_def split: if_splits)
    then show ?thesis using assms(1) sa r cc udp_ok_refresh by (auto simp: udp_inv_def ids.insert_content)
  qed
qed

lemma close_inv:
  assumes "udp_inv cl cc is now h" and "udp_close_connection C now i h = (h', es)"
  shows "udp_inv cl cc is now h' \<and> events_of es = []"
proof -
  obtain r c where c: "lru_get C now i (uh_connections h) = (r, c)" by (metis surj_pair)
  from conns.get_pair [OF c] have r: "r = cc now (uh_connections h) i" and cc: "cc now c = cc now (uh_connections h)" by auto
  show ?thesis
  proof (cases r)
    case None
    with assms c cc show ?thesis by (auto simp: udp_close_connection_def udp_inv_def)
  next
    case (Some sa)
    then obtain s a where sa: "r = Some (s, a)" by (cases sa) auto
    then obtain s' where s': "conn_close s = (s', es)"
      and h': "h' = h\<lparr>uh_connections := lru_write C i (s', a) c\<rparr>"
      using assms(2) c by (auto simp: udp_close_connection_def split: prod.splits)
    have "conn_inv s" using assms(1) sa r udp_ok_state unfolding udp_inv_def by metis
    then show ?thesis
      using s' h' assms(1) sa r cc conn_close_inv udp_ok_write conns.write_content [of now c i "(s, a)" "(s', a)"]
      by (auto simp: udp_inv_def)
  qed
qed

lemma poll_inv: "udp_inv cl cc is now h \<Longrightarrow> udp_inv cl cc is now (udp_poll L C now h)"
  by (simp add: udp_inv_def udp_poll_def ids.iter_content conns.iter_content)

lemma apply_inv:
  assumes "udp_inv cl cc is now h" and "length is < 2 ^ 63 - 1" and "udp_apply L C now op h = Inr (h', es, out)"
  shows "udp_inv cl cc (is @ event_cids es) now h'"
proof (cases op)
  case (UReceive p ti)
  with assms show ?thesis by (auto intro: receive_inv split: prod.splits)
next
  case (UCommand cmd)
  with assms show ?thesis
    by (cases cmd) (auto simp: res_bind_eq_Inr udp_drain_writer_def split: prod.splits
        dest: read_inv write_inv close_inv)
qed (use assms poll_inv in auto)

lemma reach_inv: "udp_reach L C is now h \<Longrightarrow> length is < 2 ^ 63 - 1 \<Longrightarrow> udp_inv cl cc is now h"
proof (induction rule: udp_reach.induct)
  case (udp_next "is" now h now' op h' es out)
  then have "udp_inv cl cc is now' h" using inv_later by simp
  with udp_next show ?case by (intro apply_inv) auto
qed (rule inv_new)

end

text \<open>
  C7. UDP connections are kept apart.  In every state the handler can reach, a datagram either goes
  to a live connection with exactly its source and destination address, in which case no event is
  raised, or it opens a new connection for that address pair: then the id is one never announced
  before, exactly one \<open>ConnectionEstablished\<close> event with that id is raised, and the new connection
  holds just this datagram.  No other connection changes.
\<close>

theorem udp_isolation:
  assumes "lru_laws L ttl cl" and "lru_laws C ttl cc"
    and "udp_reach L C ids now h" and "length ids < 2 ^ 63 - 1" and "now \<le> t"
    and "udp_receive_data L C t p ti h = (h', es)"
  defines "addrs \<equiv> (up_src_addr p, up_dst_addr p)"
  shows "(\<exists>i s s'. cc t (uh_connections h) i = Some (s, addrs) \<and> add_packet (up_payload p) s = (s', es) \<and>
             cc t (uh_connections h') = (cc t (uh_connections h))(i \<mapsto> (s', addrs)) \<and> events_of es = []) \<or>
         (\<exists>i. i \<notin> set ids \<and> es = [EmitEvent (ConnectionEstablished i (up_src_addr p) (up_dst_addr p) ti None)] \<and>
             cc t (uh_connections h') = (cc t (uh_connections h))(i \<mapsto> (conn_default\<lparr>cs_packets := [up_payload p]\<rparr>, addrs)) \<and>
             cl t (uh_id_lookup h') addrs = Some i)"
proof -
  have caches: "udp_caches L C ttl cl cc" using assms(1,2) by (simp add: udp_caches_def)
  note reach = udp_caches.reach_inv [OF caches assms(3,4)]
  note inv = udp_caches.inv_later [OF caches reach assms(5)]
  show ?thesis
  proof (cases rule: udp_caches.receive_cases [OF caches inv assms(4) assms(6), case_names known fresh])
    case (known i s s')
    then have "events_of es = []" using add_packet_inv udp_ok_state inv unfolding udp_inv_def by blast
    with known show ?thesis unfolding addrs_def by blast
  next
    case (fresh i)
    have "issued gen_udp ids" and "uh_generator h = gen_after gen_udp (length ids)"
      using inv by (simp_all add: udp_inv_def udp_ok_def)
    then have "i \<notin> set ids" using issued_fresh [of gen_udp ids] assms(4) fresh(1) by simp
    moreover have "cl t (uh_id_lookup h') addrs = Some i" using fresh by (simp add: addrs_def)
    ultimately show ?thesis using fresh unfolding addrs_def by blast
  qed
qed

text \<open>
  The connection ids the UDP handler announces to Python are pairwise distinct, odd (so they
  never collide with those of TCP connections) and never the reserved id 1.
\<close>

theorem udp_ids_distinct:
  assumes "lru_laws L ttl cl" and "lru_laws C ttl cc"
    and "udp_reach L C ids now h" and "length ids < 2 ^ 63 - 1"
  shows "distinct ids \<and> (\<forall>i\<in>set ids. \<not> is_tcp i \<and> i \<noteq> unassigned_udp)"
proof -
  have "udp_caches L C ttl cl cc" using assms(1,2) by (simp add: udp_caches_def)
  from udp_caches.reach_inv [OF this assms(3,4)] have iss: "issued gen_udp ids"
    by (simp add: udp_inv_def udp_ok_def)
  have "\<not> is_tcp i" if "i \<in> set ids" for i
    using issued_is_tcp [OF iss that] by (simp add: gen_udp_def)
  then show ?thesis
    using issued_distinct [OF iss] unassigned_not_issued [OF iss assms(4)] assms(4) by auto
qed

subsection \<open>Witnesses over the cache with time stamps\<close>

definition timed_ids :: "(four_tuple, connection_id) timed id_cache" where
  "timed_ids = timed_lru UDP_TIMEOUT"

definition timed_conns :: "(connection_id, conn_state \<times> four_tuple) timed conn_cache" where
  "timed_conns = timed_lru UDP_TIMEOUT"

interpretation timed_udp: udp_caches timed_ids timed_conns UDP_TIMEOUT "timed_content UDP_TIMEOUT" "timed_content UDP_TIMEOUT"
  by (simp add: udp_caches_def timed_ids_def timed_conns_def timed.lru_laws_axioms)

definition dns_query :: udp_packet where
  "dns_query = \<lparr>up_src_addr = SockV4 167772161 5000, up_dst_addr = SockV4 134744072 53, up_payload = [1, 2, 3]\<rparr>"

lemma dns_query_received:
  "\<exists>h'. udp_receive_data timed_ids timed_conns 0 dns_query NoTunnel (udp_new timed_ids timed_conns) =
     (h', [EmitEvent (ConnectionEstablished (ConnectionId 3) (SockV4 167772161 5000) (SockV4 134744072 53) NoTunnel None)])"
  by (simp add: udp_receive_data_def udp_new_def timed_ids_def timed_conns_def timed_lru_def timed_get_def
      dns_query_def next_id_def gen_udp_def add_packet_def conn_default_def Let_def)

lemmas timed_start = timed_udp.ids.lru_laws_axioms timed_udp.conns.lru_laws_axioms udp_init [of timed_ids timed_conns 0]

theorem udp_isolation_witness:
  "\<exists>h'. udp_receive_data timed_ids timed_conns 0 dns_query NoTunnel (udp_new timed_ids timed_conns) =
     (h', [EmitEvent (ConnectionEstablished (ConnectionId 3) (SockV4 167772161 5000) (SockV4 134744072 53) NoTunnel None)]) \<and>
     timed_content UDP_TIMEOUT 0 (uh_id_lookup h') (SockV4 167772161 5000, SockV4 134744072 53) = Some (ConnectionId 3)"
  using dns_query_received udp_isolation [OF timed_start, of 0 dns_query NoTunnel] by (fastforce simp: dns_query_def)

theorem udp_ids_distinct_witness:
  "\<exists>h'. udp_reach timed_ids timed_conns [ConnectionId 3] 0 h' \<and> distinct [ConnectionId 3] \<and> \<not> is_tcp (ConnectionId 3)"
proof -
  obtain h' where h': "udp_receive_data timed_ids timed_conns 0 dns_query NoTunnel (udp_new timed_ids timed_conns) =
     (h', [EmitEvent (ConnectionEstablished (ConnectionId 3) (SockV4 167772161 5000) (SockV4 134744072 53) NoTunnel None)])"
    using dns_query_received by blast
  have "udp_reach timed_ids timed_conns [ConnectionId 3] 0 h'"
    using udp_next [OF timed_start(3), of 0 "UReceive dns_query NoTunnel" h'] h' by simp
  then show ?thesis using udp_ids_distinct [OF timed_start(1,2), of "[ConnectionId 3]"] by auto
qed

end
