(* ===== verification/Virtual_Device.thy ===== *)
theory Virtual_Device
  imports Messages
begin

text \<open>
  \<^verbatim>\<open>src/network/virtual_device.rs\<close>: the device smoltcp drives.  Packets to smoltcp wait in a
  queue; packets from smoltcp go to the bounded channel towards the packet source, of which the
  device sees only how many slots are free (\<open>vd_room\<close>).  A token that smoltcp holds has a slot
  reserved; consuming it sends a packet, dropping it returns the slot.
\<close>

record virtual_device =
  vd_rx_buffer :: "bytes list"
  vd_room :: nat

definition vd_new :: "nat \<Rightarrow> virtual_device" where
  "vd_new room = \<lparr>vd_rx_buffer = [], vd_room = room\<rparr>"

definition vd_receive_packet :: "smol_packet \<Rightarrow> virtual_device \<Rightarrow> virtual_device" where
  "vd_receive_packet packet d = d\<lparr>vd_rx_buffer := vd_rx_buffer d @ [into_inner packet]\<rparr>"

text \<open>\<^verbatim>\<open>Device::receive\<close>: the buffer of the receive token; the transmit token holds a slot.\<close>

definition vd_receive :: "virtual_device \<Rightarrow> (bytes \<times> virtual_device) option" where
  "vd_receive d =
     (case vd_rx_buffer d of
        [] \<Rightarrow> None
      | buffer # rest \<Rightarrow>
          if 0 < vd_room d then Some (buffer, d\<lparr>vd_rx_buffer := rest, vd_room := vd_room d - 1\<rparr>)
          else None)"

definition vd_transmit :: "virtual_device \<Rightarrow> virtual_device option" where
  "vd_transmit d = (if 0 < vd_room d then Some (d\<lparr>vd_room := vd_room d - 1\<rparr>) else None)"

record device_capabilities =
  medium_ip :: bool
  max_transmission_unit :: nat

definition vd_capabilities :: device_capabilities where
  "vd_capabilities = \<lparr>medium_ip = True, max_transmission_unit = 1420\<rparr>"

text \<open>
  \<^verbatim>\<open>TxToken::consume\<close>: smoltcp's \<open>f\<close> fills the buffer; if the result is an IP packet it is
  sent, using the slot, otherwise the slot is returned.
\<close>

definition tx_consume :: "smol_wire \<Rightarrow> nat \<Rightarrow> (bytes \<Rightarrow> bytes) \<Rightarrow> virtual_device \<Rightarrow> virtual_device \<times> effect list" where
  "tx_consume w len f d =
     (let buffer = f (replicate len 0) in
      case smol_try_from w buffer of
        Inr packet \<Rightarrow> (d, [EmitCommand (SendPacket packet)])
      | Inl err \<Rightarrow> (d\<lparr>vd_room := vd_room d + 1\<rparr>, []))"

definition tx_drop :: "virtual_device \<Rightarrow> virtual_device" where
  "tx_drop d = d\<lparr>vd_room := vd_room d + 1\<rparr>"

definition rx_consume :: "(bytes \<Rightarrow> 'r) \<Rightarrow> bytes \<Rightarrow> 'r" where
  "rx_consume f buffer = f buffer"

subsection \<open>Anything smoltcp can do to the device\<close>

inductive dev_steps :: "smol_wire \<Rightarrow> virtual_device \<Rightarrow> effect list \<Rightarrow> virtual_device \<Rightarrow> bool" for w where
  dev_idle: "dev_steps w d [] d"
| dev_answer: "vd_receive d = Some (buffer, d1) \<Longrightarrow> tx_consume w len f d1 = (d2, es) \<Longrightarrow> dev_steps w d2 es' d' \<Longrightarrow>
    dev_steps w d (es @ es') d'"
| dev_silent: "vd_receive d = Some (buffer, d1) \<Longrightarrow> dev_steps w (tx_drop d1) es' d' \<Longrightarrow> dev_steps w d es' d'"
| dev_send: "vd_transmit d = Some d1 \<Longrightarrow> tx_consume w len f d1 = (d2, es) \<Longrightarrow> dev_steps w d2 es' d' \<Longrightarrow>
    dev_steps w d (es @ es') d'"

lemma tx_consume_flow:
  "tx_consume w len f d = (d', es) \<Longrightarrow>
   vd_room d' + length es = Suc (vd_room d) \<and> vd_rx_buffer d' = vd_rx_buffer d \<and>
   (\<forall>e\<in>set es. \<exists>b p. smol_try_from w b = Inr p \<and> e = EmitCommand (SendPacket p))"
  by (auto simp: tx_consume_def Let_def split: sum.splits)

lemma vd_receive_flow:
  "vd_receive d = Some (b, d') \<Longrightarrow> vd_rx_buffer d = b # vd_rx_buffer d' \<and> vd_room d = Suc (vd_room d')"
  by (auto simp: vd_receive_def split: list.splits if_splits)

lemma vd_transmit_flow:
  "vd_transmit d = Some d' \<Longrightarrow> vd_rx_buffer d' = vd_rx_buffer d \<and> vd_room d = Suc (vd_room d')"
  by (auto simp: vd_transmit_def split: if_splits)

lemma dev_steps_flow:
  assumes "dev_steps w d es d'"
  shows "vd_room d' + length es = vd_room d \<and> (\<exists>n. vd_rx_buffer d' = drop n (vd_rx_buffer d)) \<and>
     (\<forall>e\<in>set es. \<exists>b p. smol_try_from w b = Inr p \<and> e = EmitCommand (SendPacket p))"
  using assms
proof (induction rule: dev_steps.induct)
  case (dev_idle d)
  have "\<exists>n. vd_rx_buffer d = drop n (vd_rx_buffer d)" by (rule exI [of _ 0]) simp
  then show ?case by simp
next
  case (dev_answer d buffer d1 len f d2 es es' d')
  from dev_answer.IH obtain n where "vd_rx_buffer d' = drop n (vd_rx_buffer d2)" by blast
  then have ex: "\<exists>n. vd_rx_buffer d' = drop n (vd_rx_buffer d)"
    by (intro exI [of _ "Suc n"]) (use vd_receive_flow [OF dev_answer.hyps(1)] tx_consume_flow [OF dev_answer.hyps(2)] in simp)
  show ?case
    by (intro conjI ex) (use vd_receive_flow [OF dev_answer.hyps(1)] tx_consume_flow [OF dev_answer.hyps(2)] dev_answer.IH in auto)
next
  case (dev_silent d buffer d1 es' d')
  from dev_silent.IH obtain n where "vd_rx_buffer d' = drop n (vd_rx_buffer (tx_drop d1))" by blast
  then have ex: "\<exists>n. vd_rx_buffer d' = drop n (vd_rx_buffer d)"
    by (intro exI [of _ "Suc n"]) (use vd_receive_flow [OF dev_silent.hyps(1)] in \<open>simp add: tx_drop_def\<close>)
  show ?case
    by (intro conjI ex) (use vd_receive_flow [OF dev_silent.hyps(1)] dev_silent.IH in \<open>auto simp: tx_drop_def\<close>)
next
  case (dev_send d d1 len f d2 es es' d')
  then show ?case
    using vd_transmit_flow [OF dev_send.hyps(1)] tx_consume_flow [OF dev_send.hyps(2)] by auto
qed

lemma dev_steps_no_events: "dev_steps w d es d' \<Longrightarrow> events_of es = []"
proof -
  assume "dev_steps w d es d'"
  then have "\<forall>e\<in>set es. \<exists>b p. smol_try_from w b = Inr p \<and> e = EmitCommand (SendPacket p)"
    using dev_steps_flow by blast
  then show ?thesis by (induction es) auto
qed

text \<open>
  Backpressure towards the packet source: whatever smoltcp does with the device, it never
  sends more packets than the channel has free slots (each packet uses one, nothing else does),
  takes packets from the queue in arrival order and discards none it has not taken, and emits
  nothing but well-formed IP packets.
\<close>

theorem virtual_device_backpressure:
  assumes "dev_steps w d es d'"
  shows "vd_room d' + length es = vd_room d \<and> (\<exists>n. vd_rx_buffer d' = drop n (vd_rx_buffer d)) \<and>
     (\<forall>e\<in>set es. \<exists>b p. smol_try_from w b = Inr p \<and> e = EmitCommand (SendPacket p))"
  by (rule dev_steps_flow [OF assms])

theorem virtual_device_backpressure_witness:
  "dev_steps basic_wire \<lparr>vd_rx_buffer = [[1], [2]], vd_room = 3\<rparr> [] \<lparr>vd_rx_buffer = [[2]], vd_room = 3\<rparr> \<and>
   (\<exists>n. [[2]] = drop n [[1], [2 :: u8]])"
proof -
  have "dev_steps basic_wire \<lparr>vd_rx_buffer = [[1], [2]], vd_room = 3\<rparr> [] \<lparr>vd_rx_buffer = [[2]], vd_room = 3\<rparr>"
    by (rule dev_silent [of _ "[1]" "\<lparr>vd_rx_buffer = [[2]], vd_room = 2\<rparr>"])
      (simp_all add: vd_receive_def tx_drop_def dev_idle)
  with virtual_device_backpressure [OF this] show ?thesis by simp
qed

end
