(* ===== verification/Tcp.thy ===== *)
theory Tcp
  imports Udp Virtual_Device
begin

text \<open>
  \<^verbatim>\<open>src/network/tcp.rs\<close>: the TCP side of the network stack, built on smoltcp.  The handler's
  own state (connections, second send buffer, waiters, active address pairs) and every operation
  on it are modelled; smoltcp's sockets, socket set, interface and packet accessors are the
  parameter \<open>tcp_stack\<close>.
\<close>

subsection \<open>smoltcp\<close>

datatype tcp_state =
    Closed | Listen | SynSent | SynReceived | Established | FinWait1 | FinWait2 | CloseWait
  | Closing | LastAck | TimeWait

type_synonym handle = nat

text \<open>
  \<open>'s\<close> is a TCP socket, \<open>'ss\<close> a socket set, \<open>'f\<close> an interface.  Durations are in
  milliseconds.  \<open>recv_slice n\<close> returns what was
  read into a buffer of \<open>n\<close> bytes.  \<open>as_slices\<close> is how a \<^verbatim>\<open>VecDeque\<close> happens to lay out
  its content in two slices.
\<close>

record ('s, 'ss, 'f) tcp_stack =
  tcp_checked :: "bytes \<Rightarrow> bool"
  tcp_verify_checksum :: "ip_addr \<Rightarrow> ip_addr \<Rightarrow> bytes \<Rightarrow> bool"
  tcp_src_port :: "bytes \<Rightarrow> u16"
  tcp_dst_port :: "bytes \<Rightarrow> u16"
  tcp_syn :: "bytes \<Rightarrow> bool"
  tcp_ack :: "bytes \<Rightarrow> bool"
  sock_create :: "nat \<Rightarrow> nat \<Rightarrow> 's"
  sock_listen :: "socket_addr \<Rightarrow> 's \<Rightarrow> 's res"
  sock_set_timeout :: "nat \<Rightarrow> 's \<Rightarrow> 's"
  sock_set_keep_alive :: "nat \<Rightarrow> 's \<Rightarrow> 's"
  sock_state :: "'s \<Rightarrow> tcp_state"
  can_recv :: "'s \<Rightarrow> bool"
  recv_queue :: "'s \<Rightarrow> nat"
  recv_slice :: "nat \<Rightarrow> 's \<Rightarrow> (bytes \<times> 's) res"
  can_send :: "'s \<Rightarrow> bool"
  send_slice :: "bytes \<Rightarrow> 's \<Rightarrow> (nat \<times> 's) res"
  send_queue :: "'s \<Rightarrow> nat"
  send_capacity :: "'s \<Rightarrow> nat"
  sock_close :: "'s \<Rightarrow> 's"
  set_new :: "'ss"
  set_add :: "'s \<Rightarrow> 'ss \<Rightarrow> handle \<times> 'ss"
  set_get :: "'ss \<Rightarrow> handle \<Rightarrow> 's option"
  set_put :: "handle \<Rightarrow> 's \<Rightarrow> 'ss \<Rightarrow> 'ss"
  set_remove :: "handle \<Rightarrow> 'ss \<Rightarrow> 'ss"
  iface_new :: "'f"
  iface_poll :: "nat \<Rightarrow> 'f \<times> virtual_device \<times> 'ss \<Rightarrow> ('f \<times> virtual_device \<times> 'ss) \<times> effect list"
  iface_poll_delay :: "nat \<Rightarrow> 'f \<Rightarrow> 'ss \<Rightarrow> nat option"
  as_slices :: "bytes \<Rightarrow> bytes \<times> bytes"

subsection \<open>State\<close>

record socket_data =
  sd_handle :: handle
  sd_send_buffer :: bytes
  sd_write_eof :: bool
  sd_recv_waiter :: "(u32 \<times> oneshot) option"
  sd_drain_waiter :: "oneshot list"
  sd_addr_tuple :: four_tuple

text \<open>
  The \<^verbatim>\<open>HashMap\<close> of connections is iterated, so it is an association list whose order stands
  for the order of iteration.
\<close>

record ('ss, 'f) tcp_handler =
  th_generator :: connection_id_generator
  th_iface :: 'f
  th_device :: virtual_device
  th_sockets :: 'ss
  th_socket_data :: "(connection_id \<times> socket_data) list"
  th_remove_conns :: "connection_id list"
  th_active :: "four_tuple set"

definition tcp_new :: "('s, 'ss, 'f) tcp_stack \<Rightarrow> nat \<Rightarrow> ('ss, 'f) tcp_handler" where
  "tcp_new T room =
     \<lparr>th_generator = gen_tcp, th_iface = iface_new T, th_device = vd_new room, th_sockets = set_new T,
      th_socket_data = [], th_remove_conns = [], th_active = {}\<rparr>"

text \<open>\<^verbatim>\<open>HashMap::insert\<close>, \<^verbatim>\<open>get_mut\<close> followed by an update, and \<^verbatim>\<open>remove\<close>.\<close>

fun hm_insert :: "'k \<Rightarrow> 'v \<Rightarrow> ('k \<times> 'v) list \<Rightarrow> ('k \<times> 'v) list" where
  "hm_insert k v [] = [(k, v)]"
| "hm_insert k v ((k', v') # m) = (if k' = k then (k, v) # m else (k', v') # hm_insert k v m)"

definition hm_remove :: "'k \<Rightarrow> ('k \<times> 'v) list \<Rightarrow> ('k \<times> 'v) list" where
  "hm_remove k m = filter (\<lambda>(k', v). k' \<noteq> k) m"

subsection \<open>Incoming packets\<close>

definition new_socket_data :: "handle \<Rightarrow> four_tuple \<Rightarrow> socket_data" where
  "new_socket_data h addrs =
     \<lparr>sd_handle = h, sd_send_buffer = [], sd_write_eof = False, sd_recv_waiter = None, sd_drain_waiter = [],
      sd_addr_tuple = addrs\<rparr>"

definition tcp_receive_packet ::
  "smol_wire \<Rightarrow> ('s, 'ss, 'f) tcp_stack \<Rightarrow> smol_packet \<Rightarrow> tunnel_info \<Rightarrow> ('ss, 'f) tcp_handler \<Rightarrow>
   ('ss, 'f) tcp_handler run" where
  "tcp_receive_packet w T packet tunnel_info t =
     (let sip = src_ip w packet;
          dip = dst_ip w packet;
          p = payload w packet
      in if \<not> tcp_checked T p then ([], Inr t)
         else if \<not> tcp_verify_checksum T sip dip p then ([], Inr t)
         else
           let src_addr = sock_new sip (tcp_src_port T p);
               dst_addr = sock_new dip (tcp_dst_port T p)
           in run_bind
                (if tcp_syn T p \<and> \<not> tcp_ack T p \<and> (src_addr, dst_addr) \<notin> th_active t then
                   (case sock_listen T dst_addr (sock_create T (64 * 1024) (64 * 1024)) of
                      Inl e \<Rightarrow> ([], Inl e)
                    | Inr socket \<Rightarrow>
                        let socket = sock_set_keep_alive T (28 * 1000) (sock_set_timeout T (60 * 1000) socket);
                            (h, sockets) = set_add T socket (th_sockets t);
                            (connection_id, g) = next_id (th_generator t);
                            data = new_socket_data h (src_addr, dst_addr)
                        in ([EmitEvent (ConnectionEstablished connection_id src_addr dst_addr tunnel_info None)],
                            Inr (t\<lparr>th_sockets := sockets, th_generator := g,
                                   th_socket_data := hm_insert connection_id data (th_socket_data t),
                                   th_active := insert (src_addr, dst_addr) (th_active t)\<rparr>)))
                 else ([], Inr t))
                (\<lambda>t'. ([], Inr (t'\<lparr>th_device := vd_receive_packet packet (th_device t')\<rparr>))))"

subsection \<open>Commands\<close>

definition tcp_read_data :: "connection_id \<Rightarrow> u32 \<Rightarrow> oneshot \<Rightarrow> ('ss, 'f) tcp_handler \<Rightarrow> ('ss, 'f) tcp_handler run" where
  "tcp_read_data cid n tx t =
     (case map_of (th_socket_data t) cid of
        Some data \<Rightarrow>
          if sd_recv_waiter data \<noteq> None then ([], Inl (Panicked ''assertion failed: data.recv_waiter.is_none()''))
          else ([], Inr (t\<lparr>th_socket_data := hm_insert cid (data\<lparr>sd_recv_waiter := Some (n, tx)\<rparr>) (th_socket_data t)\<rparr>))
      | None \<Rightarrow> ([DropData tx], Inr t))"

definition tcp_write_data :: "connection_id \<Rightarrow> bytes \<Rightarrow> ('ss, 'f) tcp_handler \<Rightarrow> ('ss, 'f) tcp_handler run" where
  "tcp_write_data cid buf t =
     (case map_of (th_socket_data t) cid of
        Some data \<Rightarrow>
          ([], Inr (t\<lparr>th_socket_data := hm_insert cid (data\<lparr>sd_send_buffer := sd_send_buffer data @ buf\<rparr>) (th_socket_data t)\<rparr>))
      | None \<Rightarrow> ([], Inr t))"

definition tcp_drain_writer :: "connection_id \<Rightarrow> oneshot \<Rightarrow> ('ss, 'f) tcp_handler \<Rightarrow> ('ss, 'f) tcp_handler run" where
  "tcp_drain_writer cid tx t =
     (case map_of (th_socket_data t) cid of
        Some data \<Rightarrow>
          ([], Inr (t\<lparr>th_socket_data := hm_insert cid (data\<lparr>sd_drain_waiter := sd_drain_waiter data @ [tx]\<rparr>) (th_socket_data t)\<rparr>))
      | None \<Rightarrow> ([DropUnit tx], Inr t))"

definition tcp_close_connection :: "connection_id \<Rightarrow> bool \<Rightarrow> ('ss, 'f) tcp_handler \<Rightarrow> ('ss, 'f) tcp_handler run" where
  "tcp_close_connection cid half_close t =
     (case map_of (th_socket_data t) cid of
        Some data \<Rightarrow>
          ([], Inr (t\<lparr>th_socket_data := hm_insert cid (data\<lparr>sd_write_eof := True\<rparr>) (th_socket_data t)\<rparr>))
      | None \<Rightarrow> ([], Inr t))"

fun tcp_handle_command :: "transport_command \<Rightarrow> ('ss, 'f) tcp_handler \<Rightarrow> ('ss, 'f) tcp_handler run" where
  "tcp_handle_command (ReadData cid n tx) t = tcp_read_data cid n tx t"
| "tcp_handle_command (WriteData cid buf) t = tcp_write_data cid buf t"
| "tcp_handle_command (DrainWriter cid tx) t = tcp_drain_writer cid tx t"
| "tcp_handle_command (CloseConnection cid half_close) t = tcp_close_connection cid half_close t"

subsection \<open>Polling\<close>

text \<open>The five blocks of the loop body of \<^verbatim>\<open>process_tcp\<close>, each on one connection and its socket.\<close>

definition recv_step :: "('s, 'ss, 'f) tcp_stack \<Rightarrow> socket_data \<times> 's \<Rightarrow> (socket_data \<times> 's) run" where
  "recv_step T = (\<lambda>(data, socket).
     case sd_recv_waiter data of
       None \<Rightarrow> ([], Inr (data, socket))
     | Some (n, tx) \<Rightarrow>
         if can_recv T socket then
           (case recv_slice T (min (recv_queue T socket) (unat n)) socket of
              Inl e \<Rightarrow> ([DropData tx], Inl e)
            | Inr (buf, socket') \<Rightarrow> ([SendData tx buf], Inr (data\<lparr>sd_recv_waiter := None\<rparr>, socket')))
         else if sock_state T socket \<in> {CloseWait, LastAck, Closed, Closing, TimeWait} then
           ([SendData tx []], Inr (data\<lparr>sd_recv_waiter := None\<rparr>, socket))
         else ([], Inr (data, socket)))"

definition send_step :: "('s, 'ss, 'f) tcp_stack \<Rightarrow> socket_data \<times> 's \<Rightarrow> (socket_data \<times> 's) run" where
  "send_step T = (\<lambda>(data, socket).
     if sd_send_buffer data \<noteq> [] \<and> can_send T socket then
       (let (a, b) = as_slices T (sd_send_buffer data) in
        case send_slice T a socket of
          Inl e \<Rightarrow> ([], Inl e)
        | Inr (sent_a, socket) \<Rightarrow>
            (case send_slice T b socket of
               Inl e \<Rightarrow> ([], Inl e)
             | Inr (sent_b, socket) \<Rightarrow>
                 let sent = sent_a + sent_b in
                 if sent \<le> length (sd_send_buffer data) then
                   ([], Inr (data\<lparr>sd_send_buffer := drop sent (sd_send_buffer data)\<rparr>, socket))
                 else ([], Inl (Panicked ''range end index out of range''))))
     else ([], Inr (data, socket)))"

definition drain_step :: "('s, 'ss, 'f) tcp_stack \<Rightarrow> socket_data \<times> 's \<Rightarrow> (socket_data \<times> 's) run" where
  "drain_step T = (\<lambda>(data, socket).
     if (sd_drain_waiter data \<noteq> [] \<or> sd_write_eof data) \<and> send_queue T socket < send_capacity T socket then
       (map SendUnit (sd_drain_waiter data), Inr (data\<lparr>sd_drain_waiter := []\<rparr>, socket))
     else ([], Inr (data, socket)))"

definition eof_step :: "('s, 'ss, 'f) tcp_stack \<Rightarrow> socket_data \<times> 's \<Rightarrow> (socket_data \<times> 's) run" where
  "eof_step T = (\<lambda>(data, socket).
     if sd_write_eof data \<and> sd_send_buffer data = [] then
       ([], Inr (data\<lparr>sd_write_eof := False\<rparr>, sock_close T socket))
     else ([], Inr (data, socket)))"

definition socket_step :: "('s, 'ss, 'f) tcp_stack \<Rightarrow> socket_data \<times> 's \<Rightarrow> (socket_data \<times> 's) run" where
  "socket_step T x =
     run_bind (recv_step T x) (\<lambda>x. run_bind (send_step T x) (\<lambda>x. run_bind (drain_step T x) (eof_step T)))"

text \<open>The first loop: the sockets, the processed connections and the ids to be removed.\<close>

fun process_sockets ::
  "('s, 'ss, 'f) tcp_stack \<Rightarrow> (connection_id \<times> socket_data) list \<Rightarrow> 'ss \<Rightarrow>
   ('ss \<times> (connection_id \<times> socket_data) list \<times> connection_id list) run" where
  "process_sockets T [] sockets = ([], Inr (sockets, [], []))"
| "process_sockets T ((cid, data) # rest) sockets =
     (case set_get T sockets (sd_handle data) of
        None \<Rightarrow> ([], Inl (Panicked ''handle does not refer to a valid socket''))
      | Some socket \<Rightarrow>
          run_bind (socket_step T (data, socket)) (\<lambda>(data', socket').
            run_bind (process_sockets T rest (set_put T (sd_handle data) socket' sockets)) (\<lambda>(sockets', rest', remove).
              ([], Inr (sockets', (cid, data') # rest',
                        (if sock_state T socket' = Closed then [cid] else []) @ remove)))))"

text \<open>The second loop; removing a connection drops its waiters.\<close>

definition drop_waiters :: "socket_data \<Rightarrow> effect list" where
  "drop_waiters data =
     (case sd_recv_waiter data of None \<Rightarrow> [] | Some (n, tx) \<Rightarrow> [DropData tx]) @ map DropUnit (sd_drain_waiter data)"

fun remove_connections ::
  "('s, 'ss, 'f) tcp_stack \<Rightarrow> connection_id list \<Rightarrow> ('ss, 'f) tcp_handler \<Rightarrow> ('ss, 'f) tcp_handler run" where
  "remove_connections T [] t = ([], Inr t)"
| "remove_connections T (cid # cids) t =
     (case map_of (th_socket_data t) cid of
        None \<Rightarrow> ([], Inl (Panicked ''called Option::unwrap() on a None value''))
      | Some data \<Rightarrow>
          run_bind (drop_waiters data, Inr
              (t\<lparr>th_socket_data := hm_remove cid (th_socket_data t),
                 th_sockets := set_remove T (sd_handle data) (th_sockets t),
                 th_active := th_active t - {sd_addr_tuple data}\<rparr>))
            (remove_connections T cids))"

definition process_tcp :: "('s, 'ss, 'f) tcp_stack \<Rightarrow> ('ss, 'f) tcp_handler \<Rightarrow> ('ss, 'f) tcp_handler run" where
  "process_tcp T t =
     run_bind (process_sockets T (th_socket_data t) (th_sockets t)) (\<lambda>(sockets, datas, remove).
       remove_connections T (th_remove_conns t @ remove)
         (t\<lparr>th_sockets := sockets, th_socket_data := datas, th_remove_conns := []\<rparr>))"

definition poll_iface :: "('s, 'ss, 'f) tcp_stack \<Rightarrow> nat \<Rightarrow> ('ss, 'f) tcp_handler \<Rightarrow> ('ss, 'f) tcp_handler run" where
  "poll_iface T now t =
     (let ((f, d, s), es) = iface_poll T now (th_iface t, th_device t, th_sockets t)
      in (es, Inr (t\<lparr>th_iface := f, th_device := d, th_sockets := s\<rparr>)))"

definition tcp_poll :: "('s, 'ss, 'f) tcp_stack \<Rightarrow> nat \<Rightarrow> ('ss, 'f) tcp_handler \<Rightarrow> ('ss, 'f) tcp_handler run" where
  "tcp_poll T now t =
     run_bind (poll_iface T now t) (\<lambda>t. run_bind (process_tcp T t) (poll_iface T now))"

definition tcp_poll_delay :: "('s, 'ss, 'f) tcp_stack \<Rightarrow> nat \<Rightarrow> ('ss, 'f) tcp_handler \<Rightarrow> nat option" where
  "tcp_poll_delay T now t = iface_poll_delay T now (th_iface t) (th_sockets t)"

subsection \<open>Views of a connection and of its effects\<close>

definition recv_pending :: "socket_data \<Rightarrow> oneshot list" where
  "recv_pending data = (case sd_recv_waiter data of None \<Rightarrow> [] | Some (n, x) \<Rightarrow> [x])"

definition notified :: "effect list \<Rightarrow> oneshot list" where
  "notified es = List.map_filter (\<lambda>e. case e of SendUnit x \<Rightarrow> Some x | _ \<Rightarrow> None) es"

lemma notified_simps [simp]:
  "notified [] = []"
  "notified (e # es) = (case e of SendUnit x \<Rightarrow> x # notified es | _ \<Rightarrow> notified es)"
  "notified (es @ fs) = notified es @ notified fs"
  by (auto simp: notified_def List.map_filter_def split: effect.splits)

lemma units_simps [simp]:
  "notified (map SendUnit xs) = xs" "resolved (map SendUnit xs) = []"
  "delivered (map SendUnit xs) = []" "events_of (map SendUnit xs) = []"
  by (induction xs) simp_all

text \<open>The fields that identify a connection: its id, its socket and its addresses.\<close>

fun conn_key :: "connection_id \<times> socket_data \<Rightarrow> connection_id \<times> handle \<times> four_tuple" where
  "conn_key (cid, data) = (cid, sd_handle data, sd_addr_tuple data)"

lemma conn_key_eq: "conn_key x = (fst x, sd_handle (snd x), sd_addr_tuple (snd x))"
  by (cases x) simp

lemma hm_insert_keys:
  "map_of m cid = Some d0 \<Longrightarrow> conn_key (cid, d) = conn_key (cid, d0) \<Longrightarrow>
   map conn_key (hm_insert cid d m) = map conn_key m"
  by (induction m) (auto split: if_splits)

lemma hm_insert_fresh: "cid \<notin> fst ` set m \<Longrightarrow> hm_insert cid d m = m @ [(cid, d)]"
  by (induction m) (auto split: if_splits)

lemma hm_remove_keys: "map conn_key (hm_remove cid m) = filter (\<lambda>k. fst k \<noteq> cid) (map conn_key m)"
  by (induction m) (auto simp: hm_remove_def)

lemma map_of_conn_key: "map_of m cid = Some d \<Longrightarrow> conn_key (cid, d) \<in> set (map conn_key m)"
  by (metis image_eqI list.set_map map_of_SomeD)

lemma fst_conn_key: "map fst (map conn_key m) = map fst m"
  by (induction m) auto

text \<open>
  The invariant of the handler, on the keys of its connections: ids are handed out in sequence, ids,
  sockets and addresses are pairwise distinct, \<open>active_connections\<close> is exactly the set of their
  addresses, and every connection's socket exists.
\<close>

definition tcp_ok ::
  "connection_id list \<Rightarrow> connection_id_generator \<Rightarrow> (connection_id \<times> handle \<times> four_tuple) list \<Rightarrow>
   four_tuple set \<Rightarrow> handle set \<Rightarrow> bool" where
  "tcp_ok ids g keys active handles \<longleftrightarrow>
     g = gen_after gen_tcp (length ids) \<and> issued gen_tcp ids \<and>
     distinct (map fst keys) \<and> distinct (map (\<lambda>k. fst (snd k)) keys) \<and> distinct (map (\<lambda>k. snd (snd k)) keys) \<and>
     active = (\<lambda>k. snd (snd k)) ` set keys \<and> (\<lambda>k. fst (snd k)) ` set keys \<subseteq> handles \<and> fst ` set keys \<subseteq> set ids"

lemma tcp_ok_empty: "tcp_ok [] gen_tcp [] {} {}"
  by (simp add: tcp_ok_def)

lemma tcp_ok_fresh:
  assumes ok: "tcp_ok ids g keys active handles" and "length ids < 2 ^ 63"
    and "h \<notin> handles" and "a \<notin> active" and cid: "next_id g = (cid, g')"
  shows "tcp_ok (ids @ [cid]) g' (keys @ [(cid, h, a)]) (insert a active) (insert h handles)"
    and "cid \<notin> fst ` set keys"
proof -
  have g: "g = gen_after gen_tcp (length ids)" and iss: "issued gen_tcp ids" using ok by (auto simp: tcp_ok_def)
  from cid g have cid': "cid = ConnectionId (gen_next (gen_after gen_tcp (length ids)))" "g' = gen_after gen_tcp (Suc (length ids))"
    using next_id_gen_after [of gen_tcp "length ids"] by auto
  have new: "cid \<notin> set ids" using issued_fresh [OF iss assms(2)] cid' by simp
  then show "cid \<notin> fst ` set keys" using ok by (auto simp: tcp_ok_def)
  then show "tcp_ok (ids @ [cid]) g' (keys @ [(cid, h, a)]) (insert a active) (insert h handles)"
    using ok assms(3,4) issued_snoc [OF iss] cid' unfolding tcp_ok_def by auto
qed

lemma tcp_ok_remove:
  assumes "tcp_ok ids g keys active handles" and "(cid, h, a) \<in> set keys"
  shows "tcp_ok ids g (filter (\<lambda>k. fst k \<noteq> cid) keys) (active - {a}) (handles - {h})"
proof -
  have d: "distinct (map fst keys)" "distinct (map (\<lambda>k. fst (snd k)) keys)" "distinct (map (\<lambda>k. snd (snd k)) keys)"
    using assms(1) by (auto simp: tcp_ok_def)
  have other: "fst k \<noteq> cid \<and> fst (snd k) \<noteq> h \<and> snd (snd k) \<noteq> a" if "k \<in> set keys" "k \<noteq> (cid, h, a)" for k
    using that assms(2) d by (fastforce simp: distinct_map inj_on_def)
  have set: "set (filter (\<lambda>k. fst k \<noteq> cid) keys) = set keys - {(cid, h, a)}"
    using other assms(2) by fastforce
  have act: "(\<lambda>k. snd (snd k)) ` (set keys - {(cid, h, a)}) = (\<lambda>k. snd (snd k)) ` set keys - {a}"
    using other by fastforce
  have hdl: "(\<lambda>k. fst (snd k)) ` (set keys - {(cid, h, a)}) \<subseteq> handles - {h}"
    using other assms(1) by (fastforce simp: tcp_ok_def)
  show ?thesis
    using assms(1) d hdl act unfolding tcp_ok_def set by (auto simp: distinct_map_filter)
qed

lemma tcp_ok_mono: "tcp_ok ids g keys active handles \<Longrightarrow> handles \<subseteq> handles' \<Longrightarrow> tcp_ok ids g keys active handles'"
  by (auto simp: tcp_ok_def)

definition tcp_inv :: "('s, 'ss, 'f) tcp_stack \<Rightarrow> connection_id list \<Rightarrow> ('ss, 'f) tcp_handler \<Rightarrow> bool" where
  "tcp_inv T ids t \<longleftrightarrow>
     tcp_ok ids (th_generator t) (map conn_key (th_socket_data t)) (th_active t) (dom (set_get T (th_sockets t))) \<and>
     th_remove_conns t = []"

text \<open>
  The states the handler goes through, with the ids announced so far.  Between calls the packet
  source may free slots of its channel.
\<close>

inductive tcp_reach ::
  "smol_wire \<Rightarrow> ('s, 'ss, 'f) tcp_stack \<Rightarrow> connection_id list \<Rightarrow> ('ss, 'f) tcp_handler \<Rightarrow> bool" for w T where
  tcp_init: "tcp_reach w T [] (tcp_new T room)"
| tcp_recv: "tcp_reach w T ids t \<Longrightarrow> tcp_receive_packet w T p ti t = (es, Inr t') \<Longrightarrow> tcp_reach w T (ids @ event_cids es) t'"
| tcp_cmd: "tcp_reach w T ids t \<Longrightarrow> tcp_handle_command cmd t = (es, Inr t') \<Longrightarrow> tcp_reach w T ids t'"
| tcp_polled: "tcp_reach w T ids t \<Longrightarrow> tcp_poll T now t = (es, Inr t') \<Longrightarrow> tcp_reach w T ids t'"
| tcp_room: "tcp_reach w T ids t \<Longrightarrow> tcp_reach w T ids (t\<lparr>th_device := th_device t\<lparr>vd_room := room\<rparr>\<rparr>)"

lemma command_keys:
  assumes "tcp_handle_command cmd t = (es, Inr t')"
  shows "map conn_key (th_socket_data t') = map conn_key (th_socket_data t) \<and> th_generator t' = th_generator t \<and>
     th_sockets t' = th_sockets t \<and> th_active t' = th_active t \<and> th_remove_conns t' = th_remove_conns t"
  using assms
  by (cases cmd) (auto simp: tcp_read_data_def tcp_write_data_def tcp_drain_writer_def tcp_close_connection_def
      split: option.splits if_splits intro!: hm_insert_keys)

text \<open>Processing the connections sends nothing to the packet source and leaves the device alone.\<close>

lemma commands_of_units [simp]: "commands_of (map SendUnit xs) = []" "commands_of (map DropUnit xs) = []"
  by (induction xs) simp_all

lemma commands_of_run_bind:
  "commands_of (fst m) = [] \<Longrightarrow> (\<And>a. snd m = Inr a \<Longrightarrow> commands_of (fst (f a)) = []) \<Longrightarrow> commands_of (fst (run_bind m f)) = []"
  by (cases m; cases "snd m") simp_all

lemma socket_step_commands: "commands_of (fst (socket_step T x)) = []"
  unfolding socket_step_def
  by (intro commands_of_run_bind)
    (auto simp: recv_step_def send_step_def drain_step_def eof_step_def Let_def split: prod.splits option.splits sum.splits)

lemma process_sockets_commands: "commands_of (fst (process_sockets T m ss)) = []"
proof (induction m arbitrary: ss)
  case (Cons x m)
  obtain cid data where x: "x = (cid, data)" by (cases x)
  show ?case
  proof (cases "set_get T ss (sd_handle data)")
    case (Some s)
    show ?thesis unfolding x process_sockets.simps Some option.case
      by (intro commands_of_run_bind) (auto simp: socket_step_commands Cons.IH split: prod.splits intro!: commands_of_run_bind)
  qed (simp add: x)
qed simp

lemma drop_waiters_commands: "commands_of (drop_waiters d) = []"
  by (auto simp: drop_waiters_def split: option.splits)

lemma remove_connections_commands: "commands_of (fst (remove_connections T cids t)) = []"
proof (induction cids arbitrary: t)
  case (Cons cid cids)
  then show ?case by (cases "map_of (th_socket_data t) cid") (simp_all add: drop_waiters_commands)
qed simp

lemma remove_connections_device: "remove_connections T cids t = (es, Inr t') \<Longrightarrow> th_device t' = th_device t"
proof (induction cids arbitrary: t es)
  case (Cons cid cids)
  show ?case
  proof (cases "map_of (th_socket_data t) cid")
    case (Some data)
    let ?t = "t\<lparr>th_socket_data := hm_remove cid (th_socket_data t),
      th_sockets := set_remove T (sd_handle data) (th_sockets t), th_active := th_active t - {sd_addr_tuple data}\<rparr>"
    from Cons.prems Some obtain es' where "remove_connections T cids ?t = (es', Inr t')"
      by (auto simp: run_bind_eq_Inr simp del: run_bind_simps)
    from Cons.IH [OF this] show ?thesis by simp
  qed (use Cons.prems in simp)
qed simp

lemma process_tcp_device:
  assumes "process_tcp T t = (es, Inr t')"
  shows "th_device t' = th_device t \<and> commands_of es = []"
proof -
  have "commands_of (fst (process_tcp T t)) = []"
    unfolding process_tcp_def
    by (intro commands_of_run_bind) (auto simp: process_sockets_commands remove_connections_commands split: prod.splits)
  moreover have "th_device t' = th_device t"
    using assms by (auto simp: process_tcp_def run_bind_eq_Inr dest!: remove_connections_device)
  ultimately show ?thesis using assms by simp
qed

subsection \<open>What is relied on\<close>

text \<open>
  \<open>rx\<close> and \<open>tx\<close> are a socket's receive and send queues.  The laws are smoltcp's documented
  behaviour: what \<open>recv_slice\<close> and \<open>send_slice\<close> take and accept, that they succeed on sockets that
  can receive or may send, handles of the socket set, and that polling the interface only uses the
  device's operations and neither adds nor removes sockets.
\<close>

locale tcp_laws =
  fixes w :: smol_wire
    and T :: "('s, 'ss, 'f) tcp_stack"
    and rx :: "'s \<Rightarrow> bytes"
    and tx :: "'s \<Rightarrow> bytes"
    and may_send :: "'s \<Rightarrow> bool"
  assumes recv: "can_recv T s \<Longrightarrow> \<exists>s'. recv_slice T n s = Inr (take n (rx s), s') \<and> rx s' = drop n (rx s) \<and> tx s' = tx s"
    and recv_queue: "recv_queue T s = length (rx s)"
    and send: "may_send s \<Longrightarrow> k = min (length d) (send_capacity T s - length (tx s)) \<Longrightarrow>
        \<exists>s'. send_slice T d s = Inr (k, s') \<and> tx s' = tx s @ take k d \<and> rx s' = rx s \<and> may_send s' \<and>
          send_capacity T s' = send_capacity T s"
    and can_send: "can_send T s \<Longrightarrow> may_send s"
    and close_queues: "rx (sock_close T s) = rx s \<and> tx (sock_close T s) = tx s"
    and slices: "as_slices T d = (a, b) \<Longrightarrow> a @ b = d"
    and set_new: "set_get T (set_new T) = Map.empty"
    and set_add: "set_add T s ss = (h, ss') \<Longrightarrow> set_get T ss h = None \<and> set_get T ss' = (set_get T ss)(h \<mapsto> s)"
    and set_put: "set_get T ss h = Some s0 \<Longrightarrow> set_get T (set_put T h s ss) = (set_get T ss)(h \<mapsto> s)"
    and set_remove: "set_get T (set_remove T h ss) = (set_get T ss)(h := None)"
    and poll: "iface_poll T now (f, dev, ss) = ((f', dev', ss'), es) \<Longrightarrow>
        dev_steps w dev es dev' \<and> dom (set_get T ss') = dom (set_get T ss)"
begin

lemma recv_step_ok:
  "\<exists>es data' s'. recv_step T (data, s) = (es, Inr (data', s')) \<and> concat (delivered es) @ rx s' = rx s \<and> tx s' = tx s \<and>
     data' = data\<lparr>sd_recv_waiter := sd_recv_waiter data'\<rparr> \<and>
     resolved es @ recv_pending data' = recv_pending data \<and> events_of es = [] \<and> notified es = []"
proof (cases "sd_recv_waiter data")
  case (Some w)
  obtain n x where w: "w = (n, x)" by (cases w)
  show ?thesis
  proof (cases "can_recv T s")
    case True
    then obtain s' where "recv_slice T (min (recv_queue T s) (unat n)) s = Inr (take (min (recv_queue T s) (unat n)) (rx s), s')"
      "rx s' = drop (min (recv_queue T s) (unat n)) (rx s)" "tx s' = tx s"
      using recv by blast
    then show ?thesis using Some w True by (auto simp: recv_step_def recv_pending_def recv_queue)
  qed (use Some w in \<open>auto simp: recv_step_def recv_pending_def\<close>)
qed (auto simp: recv_step_def recv_pending_def)

lemma send_slices:
  assumes "may_send s"
  shows "\<exists>k1 s1 k2 s2. send_slice T a s = Inr (k1, s1) \<and> send_slice T b s1 = Inr (k2, s2) \<and>
     k1 + k2 \<le> length (a @ b) \<and> tx s2 @ drop (k1 + k2) (a @ b) = tx s @ a @ b \<and> rx s2 = rx s"
proof -
  obtain k1 s1 where 1: "k1 = min (length a) (send_capacity T s - length (tx s))"
    "send_slice T a s = Inr (k1, s1)" "tx s1 = tx s @ take k1 a" "rx s1 = rx s" "may_send s1"
    "send_capacity T s1 = send_capacity T s"
    using send [OF assms refl] by metis
  obtain k2 s2 where 2: "k2 = min (length b) (send_capacity T s1 - length (tx s1))"
    "send_slice T b s1 = Inr (k2, s2)" "tx s2 = tx s1 @ take k2 b" "rx s2 = rx s1"
    using send [OF 1(5) refl] by metis
  consider "k1 = length a" | "k1 < length a" "k2 = 0" using 1(1,3,6) 2(1) by (cases "k1 = length a") auto
  then have "tx s2 @ drop (k1 + k2) (a @ b) = tx s @ a @ b"
  proof cases
    case 1
    then show ?thesis using 1 \<open>tx s1 = tx s @ take k1 a\<close> 2(3) by simp
  next
    case 2
    then show ?thesis using \<open>tx s1 = tx s @ take k1 a\<close> \<open>tx s2 = tx s1 @ take k2 b\<close> by simp
  qed
  moreover have "k1 + k2 \<le> length (a @ b)" using 1(1) 2(1) by (simp add: min_def)
  ultimately show ?thesis using 1(2,4) 2(2,4) by metis
qed

lemma send_step_ok:
  "\<exists>data' s'. send_step T (data, s) = ([], Inr (data', s')) \<and> tx s' @ sd_send_buffer data' = tx s @ sd_send_buffer data \<and>
     rx s' = rx s \<and> data' = data\<lparr>sd_send_buffer := sd_send_buffer data'\<rparr>"
proof (cases "sd_send_buffer data \<noteq> [] \<and> can_send T s")
  case True
  obtain a b where ab: "as_slices T (sd_send_buffer data) = (a, b)" by (metis surj_pair)
  from slices [OF ab] have "sd_send_buffer data = a @ b" by simp
  moreover have "may_send s" using True can_send by blast
  ultimately show ?thesis using True ab send_slices [of s a b] by (auto simp: send_step_def Let_def)
qed (auto simp: send_step_def)

lemma drain_step_ok:
  "\<exists>es data'. drain_step T (data, s) = (es, Inr (data', s)) \<and> es = map SendUnit (notified es) \<and>
     notified es @ sd_drain_waiter data' = sd_drain_waiter data \<and> data' = data\<lparr>sd_drain_waiter := sd_drain_waiter data'\<rparr>"
  by (auto simp: drain_step_def)

lemma eof_step_ok:
  "\<exists>data' s'. eof_step T (data, s) = ([], Inr (data', s')) \<and> rx s' = rx s \<and> tx s' = tx s \<and>
     data' = data\<lparr>sd_write_eof := sd_write_eof data'\<rparr>"
  by (auto simp: eof_step_def close_queues)

text \<open>One pass over one connection: it succeeds, and nothing is lost on any of its four queues.\<close>

lemma socket_step_ok:
  "\<exists>es data' s'. socket_step T (data, s) = (es, Inr (data', s')) \<and>
     concat (delivered es) @ rx s' = rx s \<and>
     tx s' @ sd_send_buffer data' = tx s @ sd_send_buffer data \<and>
     resolved es @ recv_pending data' = recv_pending data \<and>
     notified es @ sd_drain_waiter data' = sd_drain_waiter data \<and>
     conn_key (cid, data') = conn_key (cid, data) \<and> events_of es = []"
proof -
  obtain es1 d1 s1 where 1: "recv_step T (data, s) = (es1, Inr (d1, s1))" "concat (delivered es1) @ rx s1 = rx s" "tx s1 = tx s"
    "d1 = data\<lparr>sd_recv_waiter := sd_recv_waiter d1\<rparr>" "resolved es1 @ recv_pending d1 = recv_pending data"
    "events_of es1 = []" "notified es1 = []"
    using recv_step_ok by blast
  obtain d2 s2 where 2: "send_step T (d1, s1) = ([], Inr (d2, s2))" "tx s2 @ sd_send_buffer d2 = tx s1 @ sd_send_buffer d1"
    "rx s2 = rx s1" "d2 = d1\<lparr>sd_send_buffer := sd_send_buffer d2\<rparr>"
    using send_step_ok by blast
  obtain es3 d3 where 3: "drain_step T (d2, s2) = (es3, Inr (d3, s2))" "es3 = map SendUnit (notified es3)"
    "notified es3 @ sd_drain_waiter d3 = sd_drain_waiter d2" "d3 = d2\<lparr>sd_drain_waiter := sd_drain_waiter d3\<rparr>"
    using drain_step_ok by blast
  obtain d4 s4 where 4: "eof_step T (d3, s2) = ([], Inr (d4, s4))" "rx s4 = rx s2" "tx s4 = tx s2"
    "d4 = d3\<lparr>sd_write_eof := sd_write_eof d4\<rparr>"
    using eof_step_ok by blast
  have run: "socket_step T (data, s) = (es1 @ es3, Inr (d4, s4))"
    by (simp add: socket_step_def 1(1) 2(1) 3(1) 4(1))
  have quiet: "resolved es3 = []" "delivered es3 = []" "events_of es3 = []"
    by (subst 3(2), simp)+
  have sel: "sd_send_buffer d1 = sd_send_buffer data" "sd_drain_waiter d1 = sd_drain_waiter data"
    "sd_handle d1 = sd_handle data" "sd_addr_tuple d1 = sd_addr_tuple data"
    by (subst 1(4), simp)+
  have sel2: "sd_recv_waiter d2 = sd_recv_waiter d1" "sd_drain_waiter d2 = sd_drain_waiter d1"
    "sd_handle d2 = sd_handle d1" "sd_addr_tuple d2 = sd_addr_tuple d1"
    by (subst 2(4), simp)+
  have sel3: "sd_recv_waiter d3 = sd_recv_waiter d2" "sd_send_buffer d3 = sd_send_buffer d2"
    "sd_handle d3 = sd_handle d2" "sd_addr_tuple d3 = sd_addr_tuple d2"
    by (subst 3(4), simp)+
  have sel4: "sd_recv_waiter d4 = sd_recv_waiter d3" "sd_send_buffer d4 = sd_send_buffer d3"
    "sd_drain_waiter d4 = sd_drain_waiter d3" "sd_handle d4 = sd_handle d3" "sd_addr_tuple d4 = sd_addr_tuple d3"
    by (subst 4(4), simp)+
  have "recv_pending d4 = recv_pending d1" by (simp add: recv_pending_def sel2 sel3 sel4)
  then show ?thesis
    using run 1 2 3 4 quiet sel sel2 sel3 sel4 by auto
qed

lemma process_sockets_ok:
  "(\<And>x. x \<in> set m \<Longrightarrow> sd_handle (snd x) \<in> dom (set_get T ss)) \<Longrightarrow>
   \<exists>es ss' m' rm. process_sockets T m ss = (es, Inr (ss', m', rm)) \<and> map conn_key m' = map conn_key m \<and>
     dom (set_get T ss') = dom (set_get T ss) \<and> rm \<in> set (subseqs (map fst m)) \<and> events_of es = []"
proof (induction m arbitrary: ss)
  case (Cons x m)
  obtain cid data where x: "x = (cid, data)" by (cases x)
  obtain s where s: "set_get T ss (sd_handle data) = Some s" using Cons.prems [of x] x by auto
  obtain es data' s' where step: "socket_step T (data, s) = (es, Inr (data', s'))"
    "conn_key (cid, data') = conn_key (cid, data)" "events_of es = []"
    using socket_step_ok by blast
  let ?ss = "set_put T (sd_handle data) s' ss"
  have dom: "dom (set_get T ?ss) = dom (set_get T ss)" using set_put [OF s] s by auto
  then have "sd_handle (snd y) \<in> dom (set_get T ?ss)" if "y \<in> set m" for y
    using Cons.prems [of y] that by simp
  from Cons.IH [OF this] obtain es' ss' m' rm where
    IH: "process_sockets T m ?ss = (es', Inr (ss', m', rm))" "map conn_key m' = map conn_key m"
      "dom (set_get T ss') = dom (set_get T ?ss)" "rm \<in> set (subseqs (map fst m))" "events_of es' = []"
    by blast
  then show ?case using x s step dom by (auto simp: Let_def)
qed simp

lemma remove_connections_ok:
  "tcp_inv T ids t \<Longrightarrow> distinct cids \<Longrightarrow> set cids \<subseteq> fst ` set (th_socket_data t) \<Longrightarrow>
   \<exists>es t'. remove_connections T cids t = (es, Inr t') \<and> tcp_inv T ids t' \<and> events_of es = [] \<and>
     map conn_key (th_socket_data t') = filter (\<lambda>k. fst k \<notin> set cids) (map conn_key (th_socket_data t))"
proof (induction cids arbitrary: t)
  case (Cons cid cids)
  obtain data where data: "map_of (th_socket_data t) cid = Some data"
    using Cons.prems(3) by (metis domD dom_map_of_conv_image_fst insert_subset list.simps(15))
  define t1 where "t1 = t\<lparr>th_socket_data := hm_remove cid (th_socket_data t),
     th_sockets := set_remove T (sd_handle data) (th_sockets t), th_active := th_active t - {sd_addr_tuple data}\<rparr>"
  have "(cid, sd_handle data, sd_addr_tuple data) \<in> set (map conn_key (th_socket_data t))"
    using map_of_conn_key [OF data] by simp
  from tcp_ok_remove [OF _ this] have inv1: "tcp_inv T ids t1"
    using Cons.prems(1) by (simp add: tcp_inv_def t1_def hm_remove_keys set_remove dom_fun_upd)
  have "set cids \<subseteq> fst ` set (th_socket_data t1)"
    using Cons.prems(2,3) by (fastforce simp: t1_def hm_remove_def image_iff)
  from Cons.IH [OF inv1 _ this] Cons.prems(2) obtain es' t' where
    IH: "remove_connections T cids t1 = (es', Inr t')" "tcp_inv T ids t'" "events_of es' = []"
      "map conn_key (th_socket_data t') = filter (\<lambda>k. fst k \<notin> set cids) (map conn_key (th_socket_data t1))"
    by auto
  have "events_of (drop_waiters data) = []"
  proof -
    have "events_of (map DropUnit xs) = []" for xs by (induction xs) simp_all
    then show ?thesis by (simp add: drop_waiters_def split: option.splits prod.splits)
  qed
  moreover have "map conn_key (th_socket_data t') = filter (\<lambda>k. fst k \<notin> set (cid # cids)) (map conn_key (th_socket_data t))"
    using IH(4) by (simp add: t1_def hm_remove_keys conj_commute)
  ultimately show ?case using data IH by (simp add: t1_def [symmetric])
qed simp

lemma handles_present:
  "tcp_inv T ids t \<Longrightarrow> x \<in> set (th_socket_data t) \<Longrightarrow> sd_handle (snd x) \<in> dom (set_get T (th_sockets t))"
  by (cases x) (force simp: tcp_inv_def tcp_ok_def)

lemma process_tcp_ok:
  assumes inv: "tcp_inv T ids t"
  shows "\<exists>es t'. process_tcp T t = (es, Inr t') \<and> tcp_inv T ids t' \<and> events_of es = []"
proof -
  obtain es ss' m' rm where 1: "process_sockets T (th_socket_data t) (th_sockets t) = (es, Inr (ss', m', rm))"
    "map conn_key m' = map conn_key (th_socket_data t)" "dom (set_get T ss') = dom (set_get T (th_sockets t))"
    "rm \<in> set (subseqs (map fst (th_socket_data t)))" "events_of es = []"
    using process_sockets_ok [OF handles_present [OF inv]] by blast
  let ?t = "t\<lparr>th_sockets := ss', th_socket_data := m', th_remove_conns := []\<rparr>"
  have inv1: "tcp_inv T ids ?t" using inv 1(2,3) by (simp add: tcp_inv_def)
  have "map fst m' = map fst (th_socket_data t)" using 1(2) by (metis fst_conn_key)
  then have fst_m': "fst ` set m' = set (map fst (th_socket_data t))" by (metis list.set_map)
  have "distinct (map fst (th_socket_data t))" using inv by (simp add: tcp_inv_def tcp_ok_def fst_conn_key [symmetric])
  then have "distinct rm" using 1(4) subseqs_distinctD by blast
  moreover have "set rm \<subseteq> fst ` set (th_socket_data ?t)"
    using 1(4) subseqs_powset [of "map fst (th_socket_data t)"] fst_m' by auto
  ultimately obtain es' t' where "remove_connections T rm ?t = (es', Inr t')" "tcp_inv T ids t'" "events_of es' = []"
    using remove_connections_ok [OF inv1] by blast
  moreover have "th_remove_conns t = []" using inv by (simp add: tcp_inv_def)
  ultimately show ?thesis using 1(1,5) by (simp add: process_tcp_def)
qed

lemma poll_iface_ok:
  assumes "tcp_inv T ids t"
  shows "\<exists>es t'. poll_iface T now t = (es, Inr t') \<and> tcp_inv T ids t' \<and> events_of es = []"
proof -
  obtain f d ss es where p: "iface_poll T now (th_iface t, th_device t, th_sockets t) = ((f, d, ss), es)"
    by (metis surj_pair)
  from poll [OF p] show ?thesis
    using assms p dev_steps_no_events by (auto simp: poll_iface_def tcp_inv_def)
qed

lemma tcp_poll_ok:
  assumes "tcp_inv T ids t"
  shows "\<exists>es t'. tcp_poll T now t = (es, Inr t') \<and> tcp_inv T ids t' \<and> events_of es = []"
proof -
  obtain es1 t1 where 1: "poll_iface T now t = (es1, Inr t1)" "tcp_inv T ids t1" "events_of es1 = []"
    using poll_iface_ok [OF assms] by blast
  obtain es2 t2 where 2: "process_tcp T t1 = (es2, Inr t2)" "tcp_inv T ids t2" "events_of es2 = []"
    using process_tcp_ok [OF 1(2)] by blast
  obtain es3 t3 where 3: "poll_iface T now t2 = (es3, Inr t3)" "tcp_inv T ids t3" "events_of es3 = []"
    using poll_iface_ok [OF 2(2)] by blast
  show ?thesis using 1 2 3 by (simp add: tcp_poll_def)
qed

lemma poll_iface_room:
  assumes "poll_iface T now t = (es, Inr t')"
  shows "vd_room (th_device t') + length (commands_of es) = vd_room (th_device t)"
proof -
  obtain f d ss es' where p: "iface_poll T now (th_iface t, th_device t, th_sockets t) = ((f, d, ss), es')"
    by (metis surj_pair)
  from poll [OF p] have flow: "dev_steps w (th_device t) es' d" by simp
  have "\<forall>e\<in>set es'. \<exists>b p. smol_try_from w b = Inr p \<and> e = EmitCommand (SendPacket p)"
    using dev_steps_flow [OF flow] by blast
  then have "length (commands_of es') = length es'" by (induction es') auto
  then show ?thesis using assms p dev_steps_flow [OF flow] by (auto simp: poll_iface_def)
qed

lemma tcp_poll_room:
  assumes "tcp_poll T now t = (es, Inr t')"
  shows "vd_room (th_device t') + length (commands_of es) = vd_room (th_device t)"
proof -
  obtain es1 t1 es2 t2 es3 where s: "poll_iface T now t = (es1, Inr t1)" "process_tcp T t1 = (es2, Inr t2)"
    "poll_iface T now t2 = (es3, Inr t')" "es = es1 @ es2 @ es3"
    using assms by (auto simp: tcp_poll_def run_bind_eq_Inr)
  show ?thesis
    using poll_iface_room [OF s(1)] process_tcp_device [OF s(2)] poll_iface_room [OF s(3)] s(4) by simp
qed

lemma tcp_receive_cases:
  assumes inv: "tcp_inv T ids t" and n: "length ids < 2 ^ 63" and r: "tcp_receive_packet w T p ti t = (es, Inr t')"
  obtains (ignored) "es = []" "t' = t"
    | (forwarded) "es = []" "t' = t\<lparr>th_device := vd_receive_packet p (th_device t)\<rparr>"
    | (connected) cid h a where "es = [EmitEvent (ConnectionEstablished cid (fst a) (snd a) ti None)]"
        "a = (sock_new (src_ip w p) (tcp_src_port T (payload w p)), sock_new (dst_ip w p) (tcp_dst_port T (payload w p)))"
        "a \<notin> th_active t" "cid \<notin> set ids" "th_socket_data t' = th_socket_data t @ [(cid, new_socket_data h a)]"
        "th_active t' = insert a (th_active t)" "th_device t' = vd_receive_packet p (th_device t)"
        "tcp_inv T (ids @ [cid]) t'"
proof -
  let ?p = "payload w p"
  let ?a = "(sock_new (src_ip w p) (tcp_src_port T ?p), sock_new (dst_ip w p) (tcp_dst_port T ?p))"
  consider "\<not> tcp_checked T ?p \<or> \<not> tcp_verify_checksum T (src_ip w p) (dst_ip w p) ?p"
    | "tcp_checked T ?p" "tcp_verify_checksum T (src_ip w p) (dst_ip w p) ?p"
      "\<not> (tcp_syn T ?p \<and> \<not> tcp_ack T ?p \<and> ?a \<notin> th_active t)"
    | s where "tcp_checked T ?p" "tcp_verify_checksum T (src_ip w p) (dst_ip w p) ?p"
      "tcp_syn T ?p" "\<not> tcp_ack T ?p" "?a \<notin> th_active t" "sock_listen T (snd ?a) (sock_create T (64 * 1024) (64 * 1024)) = Inr s"
    | e where "tcp_checked T ?p" "tcp_verify_checksum T (src_ip w p) (dst_ip w p) ?p"
      "tcp_syn T ?p" "\<not> tcp_ack T ?p" "?a \<notin> th_active t" "sock_listen T (snd ?a) (sock_create T (64 * 1024) (64 * 1024)) = Inl e"
    by (cases "sock_listen T (snd ?a) (sock_create T (64 * 1024) (64 * 1024))") blast+
  then show thesis
  proof cases
    case 1
    then show thesis using r ignored by (auto simp: tcp_receive_packet_def Let_def split: if_splits)
  next
    case 2
    then show thesis using r forwarded by (auto simp: tcp_receive_packet_def Let_def)
  next
    case (3 s)
    obtain h ss where add: "set_add T (sock_set_keep_alive T (28 * 1000) (sock_set_timeout T (60 * 1000) s)) (th_sockets t) = (h, ss)"
      by (metis surj_pair)
    obtain cid g' where cid: "next_id (th_generator t) = (cid, g')" by (metis surj_pair)
    from set_add [OF add] have h: "h \<notin> dom (set_get T (th_sockets t))"
      and dom: "dom (set_get T ss) = insert h (dom (set_get T (th_sockets t)))" by auto
    have ok: "tcp_ok ids (th_generator t) (map conn_key (th_socket_data t)) (th_active t) (dom (set_get T (th_sockets t)))"
      and rm: "th_remove_conns t = []"
      using inv by (auto simp: tcp_inv_def)
    note fresh = tcp_ok_fresh [OF ok n h 3(5) cid]
    have "cid \<notin> fst ` set (th_socket_data t)"
      using fresh(2) by (metis fst_conn_key list.set_map)
    then have ins: "hm_insert cid d (th_socket_data t) = th_socket_data t @ [(cid, d)]" for d
      by (rule hm_insert_fresh)
    have "cid = ConnectionId (gen_next (gen_after gen_tcp (length ids)))"
      using cid ok next_id_gen_after [of gen_tcp "length ids"] by (simp add: tcp_ok_def)
    then have "cid \<notin> set ids" using issued_fresh [OF _ n] ok by (auto simp: tcp_ok_def)
    moreover have "t' = t\<lparr>th_sockets := ss, th_generator := g', th_socket_data := th_socket_data t @ [(cid, new_socket_data h ?a)],
        th_active := insert ?a (th_active t), th_device := vd_receive_packet p (th_device t)\<rparr>"
      and "es = [EmitEvent (ConnectionEstablished cid (fst ?a) (snd ?a) ti None)]"
      using r 3 add cid by (auto simp: tcp_receive_packet_def Let_def ins)
    ultimately show thesis
      using connected [of cid ?a h] fresh(1) 3(5) rm dom
      by (auto simp: tcp_inv_def new_socket_data_def)
  next
    case (4 e)
    then show thesis using r by (auto simp: tcp_receive_packet_def Let_def)
  qed
qed

lemma reach_inv: "tcp_reach w T ids t \<Longrightarrow> length ids < 2 ^ 63 \<Longrightarrow> tcp_inv T ids t"
proof (induction rule: tcp_reach.induct)
  case (tcp_init room)
  show ?case by (simp add: tcp_inv_def tcp_new_def set_new tcp_ok_empty)
next
  case (tcp_recv ids t p ti es t')
  then have inv: "tcp_inv T ids t" and n: "length ids < 2 ^ 63" by auto
  from inv n tcp_recv.hyps(2) show ?case
  proof (cases rule: tcp_receive_cases)
    case ignored
    then show ?thesis using inv by simp
  next
    case forwarded
    then show ?thesis using inv by (simp add: tcp_inv_def)
  next
    case (connected cid h a)
    then show ?thesis by simp
  qed
next
  case (tcp_cmd ids t cmd es t')
  then show ?case using command_keys [OF tcp_cmd.hyps(2)] by (simp add: tcp_inv_def)
next
  case (tcp_polled ids t now es t')
  then show ?case using tcp_poll_ok [of ids t now] by simp
next
  case (tcp_room ids t room)
  then show ?case by (simp add: tcp_inv_def)
qed

end

subsection \<open>Properties\<close>

text \<open>
  One pass over a TCP connection loses, duplicates and reorders nothing, however the send buffer
  is laid out in memory and however much the socket accepts: the bytes handed to the reader are the
  front of the socket's receive queue; the socket's send queue followed by the handler's send buffer
  stays the same stream; a read request is answered at most once and every drain request at most
  once, in order; and the pass never fails.
\<close>

theorem tcp_stream_integrity:
  assumes "tcp_laws w T rx tx may_send"
  shows "\<exists>es data' s'. socket_step T (data, s) = (es, Inr (data', s')) \<and>
     rx s = concat (delivered es) @ rx s' \<and>
     tx s' @ sd_send_buffer data' = tx s @ sd_send_buffer data \<and>
     recv_pending data = resolved es @ recv_pending data' \<and>
     sd_drain_waiter data = notified es @ sd_drain_waiter data'"
  using tcp_laws.socket_step_ok [OF assms, of data s] by metis

text \<open>
  C15. Polling the TCP handler never fails: in every reachable state \<^verbatim>\<open>poll\<close> returns, no handle
  is dangling, no \<^verbatim>\<open>unwrap\<close> panics, and it raises no event.
\<close>

theorem tcp_poll_total:
  assumes "tcp_laws w T rx tx may_send" and "tcp_reach w T ids t" and "length ids < 2 ^ 63"
  shows "\<exists>es t'. tcp_poll T now t = (es, Inr t') \<and> events_of es = []"
  using tcp_laws.tcp_poll_ok [OF assms(1) tcp_laws.reach_inv [OF assms]] by blast

text \<open>
  C8. In every reachable state there is at most one TCP connection per pair of addresses, and
  \<^verbatim>\<open>active_connections\<close> is exactly the set of the connections' address pairs; the ids announced
  are pairwise distinct and even, and every connection has its own socket in the socket set.
\<close>

theorem tcp_connections_consistent:
  assumes "tcp_laws w T rx tx may_send" and "tcp_reach w T ids t" and "length ids < 2 ^ 63"
  shows "distinct (map (\<lambda>x. sd_addr_tuple (snd x)) (th_socket_data t)) \<and>
     th_active t = (\<lambda>x. sd_addr_tuple (snd x)) ` set (th_socket_data t) \<and>
     distinct ids \<and> (\<forall>i\<in>set ids. is_tcp i) \<and>
     distinct (map (\<lambda>x. sd_handle (snd x)) (th_socket_data t)) \<and>
     (\<forall>x\<in>set (th_socket_data t). set_get T (th_sockets t) (sd_handle (snd x)) \<noteq> None)"
proof -
  from tcp_laws.reach_inv [OF assms] have
    ok: "tcp_ok ids (th_generator t) (map conn_key (th_socket_data t)) (th_active t) (dom (set_get T (th_sockets t)))"
    by (simp add: tcp_inv_def)
  have iss: "issued gen_tcp ids" using ok by (simp add: tcp_ok_def)
  have "is_tcp i" if "i \<in> set ids" for i using issued_is_tcp [OF iss that] by (simp add: gen_tcp_def)
  moreover have "\<forall>x\<in>set (th_socket_data t). set_get T (th_sockets t) (sd_handle (snd x)) \<noteq> None"
    using ok by (force simp: tcp_ok_def conn_key_eq)
  ultimately show ?thesis
    using ok issued_distinct [OF iss assms(3)] unfolding tcp_ok_def by (simp add: conn_key_eq comp_def image_image)
qed

text \<open>
  Receiving a TCP packet raises at most one event.  If it raises one, the packet opened a
  connection: its address pair was not active before and is afterwards, the id is fresh, and the
  new connection starts with an empty send buffer and no waiter.  A packet that is not dropped as
  malformed is always passed on to smoltcp.
\<close>

theorem tcp_receive_packet_spec:
  assumes "tcp_laws w T rx tx may_send" and "tcp_reach w T ids t" and "length ids < 2 ^ 63"
    and "tcp_receive_packet w T p ti t = (es, Inr t')"
  shows "(es = [] \<and> t' \<in> {t, t\<lparr>th_device := vd_receive_packet p (th_device t)\<rparr>}) \<or>
     (\<exists>cid h a. es = [EmitEvent (ConnectionEstablished cid (fst a) (snd a) ti None)] \<and>
        a \<notin> th_active t \<and> th_active t' = insert a (th_active t) \<and> cid \<notin> set ids \<and>
        th_socket_data t' = th_socket_data t @ [(cid, new_socket_data h a)] \<and>
        th_device t' = vd_receive_packet p (th_device t))"
proof -
  note inv = tcp_laws.reach_inv [OF assms(1-3)]
  show ?thesis
  proof (cases rule: tcp_laws.tcp_receive_cases [OF assms(1) inv assms(3,4), case_names ignored forwarded connected])
    case (connected cid h a)
    then show ?thesis by blast
  qed auto
qed

subsection \<open>A stack to evaluate examples on\<close>

text \<open>
  Sockets with a state and two byte queues, a socket set of slots and an interface that is never
  connected to a peer; it satisfies the contract.
\<close>

record queue_socket =
  qs_state :: tcp_state
  qs_rx :: bytes
  qs_tx :: bytes

definition qs_may_send :: "queue_socket \<Rightarrow> bool" where
  "qs_may_send s \<longleftrightarrow> qs_state s \<in> {Established, CloseWait}"

definition qs_cap :: nat where "qs_cap = 65536"

definition slot_get :: "'s option list \<Rightarrow> handle \<Rightarrow> 's option" where
  "slot_get ss h = (if h < length ss then ss ! h else None)"

definition queue_stack :: "(queue_socket, queue_socket option list, unit) tcp_stack" where
  "queue_stack =
     \<lparr>tcp_checked = (\<lambda>p. 20 \<le> length p),
      tcp_verify_checksum = (\<lambda>s d p. True),
      tcp_src_port = (\<lambda>p. be_word (take 2 p)),
      tcp_dst_port = (\<lambda>p. be_word (take 2 (drop 2 p))),
      tcp_syn = (\<lambda>p. bit (p ! 13) 1),
      tcp_ack = (\<lambda>p. bit (p ! 13) 4),
      sock_create = (\<lambda>r t. \<lparr>qs_state = Closed, qs_rx = [], qs_tx = []\<rparr>),
      sock_listen = (\<lambda>a s. if sock_port a = 0 then Inl (Failed ''unaddressable'') else Inr (s\<lparr>qs_state := Listen\<rparr>)),
      sock_set_timeout = (\<lambda>n s. s),
      sock_set_keep_alive = (\<lambda>n s. s),
      sock_state = qs_state,
      can_recv = (\<lambda>s. qs_rx s \<noteq> []),
      recv_queue = (\<lambda>s. length (qs_rx s)),
      recv_slice = (\<lambda>n s. Inr (take n (qs_rx s), s\<lparr>qs_rx := drop n (qs_rx s)\<rparr>)),
      can_send = (\<lambda>s. qs_may_send s \<and> length (qs_tx s) < qs_cap),
      send_slice = (\<lambda>d s. if qs_may_send s
         then let k = min (length d) (qs_cap - length (qs_tx s)) in Inr (k, s\<lparr>qs_tx := qs_tx s @ take k d\<rparr>)
         else Inl (Failed ''invalid state'')),
      send_queue = (\<lambda>s. length (qs_tx s)),
      send_capacity = (\<lambda>s. qs_cap),
      sock_close = (\<lambda>s. s\<lparr>qs_state :=
         (case qs_state s of Listen \<Rightarrow> Closed | SynSent \<Rightarrow> Closed | SynReceived \<Rightarrow> FinWait1 | Established \<Rightarrow> FinWait1
          | CloseWait \<Rightarrow> LastAck | st \<Rightarrow> st)\<rparr>),
      set_new = [],
      set_add = (\<lambda>s ss. (length ss, ss @ [Some s])),
      set_get = slot_get,
      set_put = (\<lambda>h s ss. ss[h := Some s]),
      set_remove = (\<lambda>h ss. ss[h := None]),
      iface_new = (),
      iface_poll = (\<lambda>now x. (x, [])),
      iface_poll_delay = (\<lambda>now f ss. None),
      as_slices = (\<lambda>d. (take (length d div 2) d, drop (length d div 2) d))\<rparr>"

interpretation queue_tcp: tcp_laws basic_wire queue_stack qs_rx qs_tx qs_may_send
proof unfold_locales
  fix s s0 :: queue_socket and ss ss' :: "queue_socket option list" and h n k d now f dev f' dev' es a b
  show "qs_may_send s \<Longrightarrow> k = min (length d) (send_capacity queue_stack s - length (qs_tx s)) \<Longrightarrow>
      \<exists>s'. send_slice queue_stack d s = Inr (k, s') \<and> qs_tx s' = qs_tx s @ take k d \<and> qs_rx s' = qs_rx s \<and>
        qs_may_send s' \<and> send_capacity queue_stack s' = send_capacity queue_stack s"
    by (auto simp: queue_stack_def Let_def qs_may_send_def)
  show "set_add queue_stack s ss = (h, ss') \<Longrightarrow>
      set_get queue_stack ss h = None \<and> set_get queue_stack ss' = (set_get queue_stack ss)(h \<mapsto> s)"
    by (auto simp: queue_stack_def slot_get_def fun_eq_iff nth_append)
  show "set_get queue_stack ss h = Some s0 \<Longrightarrow> set_get queue_stack (set_put queue_stack h s ss) = (set_get queue_stack ss)(h \<mapsto> s)"
    by (auto simp: queue_stack_def slot_get_def fun_eq_iff nth_list_update split: if_splits)
  show "set_get queue_stack (set_remove queue_stack h ss) = (set_get queue_stack ss)(h := None)"
    by (auto simp: queue_stack_def slot_get_def fun_eq_iff nth_list_update)
  show "iface_poll queue_stack now (f, dev, ss) = ((f', dev', ss'), es) \<Longrightarrow>
      dev_steps basic_wire dev es dev' \<and> dom (set_get queue_stack ss') = dom (set_get queue_stack ss)"
    by (auto simp: queue_stack_def dev_idle)
  show "as_slices queue_stack d = (a, b) \<Longrightarrow> a @ b = d"
    by (auto simp: queue_stack_def)
qed (auto simp: queue_stack_def slot_get_def)

text \<open>A SYN from 10.0.0.1:5000 to 8.8.8.8:80.\<close>

definition syn_packet :: smol_packet where
  "syn_packet = V4 ([69, 0, 0, 40, 0, 0, 0, 0, 64, 6, 0, 0, 10, 0, 0, 1, 8, 8, 8, 8,
                     19, 136, 0, 80, 0, 0, 0, 1, 0, 0, 0, 0, 80, 2, 255, 255, 0, 0, 0, 0])"

definition syn_addrs :: four_tuple where
  "syn_addrs = (SockV4 167772161 5000, SockV4 134744072 80)"

lemma syn_received:
  "\<exists>t'. tcp_receive_packet basic_wire queue_stack syn_packet NoTunnel (tcp_new queue_stack 1) =
     ([EmitEvent (ConnectionEstablished (ConnectionId 2) (fst syn_addrs) (snd syn_addrs) NoTunnel None)], Inr t')"
  by (simp add: tcp_receive_packet_def syn_packet_def syn_addrs_def basic_wire_def queue_stack_def tcp_new_def be_word_def
      next_id_def gen_tcp_def Let_def)

lemma syn_reached:
  obtains t where "tcp_receive_packet basic_wire queue_stack syn_packet NoTunnel (tcp_new queue_stack 1) =
     ([EmitEvent (ConnectionEstablished (ConnectionId 2) (fst syn_addrs) (snd syn_addrs) NoTunnel None)], Inr t)"
    and "tcp_reach basic_wire queue_stack [ConnectionId 2] t"
  using syn_received tcp_recv [OF tcp_init [of basic_wire queue_stack 1], of syn_packet NoTunnel] by fastforce

theorem tcp_stream_integrity_witness:
  "\<exists>es data' s'. socket_step queue_stack
       ((new_socket_data 0 syn_addrs)\<lparr>sd_send_buffer := [1, 2, 3]\<rparr>, \<lparr>qs_state = Established, qs_rx = [], qs_tx = [0]\<rparr>)
     = (es, Inr (data', s')) \<and> qs_tx s' @ sd_send_buffer data' = [0, 1, 2, 3]"
  using tcp_stream_integrity [OF queue_tcp.tcp_laws_axioms,
      of "(new_socket_data 0 syn_addrs)\<lparr>sd_send_buffer := [1, 2, 3]\<rparr>" "\<lparr>qs_state = Established, qs_rx = [], qs_tx = [0]\<rparr>"]
  by fastforce

theorem tcp_poll_total_witness:
  "\<exists>t es t'. tcp_reach basic_wire queue_stack [ConnectionId 2] t \<and> tcp_poll queue_stack 0 t = (es, Inr t')"
proof -
  obtain t where "tcp_reach basic_wire queue_stack [ConnectionId 2] t" by (rule syn_reached)
  with tcp_poll_total [OF queue_tcp.tcp_laws_axioms this, of 0] show ?thesis by auto
qed

theorem tcp_connections_consistent_witness:
  "\<exists>t. tcp_reach basic_wire queue_stack [ConnectionId 2] t \<and> is_tcp (ConnectionId 2)"
proof -
  obtain t where "tcp_reach basic_wire queue_stack [ConnectionId 2] t" by (rule syn_reached)
  with tcp_connections_consistent [OF queue_tcp.tcp_laws_axioms this] show ?thesis by auto
qed

theorem tcp_receive_packet_spec_witness:
  "\<exists>t'. tcp_receive_packet basic_wire queue_stack syn_packet NoTunnel (tcp_new queue_stack 1) =
     ([EmitEvent (ConnectionEstablished (ConnectionId 2) (fst syn_addrs) (snd syn_addrs) NoTunnel None)], Inr t') \<and>
     th_active t' = {syn_addrs}"
proof -
  obtain t where t: "tcp_receive_packet basic_wire queue_stack syn_packet NoTunnel (tcp_new queue_stack 1) =
     ([EmitEvent (ConnectionEstablished (ConnectionId 2) (fst syn_addrs) (snd syn_addrs) NoTunnel None)], Inr t)"
    by (rule syn_reached)
  from tcp_receive_packet_spec [OF queue_tcp.tcp_laws_axioms tcp_init _ t] have "th_active t = {syn_addrs}"
    by (auto simp: tcp_new_def prod_eq_iff)
  with t show ?thesis by blast
qed

end
