(* ===== verification/Icmp.thy ===== *)
theory Icmp
  imports Udp
begin

text \<open>
  \<^verbatim>\<open>src/network/icmp.rs\<close>: fake replies to ICMP echo requests.  smoltcp's ICMP accessors and
  emitters are the parameter \<open>icmp_wire\<close>; its IP emitters are those of \<open>udp_wire\<close>.  The contract
  \<open>icmp_emit_laws\<close> says that reading a header field of an emitted packet gives the field back.
\<close>

datatype icmp_message = EchoRequest | RouterSolicit | OtherIcmp u8

datatype icmp_repr = EchoReply (icmp_ident: u16) (icmp_seq_no: u16) (icmp_data: bytes)

record icmp_wire =
  icmp4_checked :: "bytes \<Rightarrow> bool"
  icmp4_msg_type :: "bytes \<Rightarrow> icmp_message"
  icmp6_checked :: "bytes \<Rightarrow> bool"
  icmp6_msg_type :: "bytes \<Rightarrow> icmp_message"
  echo_ident :: "bytes \<Rightarrow> u16"
  echo_seq_no :: "bytes \<Rightarrow> u16"
  echo_data :: "bytes \<Rightarrow> bytes"
  icmp_buffer_len :: "icmp_repr \<Rightarrow> nat"
  icmp4_emit :: "icmp_repr \<Rightarrow> bytes \<Rightarrow> bytes"
  icmp6_emit :: "128 word \<Rightarrow> 128 word \<Rightarrow> icmp_repr \<Rightarrow> bytes \<Rightarrow> bytes"

text \<open>\<open>icmp4_emit\<close> and \<open>icmp6_emit\<close> write the message into the payload area of an IP packet.\<close>

definition handle_icmpv4_echo_request :: "smol_wire \<Rightarrow> udp_wire \<Rightarrow> icmp_wire \<Rightarrow> bytes \<Rightarrow> smol_packet option" where
  "handle_icmpv4_echo_request w e i input_packet =
     (let src_addr = v4_src_addr w input_packet;
          dst_addr = v4_dst_addr w input_packet;
          p = v4_payload w input_packet
      in if \<not> icmp4_checked i p then None
         else if icmp4_msg_type i p \<noteq> EchoRequest then None
         else
           let icmp_repr = EchoReply (echo_ident i p) (echo_seq_no i p) (echo_data i p);
               ip_repr = \<lparr>repr_src = dst_addr, repr_dst = src_addr, repr_next_header = Icmp,
                          repr_payload_len = icmp_buffer_len i icmp_repr, repr_hop_limit = 255\<rparr>;
               buf = replicate (v4_buffer_len e ip_repr + icmp_buffer_len i icmp_repr) 0
           in Some (V4 (icmp4_emit i icmp_repr (v4_emit e ip_repr buf))))"

definition handle_icmpv6_echo_request :: "smol_wire \<Rightarrow> udp_wire \<Rightarrow> icmp_wire \<Rightarrow> bytes \<Rightarrow> smol_packet option" where
  "handle_icmpv6_echo_request w e i input_packet =
     (let src_addr = v6_src_addr w input_packet;
          dst_addr = v6_dst_addr w input_packet;
          p = v6_payload w input_packet
      in if \<not> icmp6_checked i p then None
         else case icmp6_msg_type i p of
           EchoRequest \<Rightarrow>
             let icmp_repr = EchoReply (echo_ident i p) (echo_seq_no i p) (echo_data i p);
                 ip_repr = \<lparr>repr_src = dst_addr, repr_dst = src_addr, repr_next_header = Icmp,
                            repr_payload_len = icmp_buffer_len i icmp_repr, repr_hop_limit = 255\<rparr>;
                 buf = replicate (v6_buffer_len e ip_repr + icmp_buffer_len i icmp_repr) 0
             in Some (V6 (icmp6_emit i dst_addr src_addr icmp_repr (v6_emit e ip_repr buf)))
         | RouterSolicit \<Rightarrow> None
         | other \<Rightarrow> None)"

subsection \<open>What is relied on\<close>

locale icmp_emit_laws =
  fixes w :: smol_wire and e :: udp_wire and i :: icmp_wire
  assumes v4_header: "v4_src_addr w (icmp4_emit i r (v4_emit e q (replicate (v4_buffer_len e q + n) 0))) = repr_src q"
      "v4_dst_addr w (icmp4_emit i r (v4_emit e q (replicate (v4_buffer_len e q + n) 0))) = repr_dst q"
      "repr_next_header q = Icmp \<Longrightarrow> v4_next_header w (icmp4_emit i r (v4_emit e q (replicate (v4_buffer_len e q + n) 0))) = Icmp"
    and v4_body: "n = icmp_buffer_len i r \<Longrightarrow>
        v4_payload w (icmp4_emit i r (v4_emit e q (replicate (v4_buffer_len e q + n) 0))) = m4 \<Longrightarrow>
        echo_ident i m4 = icmp_ident r \<and> echo_seq_no i m4 = icmp_seq_no r \<and> echo_data i m4 = icmp_data r"
    and v6_header: "v6_src_addr w (icmp6_emit i s d r (v6_emit e q6 (replicate (v6_buffer_len e q6 + n) 0))) = repr_src q6"
      "v6_dst_addr w (icmp6_emit i s d r (v6_emit e q6 (replicate (v6_buffer_len e q6 + n) 0))) = repr_dst q6"
      "repr_next_header q6 = Icmp \<Longrightarrow> v6_next_header w (icmp6_emit i s d r (v6_emit e q6 (replicate (v6_buffer_len e q6 + n) 0))) = Icmp"

subsection \<open>A concrete encoding\<close>

text \<open>Twenty-byte IPv4 headers, forty-byte IPv6 headers, eight-byte echo headers; no checksums.\<close>

definition protocol_byte :: "ip_protocol \<Rightarrow> u8" where
  "protocol_byte p = (case p of Tcp \<Rightarrow> 6 | Messages.Udp \<Rightarrow> 17 | Messages.Icmp \<Rightarrow> 1 | Icmpv6 \<Rightarrow> 58 | OtherProtocol b \<Rightarrow> b)"

definition basic_emit :: udp_wire where
  "basic_emit =
     \<lparr>udp_header_len = 8,
      v4_buffer_len = (\<lambda>q. 20),
      v6_buffer_len = (\<lambda>q. 40),
      v4_emit = (\<lambda>q buf. [0x45, 0] @ be_bytes 2 (word_of_nat (20 + repr_payload_len q) :: u16) @
         [0, 0, 0, 0, repr_hop_limit q, protocol_byte (repr_next_header q), 0, 0] @
         be_bytes 4 (repr_src q) @ be_bytes 4 (repr_dst q) @ drop 20 buf),
      v6_emit = (\<lambda>q buf. [0x60, 0, 0, 0] @ be_bytes 2 (word_of_nat (repr_payload_len q) :: u16) @
         [protocol_byte (repr_next_header q), repr_hop_limit q] @
         be_bytes 16 (repr_src q) @ be_bytes 16 (repr_dst q) @ drop 40 buf),
      v4_udp_emit = (\<lambda>sp dp s d p buf. take 20 buf @ be_bytes 2 sp @ be_bytes 2 dp @
         be_bytes 2 (word_of_nat (8 + length p) :: u16) @ [0, 0] @ p),
      v6_udp_emit = (\<lambda>sp dp s d p buf. take 40 buf @ be_bytes 2 sp @ be_bytes 2 dp @
         be_bytes 2 (word_of_nat (8 + length p) :: u16) @ [0, 0] @ p)\<rparr>"

definition basic_icmp :: icmp_wire where
  "basic_icmp =
     \<lparr>icmp4_checked = (\<lambda>p. 8 \<le> length p),
      icmp4_msg_type = (\<lambda>p. if hd p = 8 then EchoRequest else OtherIcmp (hd p)),
      icmp6_checked = (\<lambda>p. 8 \<le> length p),
      icmp6_msg_type = (\<lambda>p. if hd p = 128 then EchoRequest else if hd p = 133 then RouterSolicit else OtherIcmp (hd p)),
      echo_ident = (\<lambda>p. be_word (take 2 (drop 4 p))),
      echo_seq_no = (\<lambda>p. be_word (take 2 (drop 6 p))),
      echo_data = (\<lambda>p. drop 8 p),
      icmp_buffer_len = (\<lambda>r. 8 + length (icmp_data r)),
      icmp4_emit = (\<lambda>r b. take 20 b @ [0, 0, 0, 0] @ be_bytes 2 (icmp_ident r) @ be_bytes 2 (icmp_seq_no r) @ icmp_data r),
      icmp6_emit = (\<lambda>s d r b. take 40 b @ [129, 0, 0, 0] @ be_bytes 2 (icmp_ident r) @ be_bytes 2 (icmp_seq_no r) @ icmp_data r)\<rparr>"

lemma be_bytes_2: "be_bytes 2 w = [ucast (drop_bit 8 w), ucast w]"
  by (simp add: numeral_2_eq_2)

interpretation basic_icmp: icmp_emit_laws basic_wire basic_emit basic_icmp
proof unfold_locales
  fix r :: icmp_repr and n :: nat
  fix q :: "u32 ip_repr"
  let ?p = "icmp4_emit basic_icmp r (v4_emit basic_emit q (replicate (v4_buffer_len basic_emit q + n) 0))"
  show "v4_src_addr basic_wire ?p = repr_src q" and "v4_dst_addr basic_wire ?p = repr_dst q"
    by (simp_all add: basic_wire_def basic_emit_def basic_icmp_def)
  show "v4_next_header basic_wire ?p = Messages.Icmp" if "repr_next_header q = Messages.Icmp"
    using that by (simp add: basic_wire_def basic_emit_def basic_icmp_def protocol_byte_def protocol_of_def be_bytes_2)
  show "echo_ident basic_icmp m4 = icmp_ident r \<and> echo_seq_no basic_icmp m4 = icmp_seq_no r \<and> echo_data basic_icmp m4 = icmp_data r"
    if "v4_payload basic_wire ?p = m4" for m4
    using that by (auto simp: basic_wire_def basic_emit_def basic_icmp_def)
next
  fix r :: icmp_repr and n :: nat and s d
  fix q :: "128 word ip_repr"
  let ?p = "icmp6_emit basic_icmp s d r (v6_emit basic_emit q (replicate (v6_buffer_len basic_emit q + n) 0))"
  show "v6_src_addr basic_wire ?p = repr_src q" and "v6_dst_addr basic_wire ?p = repr_dst q"
    by (simp_all add: basic_wire_def basic_emit_def basic_icmp_def)
  show "v6_next_header basic_wire ?p = Messages.Icmp" if "repr_next_header q = Messages.Icmp"
    using that by (simp add: basic_wire_def basic_emit_def basic_icmp_def protocol_byte_def protocol_of_def be_bytes_2)
qed

subsection \<open>Properties\<close>

text \<open>
  An IPv4 packet is answered only if it is a valid ICMP echo request, and then the reply goes
  from the pinged address back to the sender, is an ICMP packet, and carries the identifier,
  sequence number and data of the request.
\<close>

theorem icmpv4_reply:
  assumes "icmp_emit_laws w e i" and "handle_icmpv4_echo_request w e i b = Some r"
  shows "icmp4_msg_type i (v4_payload w b) = EchoRequest \<and> icmp4_checked i (v4_payload w b) \<and>
     src_ip w r = IpV4 (v4_dst_addr w b) \<and> dst_ip w r = IpV4 (v4_src_addr w b) \<and> transport_protocol w r = Icmp \<and>
     echo_ident i (payload w r) = echo_ident i (v4_payload w b) \<and>
     echo_seq_no i (payload w r) = echo_seq_no i (v4_payload w b) \<and>
     echo_data i (payload w r) = echo_data i (v4_payload w b)"
proof -
  let ?p = "v4_payload w b"
  let ?m = "EchoReply (echo_ident i ?p) (echo_seq_no i ?p) (echo_data i ?p)"
  let ?q = "\<lparr>repr_src = v4_dst_addr w b, repr_dst = v4_src_addr w b, repr_next_header = Icmp,
             repr_payload_len = icmp_buffer_len i ?m, repr_hop_limit = 255\<rparr>"
  from assms(2) have ok: "icmp4_checked i ?p" "icmp4_msg_type i ?p = EchoRequest"
    and r: "r = V4 (icmp4_emit i ?m (v4_emit e ?q (replicate (v4_buffer_len e ?q + icmp_buffer_len i ?m) 0)))"
    by (auto simp: handle_icmpv4_echo_request_def Let_def split: if_splits)
  show ?thesis
    unfolding r
    using ok icmp_emit_laws.v4_header [OF assms(1)] icmp_emit_laws.v4_body [OF assms(1) refl refl, of ?m ?q] by simp
qed

definition ping4 :: bytes where
  "ping4 = [0x45, 0, 0, 30, 0, 0, 0, 0, 64, 1, 0, 0, 10, 0, 0, 1, 8, 8, 8, 8, 8, 0, 0, 0, 1, 2, 0, 7, 42, 43]"

theorem icmpv4_reply_witness:
  "\<exists>r. handle_icmpv4_echo_request basic_wire basic_emit basic_icmp ping4 = Some r \<and>
     dst_ip basic_wire r = IpV4 167772161 \<and> echo_data basic_icmp (payload basic_wire r) = [42, 43]"
proof -
  have "icmp4_checked basic_icmp (v4_payload basic_wire ping4)" "icmp4_msg_type basic_icmp (v4_payload basic_wire ping4) = EchoRequest"
    and f: "v4_src_addr basic_wire ping4 = 167772161" "echo_data basic_icmp (v4_payload basic_wire ping4) = [42, 43]"
    by (simp_all add: ping4_def basic_wire_def basic_icmp_def be_word_def)
  then obtain r where r: "handle_icmpv4_echo_request basic_wire basic_emit basic_icmp ping4 = Some r"
    by (simp add: handle_icmpv4_echo_request_def Let_def)
  with icmpv4_reply [OF basic_icmp.icmp_emit_laws_axioms r] f show ?thesis by auto
qed

text \<open>
  The IPv6 reply goes back to the sender as well, but its next header is ICMP (protocol 1), not
  ICMPv6 (protocol 58).
\<close>

theorem icmpv6_reply_next_header:
  assumes "icmp_emit_laws w e i" and "handle_icmpv6_echo_request w e i b = Some r"
  shows "src_ip w r = IpV6 (v6_dst_addr w b) \<and> dst_ip w r = IpV6 (v6_src_addr w b) \<and> transport_protocol w r = Icmp"
proof -
  let ?p = "v6_payload w b"
  let ?m = "EchoReply (echo_ident i ?p) (echo_seq_no i ?p) (echo_data i ?p)"
  let ?q = "\<lparr>repr_src = v6_dst_addr w b, repr_dst = v6_src_addr w b, repr_next_header = Icmp,
             repr_payload_len = icmp_buffer_len i ?m, repr_hop_limit = 255\<rparr>"
  from assms(2) have r: "r = V6 (icmp6_emit i (v6_dst_addr w b) (v6_src_addr w b) ?m
      (v6_emit e ?q (replicate (v6_buffer_len e ?q + icmp_buffer_len i ?m) 0)))"
    by (auto simp: handle_icmpv6_echo_request_def Let_def split: if_splits icmp_message.splits)
  show ?thesis
    unfolding r using icmp_emit_laws.v6_header [OF assms(1)] by simp
qed

definition ping6 :: bytes where
  "ping6 = [0x60, 0, 0, 0, 0, 8, 58, 64] @ replicate 15 0 @ [1] @ replicate 15 0 @ [2] @ [128, 0, 0, 0, 1, 2, 0, 7]"

theorem icmpv6_reply_next_header_witness:
  "\<exists>r. transport_protocol basic_wire (V6 ping6) = Icmpv6 \<and>
     handle_icmpv6_echo_request basic_wire basic_emit basic_icmp ping6 = Some r \<and> transport_protocol basic_wire r = Icmp"
proof -
  have "icmp6_checked basic_icmp (v6_payload basic_wire ping6)" "icmp6_msg_type basic_icmp (v6_payload basic_wire ping6) = EchoRequest"
    and f: "transport_protocol basic_wire (V6 ping6) = Icmpv6"
    by (simp_all add: ping6_def basic_wire_def basic_icmp_def protocol_of_def)
  then obtain r where r: "handle_icmpv6_echo_request basic_wire basic_emit basic_icmp ping6 = Some r"
    by (simp add: handle_icmpv6_echo_request_def Let_def)
  with icmpv6_reply_next_header [OF basic_icmp.icmp_emit_laws_axioms r] f show ?thesis by auto
qed

end
