(* ===== verification/Network.thy ===== *)
theory Network
  imports Tcp Icmp
begin

text \<open>
  \<^verbatim>\<open>src/network/core.rs\<close> and \<^verbatim>\<open>src/network/task.rs\<close>: the network stack, which hands
  packets to the TCP, UDP and ICMP handlers and commands to the handler that owns the connection,
  and the task that drives it.  The channel to the packet source is shared by the device, the ICMP
  handler and the UDP path; its free slots are \<open>net_room\<close>.
\<close>

subsection \<open>The stack\<close>

record ('i, 'c, 's, 'ss, 'f) net_env =
  ne_wire :: smol_wire
  ne_stack :: "('s, 'ss, 'f) tcp_stack"
  ne_ids :: "'i id_cache"
  ne_conns :: "'c conn_cache"
  ne_emit :: udp_wire
  ne_icmp :: icmp_wire
  ne_parse :: packet_parser

record ('i, 'c, 'ss, 'f) network_stack =
  ns_tcp :: "('ss, 'f) tcp_handler"
  ns_udp :: "('i, 'c) udp_handler"

definition net_room :: "('i, 'c, 'ss, 'f) network_stack \<Rightarrow> nat" where
  "net_room ns = vd_room (th_device (ns_tcp ns))"

definition set_net_room :: "nat \<Rightarrow> ('i, 'c, 'ss, 'f) network_stack \<Rightarrow> ('i, 'c, 'ss, 'f) network_stack" where
  "set_net_room r ns = ns\<lparr>ns_tcp := (ns_tcp ns)\<lparr>th_device := (th_device (ns_tcp ns))\<lparr>vd_room := r\<rparr>\<rparr>\<rparr>"

definition stack_new :: "('i, 'c, 's, 'ss, 'f) net_env \<Rightarrow> nat \<Rightarrow> ('i, 'c, 'ss, 'f) network_stack" where
  "stack_new E room = \<lparr>ns_tcp = tcp_new (ne_stack E) room, ns_udp = udp_new (ne_ids E) (ne_conns E)\<rparr>"

text \<open>\<^verbatim>\<open>try_send\<close> on the channel to the packet source: a full channel discards the packet.\<close>

definition net_try_send :: "smol_packet \<Rightarrow> ('i, 'c, 'ss, 'f) network_stack \<Rightarrow> ('i, 'c, 'ss, 'f) network_stack run" where
  "net_try_send packet ns =
     (if 0 < net_room ns then ([EmitCommand (SendPacket packet)], Inr (set_net_room (net_room ns - 1) ns))
      else ([], Inr ns))"

definition receive_packet_icmp ::
  "('i, 'c, 's, 'ss, 'f) net_env \<Rightarrow> smol_packet \<Rightarrow> ('i, 'c, 'ss, 'f) network_stack \<Rightarrow> ('i, 'c, 'ss, 'f) network_stack run" where
  "receive_packet_icmp E packet ns =
     (if 0 < net_room ns then
        (let response_packet =
           (case packet of
              V4 b \<Rightarrow> handle_icmpv4_echo_request (ne_wire E) (ne_emit E) (ne_icmp E) b
            | V6 b \<Rightarrow> handle_icmpv6_echo_request (ne_wire E) (ne_emit E) (ne_icmp E) b)
         in case response_packet of
              Some p \<Rightarrow> net_try_send p ns
            | None \<Rightarrow> ([], Inr ns))
      else ([], Inr ns))"

fun handle_network_event ::
  "('i, 'c, 's, 'ss, 'f) net_env \<Rightarrow> nat \<Rightarrow> network_event \<Rightarrow> ('i, 'c, 'ss, 'f) network_stack \<Rightarrow>
   ('i, 'c, 'ss, 'f) network_stack run" where
  "handle_network_event E now (ReceivePacket packet tunnel_info) ns =
     (if (case packet of V4 p \<Rightarrow> \<not> v4_verify_checksum (ne_wire E) p | V6 p \<Rightarrow> False) then ([], Inr ns)
      else case transport_protocol (ne_wire E) packet of
        Tcp \<Rightarrow>
          run_bind (tcp_receive_packet (ne_wire E) (ne_stack E) packet tunnel_info (ns_tcp ns))
            (\<lambda>t. ([], Inr (ns\<lparr>ns_tcp := t\<rparr>)))
      | Messages.Udp \<Rightarrow>
          (case udp_try_from (ne_parse E) packet of
             Inr p \<Rightarrow>
               let (u, es) = udp_receive_data (ne_ids E) (ne_conns E) now p tunnel_info (ns_udp ns)
               in (es, Inr (ns\<lparr>ns_udp := u\<rparr>))
           | Inl e \<Rightarrow> ([], Inr ns))
      | Messages.Icmp \<Rightarrow> receive_packet_icmp E packet ns
      | Icmpv6 \<Rightarrow> receive_packet_icmp E packet ns
      | _ \<Rightarrow> ([], Inr ns))"

definition handle_transport_command ::
  "('i, 'c, 's, 'ss, 'f) net_env \<Rightarrow> nat \<Rightarrow> transport_command \<Rightarrow> ('i, 'c, 'ss, 'f) network_stack \<Rightarrow>
   ('i, 'c, 'ss, 'f) network_stack run" where
  "handle_transport_command E now command ns =
     (if is_tcp (command_connection_id command) then
        run_bind (tcp_handle_command command (ns_tcp ns)) (\<lambda>t. ([], Inr (ns\<lparr>ns_tcp := t\<rparr>)))
      else case udp_handle_command (ne_ids E) (ne_conns E) now command (ns_udp ns) of
        Inl e \<Rightarrow> ([], Inl e)
      | Inr (u, es, None) \<Rightarrow> (es, Inr (ns\<lparr>ns_udp := u\<rparr>))
      | Inr (u, es, Some packet) \<Rightarrow>
          (case udp_into_smol (ne_emit E) packet of
             Inl e \<Rightarrow> (es, Inl e)
           | Inr p \<Rightarrow> run_bind (es, Inr (ns\<lparr>ns_udp := u\<rparr>)) (net_try_send p)))"

definition stack_poll_delay :: "('i, 'c, 's, 'ss, 'f) net_env \<Rightarrow> nat \<Rightarrow> ('i, 'c, 'ss, 'f) network_stack \<Rightarrow> nat option" where
  "stack_poll_delay E now ns =
     (case (tcp_poll_delay (ne_stack E) now (ns_tcp ns), udp_poll_delay (ne_conns E) (ns_udp ns)) of
        (Some a, Some b) \<Rightarrow> Some (min a b)
      | (Some a, None) \<Rightarrow> Some a
      | (None, Some b) \<Rightarrow> Some b
      | (None, None) \<Rightarrow> None)"

definition stack_poll ::
  "('i, 'c, 's, 'ss, 'f) net_env \<Rightarrow> nat \<Rightarrow> ('i, 'c, 'ss, 'f) network_stack \<Rightarrow> ('i, 'c, 'ss, 'f) network_stack run" where
  "stack_poll E now ns =
     (let u = udp_poll (ne_ids E) (ne_conns E) now (ns_udp ns)
      in run_bind (tcp_poll (ne_stack E) now (ns_tcp ns)) (\<lambda>t. ([], Inr (ns\<lparr>ns_udp := u, ns_tcp := t\<rparr>))))"

subsection \<open>The task\<close>

text \<open>
  One round of the loop of \<^verbatim>\<open>NetworkTask::run\<close>.  The environment chooses which arm of the
  \<^verbatim>\<open>select!\<close> fires and supplies what the arm receives: a permit for an event to Python, the
  packets that are processed in one go (one permit each), or the commands that are pending.
\<close>

record ('i, 'c, 'ss, 'f) network_task =
  nt_io :: "('i, 'c, 'ss, 'f) network_stack"
  nt_permit :: bool
  nt_delay :: "nat option"

definition NETWORK_CHANNEL_SIZE :: nat where "NETWORK_CHANNEL_SIZE = 256"

definition task_new :: "('i, 'c, 's, 'ss, 'f) net_env \<Rightarrow> ('i, 'c, 'ss, 'f) network_task" where
  "task_new E = \<lparr>nt_io = stack_new E NETWORK_CHANNEL_SIZE, nt_permit = False, nt_delay = None\<rparr>"

datatype task_input =
    TShutdown
  | TTimeout
  | TPermit
  | TEvents network_event "network_event list"
  | TNetCapacity
  | TCommands transport_command "transport_command list"

fun task_enabled :: "task_input \<Rightarrow> ('i, 'c, 'ss, 'f) network_task \<Rightarrow> bool" where
  "task_enabled TShutdown st = True"
| "task_enabled TTimeout st \<longleftrightarrow> nt_delay st \<noteq> None"
| "task_enabled TPermit st \<longleftrightarrow> \<not> nt_permit st"
| "task_enabled (TEvents e es) st \<longleftrightarrow> nt_permit st"
| "task_enabled TNetCapacity st \<longleftrightarrow> net_room (nt_io st) = 0"
| "task_enabled (TCommands c cs) st \<longleftrightarrow> 0 < net_room (nt_io st)"

fun handle_events ::
  "('i, 'c, 's, 'ss, 'f) net_env \<Rightarrow> nat \<Rightarrow> network_event list \<Rightarrow> ('i, 'c, 'ss, 'f) network_stack \<Rightarrow>
   ('i, 'c, 'ss, 'f) network_stack run" where
  "handle_events E now [] ns = ([], Inr ns)"
| "handle_events E now (e # es) ns = run_bind (handle_network_event E now e ns) (handle_events E now es)"

text \<open>Pending commands are handled while the channel has room; the rest stays in the queue.\<close>

fun handle_pending ::
  "('i, 'c, 's, 'ss, 'f) net_env \<Rightarrow> nat \<Rightarrow> transport_command list \<Rightarrow> ('i, 'c, 'ss, 'f) network_stack \<Rightarrow>
   ('i, 'c, 'ss, 'f) network_stack run" where
  "handle_pending E now [] ns = ([], Inr ns)"
| "handle_pending E now (c # cs) ns =
     (if 0 < net_room ns then run_bind (handle_transport_command E now c ns) (handle_pending E now cs)
      else ([], Inr ns))"

definition after_arm ::
  "('i, 'c, 's, 'ss, 'f) net_env \<Rightarrow> nat \<Rightarrow> bool \<Rightarrow> ('i, 'c, 'ss, 'f) network_stack \<Rightarrow>
   ('i, 'c, 'ss, 'f) network_task option run" where
  "after_arm E now permit ns =
     run_bind (stack_poll E now ns)
       (\<lambda>ns. ([], Inr (Some \<lparr>nt_io = ns, nt_permit = permit, nt_delay = stack_poll_delay E now ns\<rparr>)))"

text \<open>\<open>None\<close> is a graceful end of the task.\<close>

fun task_round ::
  "('i, 'c, 's, 'ss, 'f) net_env \<Rightarrow> nat \<Rightarrow> task_input \<Rightarrow> ('i, 'c, 'ss, 'f) network_task \<Rightarrow>
   ('i, 'c, 'ss, 'f) network_task option run" where
  "task_round E now TShutdown st = ([], Inr None)"
| "task_round E now TTimeout st = after_arm E now (nt_permit st) (nt_io st)"
| "task_round E now TPermit st = ([], Inr (Some (st\<lparr>nt_permit := True\<rparr>)))"
| "task_round E now (TEvents e es) st =
     run_bind (handle_network_event E now e (nt_io st)) (\<lambda>ns.
       run_bind (handle_events E now es ns) (after_arm E now False))"
| "task_round E now TNetCapacity st = ([], Inr (Some st))"
| "task_round E now (TCommands c cs) st =
     run_bind (handle_transport_command E now c (nt_io st)) (\<lambda>ns.
       run_bind (handle_pending E now cs ns) (after_arm E now (nt_permit st)))"

text \<open>The permits a round consumes, one per packet it processes.\<close>

fun input_permits :: "task_input \<Rightarrow> nat" where
  "input_permits (TEvents e es) = Suc (length es)"
| "input_permits _ = 0"

text \<open>
  The states of the task between rounds, with the number of packets processed and the ids announced
  so far; between rounds time passes and the packet source takes packets out of its channel.
\<close>

inductive task_reach ::
  "('i, 'c, 's, 'ss, 'f) net_env \<Rightarrow> nat \<Rightarrow> connection_id list \<Rightarrow> nat \<Rightarrow> ('i, 'c, 'ss, 'f) network_task \<Rightarrow> bool" for E where
  task_init: "task_reach E 0 [] now (task_new E)"
| task_next: "task_reach E n ids now st \<Longrightarrow> now \<le> now' \<Longrightarrow> task_enabled inp st \<Longrightarrow>
    task_round E now' inp st = (es, Inr (Some st')) \<Longrightarrow> task_reach E (n + input_permits inp) (ids @ event_cids es) now' st'"
| task_drained: "task_reach E n ids now st \<Longrightarrow> net_room (nt_io st) \<le> r \<Longrightarrow> r \<le> NETWORK_CHANNEL_SIZE \<Longrightarrow>
    task_reach E n ids now (st\<lparr>nt_io := set_net_room r (nt_io st)\<rparr>)"

subsection \<open>The invariant of the stack\<close>

text \<open>
  The ids announced to Python split by parity into those of the TCP and those of the UDP handler.
\<close>

definition net_inv ::
  "('i, 'c, 's, 'ss, 'f) net_env \<Rightarrow> (nat \<Rightarrow> 'i \<Rightarrow> four_tuple \<rightharpoonup> connection_id) \<Rightarrow>
   (nat \<Rightarrow> 'c \<Rightarrow> connection_id \<rightharpoonup> conn_state \<times> four_tuple) \<Rightarrow> connection_id list \<Rightarrow> nat \<Rightarrow>
   ('i, 'c, 'ss, 'f) network_stack \<Rightarrow> bool" where
  "net_inv E cl cc ids now ns \<longleftrightarrow>
     tcp_inv (ne_stack E) (filter is_tcp ids) (ns_tcp ns) \<and>
     udp_inv cl cc (filter (\<lambda>i. \<not> is_tcp i) ids) now (ns_udp ns)"

lemma set_net_room_sel [simp]:
  "net_room (set_net_room r ns) = r" "ns_udp (set_net_room r ns) = ns_udp ns"
  "tcp_inv T ids (ns_tcp (set_net_room r ns)) = tcp_inv T ids (ns_tcp ns)"
  by (simp_all add: net_room_def set_net_room_def tcp_inv_def)

lemma net_try_send_ok:
  assumes "net_try_send p ns = (es, Inr ns')"
  shows "net_room ns' + length (commands_of es) = net_room ns \<and> events_of es = [] \<and>
     (net_inv E cl cc ids now ns \<longrightarrow> net_inv E cl cc ids now ns')"
  using assms by (auto simp: net_try_send_def net_inv_def split: if_splits)

lemma receive_packet_icmp_ok:
  assumes "receive_packet_icmp E p ns = (es, Inr ns')"
  shows "net_room ns' + length (commands_of es) = net_room ns \<and> events_of es = [] \<and>
     (net_inv E cl cc ids now ns \<longrightarrow> net_inv E cl cc ids now ns')"
proof -
  have "es = [] \<and> ns' = ns \<or> (\<exists>q. net_try_send q ns = (es, Inr ns'))"
    using assms by (auto simp: receive_packet_icmp_def Let_def split: if_splits option.splits)
  then show ?thesis using net_try_send_ok [of _ ns es ns' E cl cc ids now] by auto
qed

lemma add_packet_commands: "commands_of (snd (add_packet d s)) = []"
  by (auto simp: add_packet_def split: option.splits)

lemma udp_receive_commands: "udp_receive_data L C now p ti h = (h', es) \<Longrightarrow> commands_of es = [] \<and> length (events_of es) \<le> 1"
  using add_packet_commands [of "up_payload p"]
  by (auto simp: udp_receive_data_def Let_def add_packet_def conn_default_def next_id_def
      split: prod.splits option.splits if_splits)

lemma udp_command_commands:
  "udp_handle_command L C now cmd h = Inr (h', es, out) \<Longrightarrow> commands_of es = [] \<and> events_of es = []"
  by (cases cmd)
    (auto simp: udp_read_data_def udp_write_data_def udp_drain_writer_def udp_close_connection_def res_bind_eq_Inr
      add_reader_def conn_close_def Let_def split: prod.splits option.splits if_splits list.splits)

lemma tcp_command_quiet:
  "tcp_handle_command cmd t = (es, r) \<Longrightarrow> commands_of es = [] \<and> events_of es = [] \<and>
     (\<forall>t'. r = Inr t' \<longrightarrow> th_device t' = th_device t)"
  by (cases cmd) (auto simp: tcp_read_data_def tcp_write_data_def tcp_drain_writer_def tcp_close_connection_def
      split: option.splits if_splits)

locale network_laws = udp: udp_caches "ne_ids E" "ne_conns E" ttl cl cc + tcp: tcp_laws "ne_wire E" "ne_stack E" rx tx may_send
  for E :: "('i, 'c, 's, 'ss, 'f) net_env" and ttl cl cc rx tx may_send
begin

lemma stack_new_ok: "net_inv E cl cc [] now (stack_new E room)"
  using udp.inv_new tcp.reach_inv [OF tcp_init]
  by (simp add: net_inv_def stack_new_def)

lemma later_ok: "net_inv E cl cc ids now ns \<Longrightarrow> now \<le> now' \<Longrightarrow> net_inv E cl cc ids now' ns"
  using udp.inv_later by (auto simp: net_inv_def)

lemma udp_receive_ok:
  assumes inv: "net_inv E cl cc ids now ns" and n: "length ids < 2 ^ 63 - 1"
    and r: "udp_receive_data (ne_ids E) (ne_conns E) now p ti (ns_udp ns) = (u, es)"
  shows "net_inv E cl cc (ids @ event_cids es) now (ns\<lparr>ns_udp := u\<rparr>)"
proof -
  let ?u = "filter (\<lambda>i. \<not> is_tcp i) ids"
  have len: "length ?u < 2 ^ 63 - 1" using n length_filter_le order_le_less_trans by blast
  have "udp_inv cl cc ?u now (ns_udp ns)" using inv by (simp add: net_inv_def)
  from udp.receive_inv [OF this len r] have u: "udp_inv cl cc (?u @ event_cids es) now u" .
  then have "issued gen_udp (?u @ event_cids es)" by (simp add: udp_inv_def udp_ok_def)
  then have "\<not> is_tcp i" if "i \<in> set (event_cids es)" for i
    using issued_is_tcp [of gen_udp _ i] that by (auto simp: gen_udp_def)
  then have "filter is_tcp (event_cids es) = []" "filter (\<lambda>i. \<not> is_tcp i) (event_cids es) = event_cids es"
    by (auto simp: filter_empty_conv filter_id_conv)
  with u inv show ?thesis by (simp add: net_inv_def del: filter_map)
qed

lemma tcp_receive_ok:
  assumes inv: "net_inv E cl cc ids now ns" and n: "length ids < 2 ^ 63 - 1"
    and r: "tcp_receive_packet (ne_wire E) (ne_stack E) p ti (ns_tcp ns) = (es, Inr t)"
  shows "net_inv E cl cc (ids @ event_cids es) now (ns\<lparr>ns_tcp := t\<rparr>) \<and> length (events_of es) \<le> 1 \<and>
     commands_of es = [] \<and> vd_room (th_device t) = vd_room (th_device (ns_tcp ns))"
proof -
  let ?t = "filter is_tcp ids"
  have len: "length ?t < 2 ^ 63" using n length_filter_le [of is_tcp ids] by linarith
  have inv_t: "tcp_inv (ne_stack E) ?t (ns_tcp ns)" using inv by (simp add: net_inv_def)
  from inv_t len r show ?thesis
  proof (cases rule: tcp.tcp_receive_cases)
    case ignored
    then show ?thesis using inv by simp
  next
    case forwarded
    then show ?thesis using inv by (simp add: net_inv_def tcp_inv_def vd_receive_packet_def)
  next
    case (connected cid h a)
    have "issued gen_tcp (?t @ [cid])" using connected(8) by (simp add: tcp_inv_def tcp_ok_def)
    then have "is_tcp cid" using issued_is_tcp [of gen_tcp "?t @ [cid]" cid] by (simp add: gen_tcp_def)
    then show ?thesis using connected inv by (simp add: net_inv_def vd_receive_packet_def)
  qed
qed

lemma handle_network_event_ok:
  assumes inv: "net_inv E cl cc ids now ns" and n: "length ids < 2 ^ 63 - 1"
    and r: "handle_network_event E now ev ns = (es, Inr ns')"
  shows "net_inv E cl cc (ids @ event_cids es) now ns' \<and> length (events_of es) \<le> 1 \<and>
     net_room ns' + length (commands_of es) = net_room ns"
proof (cases ev)
  case (ReceivePacket packet ti)
  show ?thesis
  proof (cases "(case packet of V4 p \<Rightarrow> \<not> v4_verify_checksum (ne_wire E) p | V6 p \<Rightarrow> False)")
    case True
    with r ReceivePacket inv show ?thesis by simp
  next
    case False
    note r' = r [unfolded ReceivePacket handle_network_event.simps if_not_P [OF False]]
    show ?thesis
    proof (cases "transport_protocol (ne_wire E) packet")
      case Tcp
      with r' obtain t where "tcp_receive_packet (ne_wire E) (ne_stack E) packet ti (ns_tcp ns) = (es, Inr t)"
        and "ns' = ns\<lparr>ns_tcp := t\<rparr>" by (auto simp: run_bind_eq_Inr)
      then show ?thesis using tcp_receive_ok [OF inv n] by (simp add: net_room_def)
    next
      case Udp
      show ?thesis
      proof (cases "udp_try_from (ne_parse E) packet")
        case (Inr p)
        with r' Udp obtain u where u: "udp_receive_data (ne_ids E) (ne_conns E) now p ti (ns_udp ns) = (u, es)"
          and "ns' = ns\<lparr>ns_udp := u\<rparr>" by (auto simp: Let_def split: prod.splits)
        then show ?thesis using udp_receive_ok [OF inv n u] udp_receive_commands [OF u] by (simp add: net_room_def)
      qed (use r' Udp inv in simp)
    next
      case Icmp
      with r' have "receive_packet_icmp E packet ns = (es, Inr ns')" by simp
      from receive_packet_icmp_ok [OF this] inv show ?thesis by simp
    next
      case Icmpv6
      with r' have "receive_packet_icmp E packet ns = (es, Inr ns')" by simp
      from receive_packet_icmp_ok [OF this] inv show ?thesis by simp
    next
      case (OtherProtocol b)
      with r' inv show ?thesis by simp
    qed
  qed
qed

lemma handle_transport_command_ok:
  assumes inv: "net_inv E cl cc ids now ns" and n: "length ids < 2 ^ 63 - 1"
    and r: "handle_transport_command E now cmd ns = (es, Inr ns')"
  shows "net_inv E cl cc ids now ns' \<and> events_of es = [] \<and> net_room ns' + length (commands_of es) = net_room ns"
proof (cases "is_tcp (command_connection_id cmd)")
  case True
  with r obtain t where t: "tcp_handle_command cmd (ns_tcp ns) = (es, Inr t)" and ns': "ns' = ns\<lparr>ns_tcp := t\<rparr>"
    by (auto simp: handle_transport_command_def run_bind_eq_Inr)
  then show ?thesis
    using inv command_keys [OF t] tcp_command_quiet [OF t] by (simp add: net_inv_def tcp_inv_def net_room_def)
next
  case False
  with r obtain u es1 out where u: "udp_handle_command (ne_ids E) (ne_conns E) now cmd (ns_udp ns) = Inr (u, es1, out)"
    by (auto simp: handle_transport_command_def split: sum.splits)
  let ?u = "filter (\<lambda>i. \<not> is_tcp i) ids"
  have len: "length ?u < 2 ^ 63 - 1" using n length_filter_le order_le_less_trans by blast
  have "udp_inv cl cc ?u now (ns_udp ns)" using inv by (simp add: net_inv_def)
  from udp.apply_inv [OF this len, of "UCommand cmd" u es1 out] u udp_command_commands [OF u]
  have inv1: "net_inv E cl cc ids now (ns\<lparr>ns_udp := u\<rparr>)" using inv by (simp add: net_inv_def)
  have room: "net_room (ns\<lparr>ns_udp := u\<rparr>) = net_room ns" by (simp add: net_room_def)
  show ?thesis
  proof (cases out)
    case None
    with r u False inv1 room udp_command_commands [OF u] show ?thesis
      by (auto simp: handle_transport_command_def)
  next
    case (Some packet)
    with r u False obtain p es2 where "net_try_send p (ns\<lparr>ns_udp := u\<rparr>) = (es2, Inr ns')" and "es = es1 @ es2"
      by (auto simp: handle_transport_command_def run_bind_eq_Inr simp del: udp_into_smol.simps run_bind_simps split: sum.splits)
    with net_try_send_ok [OF this(1), of E cl cc ids now] inv1 room udp_command_commands [OF u] show ?thesis by simp
  qed
qed

lemma stack_poll_ok:
  assumes inv: "net_inv E cl cc ids now ns" and n: "length ids < 2 ^ 63 - 1"
  shows "\<exists>es ns'. stack_poll E now ns = (es, Inr ns') \<and> net_inv E cl cc ids now ns' \<and> events_of es = [] \<and>
     net_room ns' + length (commands_of es) = net_room ns"
proof -
  have "tcp_inv (ne_stack E) (filter is_tcp ids) (ns_tcp ns)" using inv by (simp add: net_inv_def)
  from tcp.tcp_poll_ok [OF this, of now] obtain es t where
    t: "tcp_poll (ne_stack E) now (ns_tcp ns) = (es, Inr t)" "tcp_inv (ne_stack E) (filter is_tcp ids) t" "events_of es = []"
    by blast
  then show ?thesis
    using inv udp.poll_inv tcp.tcp_poll_room [OF t(1)] by (auto simp: stack_poll_def net_inv_def net_room_def Let_def)
qed

lemma handle_events_ok:
  assumes "net_inv E cl cc ids now ns" and "length ids + length evs < 2 ^ 63 - 1"
    and "handle_events E now evs ns = (es, Inr ns')"
  shows "net_inv E cl cc (ids @ event_cids es) now ns' \<and> length (events_of es) \<le> length evs \<and>
     net_room ns' + length (commands_of es) = net_room ns"
  using assms
proof (induction evs arbitrary: ids ns es)
  case (Cons ev evs)
  from Cons.prems(3) obtain es1 ns1 es2 where 1: "handle_network_event E now ev ns = (es1, Inr ns1)"
    and 2: "handle_events E now evs ns1 = (es2, Inr ns')" and es: "es = es1 @ es2"
    by (auto simp: run_bind_eq_Inr simp del: handle_network_event.simps)
  from handle_network_event_ok [OF Cons.prems(1) _ 1] Cons.prems(2)
  have ok1: "net_inv E cl cc (ids @ event_cids es1) now ns1" "length (events_of es1) \<le> 1"
    "net_room ns1 + length (commands_of es1) = net_room ns" by auto
  from Cons.IH [OF ok1(1) _ 2] ok1(2) Cons.prems(2)
  have "net_inv E cl cc ((ids @ event_cids es1) @ event_cids es2) now ns'" "length (events_of es2) \<le> length evs"
    "net_room ns' + length (commands_of es2) = net_room ns1" by auto
  then show ?case using ok1 es by simp
qed simp

lemma handle_pending_ok:
  assumes "net_inv E cl cc ids now ns" and "length ids < 2 ^ 63 - 1" and "handle_pending E now cmds ns = (es, Inr ns')"
  shows "net_inv E cl cc ids now ns' \<and> events_of es = [] \<and> net_room ns' + length (commands_of es) = net_room ns"
  using assms
proof (induction cmds arbitrary: ns es)
  case (Cons c cs)
  show ?case
  proof (cases "0 < net_room ns")
    case True
    with Cons.prems(3) obtain es1 ns1 es2 where 1: "handle_transport_command E now c ns = (es1, Inr ns1)"
      and 2: "handle_pending E now cs ns1 = (es2, Inr ns')" and es: "es = es1 @ es2"
      by (auto simp: run_bind_eq_Inr)
    from handle_transport_command_ok [OF Cons.prems(1,2) 1]
    have ok1: "net_inv E cl cc ids now ns1" "events_of es1 = []" "net_room ns1 + length (commands_of es1) = net_room ns"
      by auto
    from Cons.IH [OF ok1(1) Cons.prems(2) 2] ok1 es show ?thesis by simp
  qed (use Cons.prems in simp)
qed simp

lemma after_arm_ok:
  assumes "net_inv E cl cc ids now ns" and "length ids < 2 ^ 63 - 1" and "after_arm E now permit ns = (es, Inr r)"
  shows "\<exists>st. r = Some st \<and> net_inv E cl cc ids now (nt_io st) \<and> events_of es = [] \<and>
     net_room (nt_io st) + length (commands_of es) = net_room ns"
  using assms stack_poll_ok [OF assms(1,2)] by (auto simp: after_arm_def run_bind_eq_Inr)

lemma task_round_ok:
  assumes inv: "net_inv E cl cc ids now (nt_io st)" and n: "length ids + input_permits inp < 2 ^ 63 - 1"
    and r: "task_round E now inp st = (es, Inr (Some st'))"
  shows "net_inv E cl cc (ids @ event_cids es) now (nt_io st') \<and> length (events_of es) \<le> input_permits inp \<and>
     net_room (nt_io st') + length (commands_of es) = net_room (nt_io st)"
proof (cases inp)
  case TTimeout
  with r n after_arm_ok [OF inv] show ?thesis by fastforce
next
  case (TEvents e evs)
  with r obtain es1 ns1 es2 ns2 es3 where 1: "handle_network_event E now e (nt_io st) = (es1, Inr ns1)"
    and 2: "handle_events E now evs ns1 = (es2, Inr ns2)" and 3: "after_arm E now False ns2 = (es3, Inr (Some st'))"
    and es: "es = es1 @ es2 @ es3"
    by (auto simp: run_bind_eq_Inr simp del: handle_network_event.simps)
  from handle_network_event_ok [OF inv _ 1] n TEvents
  have ok1: "net_inv E cl cc (ids @ event_cids es1) now ns1" "length (events_of es1) \<le> 1"
    "net_room ns1 + length (commands_of es1) = net_room (nt_io st)" by auto
  from handle_events_ok [OF ok1(1) _ 2] ok1(2) n TEvents
  have ok2: "net_inv E cl cc (ids @ event_cids es1 @ event_cids es2) now ns2" "length (events_of es2) \<le> length evs"
    "net_room ns2 + length (commands_of es2) = net_room ns1" by auto
  from after_arm_ok [OF ok2(1) _ 3] ok1(2) ok2(2) n TEvents
  have "net_inv E cl cc (ids @ event_cids es1 @ event_cids es2) now (nt_io st')" "events_of es3 = []"
    "net_room (nt_io st') + length (commands_of es3) = net_room ns2" by auto
  then show ?thesis using ok1 ok2 es TEvents by simp
next
  case (TCommands c cs)
  with r obtain es1 ns1 es2 ns2 es3 where 1: "handle_transport_command E now c (nt_io st) = (es1, Inr ns1)"
    and 2: "handle_pending E now cs ns1 = (es2, Inr ns2)" and 3: "after_arm E now (nt_permit st) ns2 = (es3, Inr (Some st'))"
    and es: "es = es1 @ es2 @ es3"
    by (auto simp: run_bind_eq_Inr)
  have n': "length ids < 2 ^ 63 - 1" using n by simp
  note ok1 = handle_transport_command_ok [OF inv n' 1]
  note ok2 = handle_pending_ok [OF conjunct1 [OF ok1] n' 2]
  from after_arm_ok [OF conjunct1 [OF ok2] n' 3] ok1 ok2 es TCommands show ?thesis by auto
qed (use r inv in auto)

lemma reach_ok:
  "task_reach E n ids now st \<Longrightarrow> n < 2 ^ 63 - 1 \<Longrightarrow>
   net_inv E cl cc ids now (nt_io st) \<and> length ids \<le> n \<and> net_room (nt_io st) \<le> NETWORK_CHANNEL_SIZE"
proof (induction rule: task_reach.induct)
  case (task_init now)
  show ?case using stack_new_ok
    by (simp add: task_new_def) (simp add: stack_new_def net_room_def tcp_new_def vd_new_def)
next
  case (task_next n ids now st now' inp es st')
  then have "net_inv E cl cc ids now' (nt_io st)" "length ids \<le> n" "net_room (nt_io st) \<le> NETWORK_CHANNEL_SIZE"
    using later_ok by auto
  with task_round_ok [OF this(1) _ task_next.hyps(4)] task_next.prems show ?case by auto
next
  case (task_drained n ids now st r)
  then show ?case by (simp add: net_inv_def)
qed

end

subsection \<open>Properties\<close>

text \<open>
  C2. The network task respects the capacity of both its channels.  A round raises at most as many
  events to Python as it holds permits (one per packet it processes, none when it processes none),
  and every packet it sends to the packet source uses up exactly one free slot of that channel,
  which has at most 256: neither channel ever overflows.
\<close>

theorem network_task_capacity:
  assumes "network_laws E ttl cl cc rx tx may_send"
    and "task_reach E n ids now st" and "now \<le> t" and "n + input_permits inp < 2 ^ 63 - 1"
    and "task_round E t inp st = (es, Inr (Some st'))"
  shows "length (events_of es) \<le> input_permits inp \<and>
     net_room (nt_io st') + length (commands_of es) = net_room (nt_io st) \<and>
     net_room (nt_io st) \<le> NETWORK_CHANNEL_SIZE"
proof -
  from assms(4) have "n < 2 ^ 63 - 1" by simp
  from network_laws.reach_ok [OF assms(1,2) this]
  have ok: "net_inv E cl cc ids now (nt_io st)" "length ids \<le> n" "net_room (nt_io st) \<le> NETWORK_CHANNEL_SIZE" by auto
  have "length ids + input_permits inp < 2 ^ 63 - 1" using ok(2) assms(4) by linarith
  from network_laws.task_round_ok [OF assms(1) network_laws.later_ok [OF assms(1) ok(1) assms(3)] this assms(5)] ok(3)
  show ?thesis by blast
qed

text \<open>
  C3. Connection ids identify connections across protocols: all ids the network task ever announces
  to Python, by TCP and by UDP, are pairwise distinct, and the parity of an id tells which handler
  owns it, so a command always reaches the handler that announced the connection.
\<close>

theorem network_ids_distinct:
  assumes "network_laws E ttl cl cc rx tx may_send" and "task_reach E n ids now st" and "n < 2 ^ 63 - 1"
  shows "distinct ids \<and>
     fst ` set (th_socket_data (ns_tcp (nt_io st))) \<subseteq> {i \<in> set ids. is_tcp i} \<and>
     dom (cc now (uh_connections (ns_udp (nt_io st)))) \<subseteq> {i \<in> set ids. \<not> is_tcp i}"
proof -
  let ?t = "filter is_tcp ids" and ?u = "filter (\<lambda>i. \<not> is_tcp i) ids"
  from network_laws.reach_ok [OF assms]
  have t: "tcp_ok ?t (th_generator (ns_tcp (nt_io st))) (map conn_key (th_socket_data (ns_tcp (nt_io st))))
      (th_active (ns_tcp (nt_io st))) (dom (set_get (ne_stack E) (th_sockets (ns_tcp (nt_io st)))))"
    and u: "udp_ok ?u (uh_generator (ns_udp (nt_io st))) (cl now (uh_id_lookup (ns_udp (nt_io st)))) (cc now (uh_connections (ns_udp (nt_io st))))"
    and len: "length ids \<le> n"
    by (auto simp: net_inv_def tcp_inv_def udp_inv_def)
  have len': "length ?t < 2 ^ 63" "length ?u < 2 ^ 63"
    using len assms(3) length_filter_le [of is_tcp ids] length_filter_le [of "\<lambda>i. \<not> is_tcp i" ids] by linarith+
  have "distinct ?t" using issued_distinct [OF _ len'(1)] t unfolding tcp_ok_def by blast
  moreover have "distinct ?u" using issued_distinct [OF _ len'(2)] u unfolding udp_ok_def by blast
  ultimately have "distinct ids" by (induction ids) (auto split: if_splits)
  moreover have "fst ` set (th_socket_data (ns_tcp (nt_io st))) \<subseteq> set ?t"
    using t by (simp add: tcp_ok_def image_image conn_key_eq)
  moreover have "dom (cc now (uh_connections (ns_udp (nt_io st)))) \<subseteq> set ?u"
    using udp_ok_state [OF u] by fastforce
  ultimately show ?thesis by simp
qed

text \<open>
  C19. A SYN that smoltcp refuses to listen for ends the whole network task: the error of
  \<^verbatim>\<open>socket.listen\<close> is passed up through \<^verbatim>\<open>receive_packet\<close> and
  \<^verbatim>\<open>handle_network_event\<close> out of the loop of \<^verbatim>\<open>run\<close>.  smoltcp refuses port 0.
\<close>

theorem refused_syn_ends_task:
  assumes "transport_protocol (ne_wire E) p = Tcp" and "\<forall>b. p = V4 b \<longrightarrow> v4_verify_checksum (ne_wire E) b"
    and "tcp_checked (ne_stack E) (payload (ne_wire E) p)"
    and "tcp_verify_checksum (ne_stack E) (src_ip (ne_wire E) p) (dst_ip (ne_wire E) p) (payload (ne_wire E) p)"
    and "tcp_syn (ne_stack E) (payload (ne_wire E) p)" and "\<not> tcp_ack (ne_stack E) (payload (ne_wire E) p)"
    and "(sock_new (src_ip (ne_wire E) p) (tcp_src_port (ne_stack E) (payload (ne_wire E) p)), dst) \<notin> th_active (ns_tcp (nt_io st))"
    and "dst = sock_new (dst_ip (ne_wire E) p) (tcp_dst_port (ne_stack E) (payload (ne_wire E) p))"
    and "sock_listen (ne_stack E) dst (sock_create (ne_stack E) (64 * 1024) (64 * 1024)) = Inl err"
  shows "task_round E now (TEvents (ReceivePacket p ti) evs) st = ([], Inl err)"
proof -
  have "(case p of V4 b \<Rightarrow> \<not> v4_verify_checksum (ne_wire E) b | V6 b \<Rightarrow> False) = False"
    using assms(2) by (cases p) auto
  moreover have "tcp_receive_packet (ne_wire E) (ne_stack E) p ti (ns_tcp (nt_io st)) = ([], Inl err)"
    using assms(3-9) by (simp add: tcp_receive_packet_def Let_def)
  ultimately show ?thesis using assms(1) by simp
qed

subsection \<open>Witnesses\<close>

definition basic_parse :: packet_parser where
  "basic_parse packet =
     (let p = payload basic_wire packet in
      if length p < 8 then None
      else Some \<lparr>ip_src = sock_new (src_ip basic_wire packet) (be_word (take 2 p)),
                 ip_dst = sock_new (dst_ip basic_wire packet) (be_word (take 2 (drop 2 p))),
                 ip_payload = drop 8 p, ip_tcp_syn = False\<rparr>)"

definition basic_env where
  "basic_env = \<lparr>ne_wire = basic_wire, ne_stack = queue_stack, ne_ids = timed_ids, ne_conns = timed_conns,
     ne_emit = basic_emit, ne_icmp = basic_icmp, ne_parse = basic_parse\<rparr>"

interpretation basic_net: network_laws basic_env UDP_TIMEOUT "timed_content UDP_TIMEOUT" "timed_content UDP_TIMEOUT"
  qs_rx qs_tx qs_may_send
  by (simp add: network_laws_def basic_env_def timed_udp.udp_caches_axioms queue_tcp.tcp_laws_axioms)

definition permitted_task where
  "permitted_task = (task_new basic_env)\<lparr>nt_permit := True\<rparr>"

lemma permitted_task_reached: "task_reach basic_env 0 [] 0 permitted_task"
  using task_next [OF task_init [of basic_env 0], of 0 TPermit "[]" permitted_task]
  by (simp add: permitted_task_def task_new_def)

lemma basic_env_sel [simp]:
  "ne_wire basic_env = basic_wire" "ne_stack basic_env = queue_stack" "ne_ids basic_env = timed_ids" "ne_conns basic_env = timed_conns"
  by (simp_all add: basic_env_def)

lemma syn_round:
  "\<exists>es st'. task_round basic_env 0 (TEvents (ReceivePacket syn_packet NoTunnel) []) permitted_task = (es, Inr (Some st')) \<and>
     event_cids es = [ConnectionId 2]"
proof -
  obtain b where b: "syn_packet = V4 b" "v4_verify_checksum basic_wire b" "v4_next_header basic_wire b = Tcp"
    by (simp add: syn_packet_def basic_wire_def protocol_of_def)
  obtain t where t: "tcp_receive_packet basic_wire queue_stack syn_packet NoTunnel (tcp_new queue_stack NETWORK_CHANNEL_SIZE) =
     ([EmitEvent (ConnectionEstablished (ConnectionId 2) (fst syn_addrs) (snd syn_addrs) NoTunnel None)], Inr t)"
    by (simp add: tcp_receive_packet_def syn_packet_def syn_addrs_def basic_wire_def queue_stack_def tcp_new_def be_word_def
        next_id_def gen_tcp_def Let_def)
  let ?ns = "(stack_new basic_env NETWORK_CHANNEL_SIZE)\<lparr>ns_tcp := t\<rparr>"
  let ?es = "[EmitEvent (ConnectionEstablished (ConnectionId 2) (fst syn_addrs) (snd syn_addrs) NoTunnel None)]"
  have ev: "handle_network_event basic_env 0 (ReceivePacket syn_packet NoTunnel) (stack_new basic_env NETWORK_CHANNEL_SIZE) = (?es, Inr ?ns)"
    using t b(2,3) unfolding b(1) by (simp add: stack_new_def)
  from basic_net.handle_network_event_ok [OF basic_net.stack_new_ok _ ev]
  have "net_inv basic_env (timed_content UDP_TIMEOUT) (timed_content UDP_TIMEOUT) [ConnectionId 2] 0 ?ns" by simp
  from basic_net.stack_poll_ok [OF this] obtain es ns where "stack_poll basic_env 0 ?ns = (es, Inr ns)" "events_of es = []"
    by auto
  then show ?thesis using ev
    by (simp add: permitted_task_def task_new_def after_arm_def del: handle_network_event.simps)
qed

theorem network_task_capacity_witness:
  "\<exists>es st'. task_round basic_env 0 (TEvents (ReceivePacket syn_packet NoTunnel) []) permitted_task = (es, Inr (Some st')) \<and>
     length (events_of es) \<le> 1 \<and> net_room (nt_io st') + length (commands_of es) = net_room (nt_io permitted_task)"
proof -
  obtain es st' where r: "task_round basic_env 0 (TEvents (ReceivePacket syn_packet NoTunnel) []) permitted_task = (es, Inr (Some st'))"
    using syn_round by blast
  from network_task_capacity [OF basic_net.network_laws_axioms permitted_task_reached _ _ r] r show ?thesis by simp
qed

theorem network_ids_distinct_witness:
  "\<exists>st. task_reach basic_env 1 [ConnectionId 2] 0 st \<and> distinct [ConnectionId 2]"
proof -
  obtain es st' where r: "task_round basic_env 0 (TEvents (ReceivePacket syn_packet NoTunnel) []) permitted_task = (es, Inr (Some st'))"
    and "event_cids es = [ConnectionId 2]"
    using syn_round by metis
  then have "task_reach basic_env 1 [ConnectionId 2] 0 st'"
    using task_next [OF permitted_task_reached _ _ r] by (simp add: permitted_task_def)
  with network_ids_distinct [OF basic_net.network_laws_axioms this] show ?thesis by auto
qed

text \<open>A SYN from 10.0.0.1:5000 to port 0 of 8.8.8.8.\<close>

definition syn_port_0 :: smol_packet where
  "syn_port_0 = V4 ([69, 0, 0, 40, 0, 0, 0, 0, 64, 6, 0, 0, 10, 0, 0, 1, 8, 8, 8, 8,
                     19, 136, 0, 0, 0, 0, 0, 1, 0, 0, 0, 0, 80, 2, 255, 255, 0, 0, 0, 0])"

theorem refused_syn_ends_task_witness:
  "task_round basic_env 0 (TEvents (ReceivePacket syn_port_0 NoTunnel) []) permitted_task = ([], Inl (Failed ''unaddressable''))"
  by (rule refused_syn_ends_task [where dst = "SockV4 134744072 0"])
    (simp_all add: syn_port_0_def basic_wire_def queue_stack_def protocol_of_def be_word_def permitted_task_def task_new_def
      stack_new_def tcp_new_def)

end
