(* ===== verification/Intercept_Conf.thy ===== *)
theory Intercept_Conf
  imports Prelude
begin

text \<open>
  \<^verbatim>\<open>src/intercept_conf.rs\<close>: the interception specification (a list of include and exclude
  patterns), its parser and printer, and the decision whether a process is intercepted.  The
  decision loop is shown to be "the last matching action decides", through the locale
  \<open>last_match\<close>, which the eBPF program of the Linux redirector interprets a second time.
\<close>

subsection \<open>Data\<close>

record process_info =
  pi_pid :: u32
  pi_process_name :: "string option"

datatype pattern = Pid u32 | Process string

datatype action = Include pattern | Exclude pattern

record intercept_conf =
  conf_default :: bool
  conf_actions :: "action list"

subsection \<open>Matching\<close>

fun pattern_matches :: "pattern \<Rightarrow> process_info \<Rightarrow> bool" where
  "pattern_matches (Pid p) info \<longleftrightarrow> pi_pid info = p"
| "pattern_matches (Process name) info \<longleftrightarrow>
     (case pi_process_name info of None \<Rightarrow> False | Some n \<Rightarrow> str_contains n name)"

subsection \<open>Parsing\<close>

definition pattern_try_from :: "string \<Rightarrow> pattern res" where
  "pattern_try_from s =
     (let value = trim s in
      if value = [] then Inl (Failed ''pattern must not be empty'')
      else Inr (case parse_u32 value of Some p \<Rightarrow> Pid p | None \<Rightarrow> Process value))"

definition action_try_from :: "string \<Rightarrow> action res" where
  "action_try_from s =
     (let value = trim s in
      case strip_prefix (CHR ''!'') value of
        Some rest \<Rightarrow> res_bind (pattern_try_from rest) (\<lambda>p. Inr (Exclude p))
      | None \<Rightarrow> res_bind (pattern_try_from value) (\<lambda>p. Inr (Include p)))"

definition conf_new :: "action list \<Rightarrow> intercept_conf" where
  "conf_new as =
     \<lparr>conf_default = (case as of Exclude _ # _ \<Rightarrow> True | _ \<Rightarrow> False), conf_actions = as\<rparr>"

definition conf_disabled :: intercept_conf where
  "conf_disabled = conf_new []"

definition conf_try_from_vec :: "string list \<Rightarrow> intercept_conf res" where
  "conf_try_from_vec value = res_bind (map_res action_try_from value) (\<lambda>as. Inr (conf_new as))"

definition conf_try_from :: "string \<Rightarrow> intercept_conf res" where
  "conf_try_from value =
     (let val = trim value in
      if val = [] then Inr (conf_new [])
      else (case conf_try_from_vec (split_on (CHR '','') val) of
              Inl _ \<Rightarrow> Inl (Failed (''invalid intercept spec: '' @ value))
            | Inr c \<Rightarrow> Inr c))"

subsection \<open>Printing\<close>

fun pattern_to_string :: "pattern \<Rightarrow> string" where
  "pattern_to_string (Pid p) = show_u32 p"
| "pattern_to_string (Process name) = name"

fun action_to_string :: "action \<Rightarrow> string" where
  "action_to_string (Include p) = pattern_to_string p"
| "action_to_string (Exclude p) = ''!'' @ pattern_to_string p"

definition conf_action_strings :: "intercept_conf \<Rightarrow> string list" where
  "conf_action_strings c = map action_to_string (conf_actions c)"

fun action_description :: "action \<Rightarrow> string" where
  "action_description (Include (Pid p)) = ''Include PID '' @ show_u32 p @ ''.''"
| "action_description (Include (Process name)) =
     ''Include processes matching '' @ [CHR 0x22] @ name @ [CHR 0x22] @ ''.''"
| "action_description (Exclude (Pid p)) = ''Exclude PID '' @ show_u32 p @ ''.''"
| "action_description (Exclude (Process name)) =
     ''Exclude processes matching '' @ [CHR 0x22] @ name @ [CHR 0x22] @ ''.''"

definition conf_description :: "intercept_conf \<Rightarrow> string" where
  "conf_description c =
     (if conf_actions c = [] then ''Intercept nothing.''
      else join_with '' '' (map action_description (conf_actions c)))"

subsection \<open>The decision\<close>

definition intercept_step :: "process_info \<Rightarrow> bool \<Rightarrow> action \<Rightarrow> bool" where
  "intercept_step info intercept a =
     (case a of
        Include pat \<Rightarrow> intercept \<or> pattern_matches pat info
      | Exclude pat \<Rightarrow> intercept \<and> \<not> pattern_matches pat info)"

definition should_intercept :: "intercept_conf \<Rightarrow> process_info \<Rightarrow> bool" where
  "should_intercept c info = foldl (intercept_step info) (conf_default c) (conf_actions c)"

subsection \<open>The last matching action decides\<close>

text \<open>
  The contract of a decision loop over actions: an including action can only switch the decision
  on and an excluding one only off, each when it hits.  Whoever satisfies it computes the verdict
  of the last action that hits.
\<close>

locale last_match =
  fixes incl :: "'a \<Rightarrow> bool"
    and hits :: "'i \<Rightarrow> 'a \<Rightarrow> bool"
    and step :: "'i \<Rightarrow> bool \<Rightarrow> 'a \<Rightarrow> bool"
  assumes step_include: "incl a \<Longrightarrow> step i b a \<longleftrightarrow> b \<or> hits i a"
    and step_exclude: "\<not> incl a \<Longrightarrow> step i b a \<longleftrightarrow> b \<and> \<not> hits i a"
begin

lemma step_hit: "hits i a \<Longrightarrow> step i b a = incl a"
  using step_include step_exclude by (cases "incl a") auto

lemma step_miss: "\<not> hits i a \<Longrightarrow> step i b a = b"
  using step_include step_exclude by (cases "incl a") auto

lemma decision:
  "foldl (step i) d as = (case find (hits i) (rev as) of None \<Rightarrow> d | Some a \<Rightarrow> incl a)"
  by (induction as rule: rev_induct) (auto simp: step_hit step_miss)

lemma no_hit: "(\<And>a. a \<in> set as \<Longrightarrow> \<not> hits i a) \<Longrightarrow> foldl (step i) d as = d"
  by (induction as arbitrary: d) (auto simp: step_miss)

end

fun action_includes :: "action \<Rightarrow> bool" where
  "action_includes (Include p) = True"
| "action_includes (Exclude p) = False"

fun action_pattern :: "action \<Rightarrow> pattern" where
  "action_pattern (Include p) = p"
| "action_pattern (Exclude p) = p"

interpretation conf: last_match action_includes "\<lambda>info a. pattern_matches (action_pattern a) info" intercept_step
proof unfold_locales
  fix a :: action and i b
  show "action_includes a \<Longrightarrow> intercept_step i b a \<longleftrightarrow> b \<or> pattern_matches (action_pattern a) i"
    by (cases a) (auto simp: intercept_step_def)
  show "\<not> action_includes a \<Longrightarrow> intercept_step i b a \<longleftrightarrow> b \<and> \<not> pattern_matches (action_pattern a) i"
    by (cases a) (auto simp: intercept_step_def)
qed

lemma conf_actions_new [simp]: "conf_actions (conf_new as) = as"
  by (simp add: conf_new_def)

text \<open>
  C17. A process is intercepted according to the last action of the specification whose pattern
  matches it: intercepted if that action includes, not intercepted if it excludes; if no action
  matches, the default decides, which is to intercept exactly when the first action excludes.
\<close>

theorem should_intercept_last_match:
  "should_intercept (conf_new as) info =
     (case find (\<lambda>a. pattern_matches (action_pattern a) info) (rev as) of
        Some a \<Rightarrow> action_includes a
      | None \<Rightarrow> as \<noteq> [] \<and> \<not> action_includes (hd as))"
proof -
  have "conf_default (conf_new as) \<longleftrightarrow> as \<noteq> [] \<and> \<not> action_includes (hd as)"
    by (cases as; cases "hd as") (simp_all add: conf_new_def)
  then show ?thesis by (simp add: should_intercept_def conf.decision)
qed

subsection \<open>Round trip through the printed actions\<close>

text \<open>What the parser produces: patterns that print to what parses back to them.\<close>

fun wf_pattern :: "pattern \<Rightarrow> bool" where
  "wf_pattern (Pid p) = True"
| "wf_pattern (Process s) \<longleftrightarrow> trimmed s \<and> s \<noteq> [] \<and> parse_u32 s = None"

fun wf_action :: "action \<Rightarrow> bool" where
  "wf_action (Exclude p) = wf_pattern p"
| "wf_action (Include (Pid p)) = True"
| "wf_action (Include (Process s)) \<longleftrightarrow> wf_pattern (Process s) \<and> hd s \<noteq> CHR ''!''"

lemma pattern_try_from_wf: "pattern_try_from s = Inr p \<Longrightarrow> wf_pattern p"
  by (auto simp: pattern_try_from_def Let_def split: if_splits option.splits)

lemma pattern_roundtrip: "wf_pattern p \<Longrightarrow> pattern_try_from (pattern_to_string p) = Inr p"
  by (cases p) (simp_all add: pattern_try_from_def show_u32_def parse_show_u32 [unfolded show_u32_def])

lemma action_try_from_wf: "action_try_from s = Inr a \<Longrightarrow> wf_action a"
proof -
  assume a: "action_try_from s = Inr a"
  show "wf_action a"
  proof (cases "strip_prefix (CHR ''!'') (trim s)")
    case (Some rest)
    with a show ?thesis
      by (auto simp: action_try_from_def res_bind_eq_Inr dest: pattern_try_from_wf)
  next
    case None
    then have ne: "trim s \<noteq> [] \<Longrightarrow> hd (trim s) \<noteq> CHR ''!''" by (cases "trim s") (auto split: if_splits)
    from a None obtain p where p: "pattern_try_from (trim s) = Inr p" and "a = Include p"
      by (auto simp: action_try_from_def res_bind_eq_Inr)
    with ne show ?thesis
      by (auto simp: pattern_try_from_def Let_def split: if_splits option.splits)
  qed
qed

lemma white_space_no_bang: "p \<in> set white_space \<Longrightarrow> CHR ''!'' \<notin> set p"
proof -
  have "list_all (\<lambda>p. CHR ''!'' \<notin> set p) white_space" by (simp add: white_space_def)
  then show "p \<in> set white_space \<Longrightarrow> CHR ''!'' \<notin> set p" by (auto simp: list_all_iff)
qed

lemma trimmed_bang: "trimmed s \<Longrightarrow> s \<noteq> [] \<Longrightarrow> trimmed (CHR ''!'' # s)"
proof -
  assume s: "trimmed s" and ne: "s \<noteq> []"
  have "strip_one white_space (CHR ''!'' # s) = None"
    by (rule strip_one_white_space_None) (use white_space_no_bang hd_in_set in \<open>fastforce+\<close>)
  moreover have "take (length p) (rev s @ ''!'') \<noteq> p"
    if p: "p \<in> set (map rev white_space)" "p \<noteq> []" for p
  proof
    assume eq: "take (length p) (rev s @ ''!'') = p"
    have "CHR ''!'' \<notin> set p" using p white_space_no_bang by auto
    moreover have "p = rev s @ ''!''" if "\<not> length p \<le> length (rev s)"
      using that eq by simp
    ultimately have "length p \<le> length (rev s)" by fastforce
    with eq s p show False by (auto simp: trimmed_def strip_one_None_iff)
  qed
  ultimately show ?thesis by (simp add: trimmed_def strip_one_None_iff)
qed

lemma pattern_string_trimmed: "wf_pattern p \<Longrightarrow> trimmed (pattern_to_string p) \<and> pattern_to_string p \<noteq> []"
  by (cases p) (simp_all add: show_u32_def)

lemma show_u32_no_bang: "strip_prefix (CHR ''!'') (show_u32 p) = None"
proof -
  obtain d where "d < 10" and "hd (show_u32 p) = digit_char d"
    using hd_show_nat by (auto simp: show_u32_def)
  then have "hd (show_u32 p) \<noteq> CHR ''!''" using digit_char_neq [of d "CHR ''!''"] by simp
  then show ?thesis by (cases "show_u32 p") auto
qed

lemma action_roundtrip: "wf_action a \<Longrightarrow> action_try_from (action_to_string a) = Inr a"
proof (cases a)
  case (Exclude p)
  assume "wf_action a"
  with Exclude show ?thesis
    using pattern_roundtrip [of p] pattern_string_trimmed [of p] trimmed_bang [of "pattern_to_string p"]
    by (simp add: action_try_from_def)
next
  case (Include p)
  assume wf: "wf_action a"
  then have wfp: "wf_pattern p" using Include by (cases p) auto
  have "strip_prefix (CHR ''!'') (pattern_to_string p) = None"
    using wf Include show_u32_no_bang by (cases p) (auto simp: strip_prefix_def split: list.splits)
  then show ?thesis using Include wfp pattern_roundtrip [of p] pattern_string_trimmed [of p]
    by (simp add: action_try_from_def)
qed

definition wf_conf :: "intercept_conf \<Rightarrow> bool" where
  "wf_conf c \<longleftrightarrow> c = conf_new (conf_actions c) \<and> (\<forall>a\<in>set (conf_actions c). wf_action a)"

lemma conf_try_from_vec_wf: "conf_try_from_vec ss = Inr c \<Longrightarrow> wf_conf c"
proof -
  assume "conf_try_from_vec ss = Inr c"
  then obtain as where as: "map_res action_try_from ss = Inr as" and c: "c = conf_new as"
    by (auto simp: conf_try_from_vec_def res_bind_eq_Inr)
  have "wf_action a" if "a \<in> set as" for a
  proof -
    from as have "map action_try_from ss = map Inr as" by (simp add: map_res_Inr_iff)
    with that have "Inr a \<in> set (map action_try_from ss)" by simp
    then show ?thesis using action_try_from_wf by auto
  qed
  with c show ?thesis by (simp add: wf_conf_def)
qed

lemma conf_try_from_wf: "conf_try_from s = Inr c \<Longrightarrow> wf_conf c"
  by (auto simp: conf_try_from_def Let_def wf_conf_def [of "conf_new []"]
      split: if_splits sum.splits dest: conf_try_from_vec_wf)

lemma conf_vec_roundtrip: "wf_conf c \<Longrightarrow> conf_try_from_vec (conf_action_strings c) = Inr c"
proof -
  assume wf: "wf_conf c"
  then have "map_res action_try_from (conf_action_strings c) = Inr (map (\<lambda>a. a) (conf_actions c))"
    unfolding conf_action_strings_def map_res_map
    by (intro map_res_all_Inr) (auto simp: wf_conf_def action_roundtrip)
  then show ?thesis using wf by (simp add: conf_try_from_vec_def wf_conf_def)
qed

text \<open>
  C18. The specification survives the IPC: whatever specification string the user gives, if it
  parses to a configuration, then printing the configuration's actions and parsing the printed
  actions again (what the redirectors do on the other side of the pipe) yields the same
  configuration.
\<close>

theorem intercept_conf_roundtrip:
  assumes "conf_try_from s = Inr c"
  shows "conf_try_from_vec (conf_action_strings c) = Inr c"
  using assms by (intro conf_vec_roundtrip conf_try_from_wf)

theorem intercept_conf_roundtrip_witness:
  "conf_try_from '' !1234 , mitm'' = Inr (conf_new [Exclude (Pid 1234), Include (Process ''mitm'')]) \<and>
   conf_try_from_vec (conf_action_strings (conf_new [Exclude (Pid 1234), Include (Process ''mitm'')]))
     = Inr (conf_new [Exclude (Pid 1234), Include (Process ''mitm'')])"
proof -
  have "conf_try_from '' !1234 , mitm'' = Inr (conf_new [Exclude (Pid 1234), Include (Process ''mitm'')])"
    by (simp add: conf_try_from_def conf_try_from_vec_def action_try_from_def pattern_try_from_def Let_def
        trim_eval parse_u32_def parse_uint_def digit_val_def)
  then show ?thesis using intercept_conf_roundtrip by blast
qed

subsection \<open>What is rejected\<close>

text \<open>A piece is blank when it has no pattern: white space, or \<open>!\<close> and white space.\<close>

definition blank_piece :: "string \<Rightarrow> bool" where
  "blank_piece s \<longleftrightarrow>
     (case strip_prefix (CHR ''!'') (trim s) of Some r \<Rightarrow> trim r = [] | None \<Rightarrow> trim s = [])"

lemma pattern_try_from_Inl: "(\<exists>e. pattern_try_from s = Inl e) \<longleftrightarrow> trim s = []"
  by (auto simp: pattern_try_from_def Let_def)

lemma action_try_from_Inl: "(\<exists>e. action_try_from s = Inl e) \<longleftrightarrow> blank_piece s"
proof -
  have r: "(\<exists>e. res_bind m (\<lambda>p. Inr (f p)) = Inl e) \<longleftrightarrow> (\<exists>e. m = Inl e)" for m :: "'x res" and f
    by (cases m) auto
  show ?thesis
    by (auto simp: action_try_from_def blank_piece_def r pattern_try_from_Inl Let_def split: option.splits)
qed

lemma map_res_fails: "(\<exists>e. map_res f xs = Inl e) \<longleftrightarrow> (\<exists>x\<in>set xs. \<exists>e. f x = Inl e)"
  by (induction xs) (auto split: sum.splits)

text \<open>
  A specification string is rejected exactly when it is not blank and one of its
  comma-separated pieces has no pattern; the blank specification is accepted and intercepts
  nothing.
\<close>

theorem conf_try_from_rejects:
  "(\<exists>e. conf_try_from s = Inl e) \<longleftrightarrow>
     trim s \<noteq> [] \<and> (\<exists>p\<in>set (split_on (CHR '','') (trim s)). blank_piece p)"
proof -
  have "(\<exists>e. conf_try_from_vec ss = Inl e) \<longleftrightarrow> (\<exists>p\<in>set ss. blank_piece p)" for ss
  proof -
    have "(\<exists>e. conf_try_from_vec ss = Inl e) \<longleftrightarrow> (\<exists>e. map_res action_try_from ss = Inl e)"
      by (cases "map_res action_try_from ss") (auto simp: conf_try_from_vec_def)
    then show ?thesis by (simp add: map_res_fails action_try_from_Inl)
  qed
  then have vec: "(\<exists>p\<in>set ss. blank_piece p) \<longleftrightarrow> (\<exists>e. conf_try_from_vec ss = Inl e)" for ss
    by blast
  show ?thesis
    unfolding vec by (auto simp: conf_try_from_def Let_def split: sum.splits)
qed

end
