(* ===== verification/Ipc.thy ===== *)
theory Ipc
  imports Messages Intercept_Conf
begin

text \<open>
  The messages of \<^verbatim>\<open>src/ipc/mitmproxy_ipc.rs\<close> and the conversions of
  \<^verbatim>\<open>src/ipc/mod.rs\<close>.  The protobuf encoding itself is prost's: it is the parameter
  \<open>ipc_codec\<close>, whose documented behaviour (decoding an encoded message gives the message back) is
  the locale \<open>ipc_codec_laws\<close>.  The text form of IP addresses is the parameter \<open>ip_text\<close>.
\<close>

subsection \<open>Messages\<close>

datatype ipc_tunnel_info = IpcTunnelInfo (ipc_pid: "u32 option") (ipc_process_name: "string option")

datatype ipc_packet_with_meta =
  PacketWithMeta (pwm_data: bytes) (pwm_tunnel_info: "ipc_tunnel_info option")

datatype ipc_packet = IpcPacket (ipc_packet_data: bytes)

datatype ipc_intercept_conf = IpcInterceptConf (ipc_actions: "string list")

datatype from_proxy_message = FromProxyPacket ipc_packet | FromProxyConf ipc_intercept_conf

datatype ipc_from_proxy = FromProxy (from_proxy_message: "from_proxy_message option")

datatype ipc_address = Address (addr_host: string) (addr_port: u32)

datatype tcp_flow = TcpFlow (tcp_remote_address: "ipc_address option") (tcp_tunnel_info: "ipc_tunnel_info option")

datatype udp_flow = UdpFlow (udp_local_address: "ipc_address option") (udp_tunnel_info: "ipc_tunnel_info option")

datatype new_flow_message = FlowTcp tcp_flow | FlowUdp udp_flow

datatype ipc_new_flow = NewFlow (new_flow_message: "new_flow_message option")

datatype ipc_udp_packet = IpcUdpPacket (iup_data: bytes) (iup_remote_address: "ipc_address option")

subsection \<open>The encoding\<close>

record ipc_codec =
  enc_from_proxy :: "ipc_from_proxy \<Rightarrow> bytes res"
  dec_from_proxy :: "bytes \<Rightarrow> ipc_from_proxy option"
  enc_packet :: "ipc_packet_with_meta \<Rightarrow> bytes res"
  dec_packet :: "bytes \<Rightarrow> ipc_packet_with_meta option"
  dec_new_flow :: "bytes \<Rightarrow> ipc_new_flow option"
  enc_udp_packet :: "ipc_udp_packet \<Rightarrow> bytes res"
  dec_udp_packet :: "bytes \<Rightarrow> ipc_udp_packet option"
  pos_from_proxy :: "bytes \<Rightarrow> nat"

text \<open>
  \<open>pos_from_proxy\<close> is where the cursor stands after \<open>dec_from_proxy\<close>.
  What the program relies on: encoding into a growing buffer succeeds, decoding inverts it, and a
  message that is set, or a packet that has data, does not encode to nothing.
\<close>

locale ipc_codec_laws =
  fixes k :: ipc_codec
  assumes from_proxy_rt: "\<exists>b. enc_from_proxy k m = Inr b \<and> dec_from_proxy k b = Some m"
    and from_proxy_nonempty: "enc_from_proxy k (FromProxy (Some fm)) \<noteq> Inr []"
    and packet_rt: "\<exists>b. enc_packet k p = Inr b \<and> dec_packet k b = Some p"
    and packet_nonempty: "pwm_data p \<noteq> [] \<Longrightarrow> enc_packet k p \<noteq> Inr []"
    and udp_rt: "\<exists>b. enc_udp_packet k u = Inr b \<and> dec_udp_packet k b = Some u"
begin

lemma from_proxy_transmitted:
  obtains b where "enc_from_proxy k (FromProxy (Some m)) = Inr b" "b \<noteq> []"
    "dec_from_proxy k b = Some (FromProxy (Some m))"
  using from_proxy_rt from_proxy_nonempty by metis

lemma packet_transmitted:
  assumes "d \<noteq> []"
  obtains b where "enc_packet k (PacketWithMeta d t) = Inr b" "b \<noteq> []"
    "dec_packet k b = Some (PacketWithMeta d t)"
  using packet_rt packet_nonempty [of "PacketWithMeta d t"] assms by (metis ipc_packet_with_meta.sel(1))

end

text \<open>Decoding a message reads its buffer to the end.\<close>

locale ipc_cursor_laws = ipc_codec_laws +
  assumes decoded_whole: "dec_from_proxy k b = Some m \<Longrightarrow> pos_from_proxy k b = length b"

subsection \<open>Addresses\<close>

text \<open>\<^verbatim>\<open>IpAddr::from_str\<close> and \<^verbatim>\<open>IpAddr::to_string\<close>.\<close>

record ip_text =
  ip_from_str :: "string \<Rightarrow> ip_addr option"
  ip_to_string :: "ip_addr \<Rightarrow> string"

locale ip_text_laws =
  fixes t :: ip_text
  assumes ip_rt: "ip_from_str t (ip_to_string t a) = Some a"
    and ip_no_scope: "CHR ''%'' \<notin> set (ip_to_string t a)"

definition address_try_from :: "ip_text \<Rightarrow> ipc_address \<Rightarrow> socket_addr res" where
  "address_try_from t address =
     (let host = hd (split_on (CHR ''%'') (addr_host address)) in
      case ip_from_str t host of
        None \<Rightarrow> Inl (Failed ''invalid IP address syntax'')
      | Some ip \<Rightarrow> Inr (sock_new ip (ucast (addr_port address))))"

definition address_from :: "ip_text \<Rightarrow> socket_addr \<Rightarrow> ipc_address" where
  "address_from t val = Address (ip_to_string t (sock_ip val)) (ucast (sock_port val))"

subsection \<open>The interception configuration\<close>

definition ipc_conf_from :: "intercept_conf \<Rightarrow> ipc_intercept_conf" where
  "ipc_conf_from c = IpcInterceptConf (conf_action_strings c)"

definition conf_try_from_ipc :: "ipc_intercept_conf \<Rightarrow> intercept_conf res" where
  "conf_try_from_ipc c = conf_try_from_vec (ipc_actions c)"

text \<open>A text form to instantiate the contract with: the version and the address in decimal.\<close>

definition decimal_ip_text :: ip_text where
  "decimal_ip_text =
     \<lparr>ip_from_str = (\<lambda>s. case s of
          [] \<Rightarrow> None
        | c # cs \<Rightarrow>
            if c = CHR ''4'' then map_option (\<lambda>n. IpV4 (word_of_nat n)) (parse_digits 0 cs)
            else map_option (\<lambda>n. IpV6 (word_of_nat n)) (parse_digits 0 cs)),
      ip_to_string = (\<lambda>a. case a of IpV4 x \<Rightarrow> CHR ''4'' # show_nat (unat x)
                                   | IpV6 x \<Rightarrow> CHR ''6'' # show_nat (unat x))\<rparr>"

interpretation decimal: ip_text_laws decimal_ip_text
proof unfold_locales
  fix a
  show "ip_from_str decimal_ip_text (ip_to_string decimal_ip_text a) = Some a"
    by (cases a) (simp_all add: decimal_ip_text_def parse_digits_show_nat)
  have "CHR ''%'' \<notin> set (show_nat n)" for n
    using show_nat_digits digit_char_neq [of _ "CHR ''%''"] by fastforce
  then show "CHR ''%'' \<notin> set (ip_to_string decimal_ip_text a)"
    by (cases a) (simp_all add: decimal_ip_text_def)
qed

subsection \<open>Addresses survive the conversion\<close>

lemma ucast_u16_u32 [simp]: "(ucast (ucast (p :: u16) :: u32) :: u16) = p"
  by (simp add: unsigned_ucast_eq take_bit_word_eq_self)

text \<open>
  A socket address sent to the macOS extension and read back names the same IP address and
  port (only the flow information and scope id of an IPv6 socket address are lost), and a scope
  such as \<^verbatim>\<open>%awdl0\<close> that the extension appends to the host is ignored.
\<close>

theorem address_roundtrip:
  assumes "ip_text_laws t" and "address_from t s = Address host port"
  shows "address_try_from t (Address host port) = Inr (sock_new (sock_ip s) (sock_port s)) \<and>
    address_try_from t (Address (host @ ''%'' @ scope) port) = Inr (sock_new (sock_ip s) (sock_port s))"
  using assms(2) ip_text_laws.ip_rt [OF assms(1)] ip_text_laws.ip_no_scope [OF assms(1)]
  by (auto simp: address_try_from_def address_from_def split_on_no_sep split_on_append)

theorem address_roundtrip_witness:
  "address_from decimal_ip_text (SockV4 17 8080) = Address ''417'' 8080 \<and>
   address_try_from decimal_ip_text (Address (''417'' @ ''%'' @ ''awdl0'') 8080) = Inr (SockV4 17 8080)"
proof -
  have "address_from decimal_ip_text (SockV4 17 8080) = Address ''417'' 8080" by code_simp
  then show ?thesis using address_roundtrip [OF decimal.ip_text_laws_axioms] by fastforce
qed

end
