(* ===== verification/Wire_Format.thy ===== *)
theory Wire_Format
  imports Ipc
begin

text \<open>
  A concrete encoding of the IPC messages, which discharges the contract \<open>ipc_codec_laws\<close> that the
  rest of the development assumes of prost.  A format is a pair of an encoder and a decoder that
  returns the bytes it did not consume; formats are put together from a byte, the base-128 numbers
  of protobuf, options, lists and pairs.
\<close>

subsection \<open>Formats\<close>

type_synonym 'a fmt = "('a \<Rightarrow> bytes) \<times> (bytes \<Rightarrow> ('a \<times> bytes) option)"

text \<open>The contract of a format: decoding takes off exactly what encoding put in front.\<close>

locale fmt_laws =
  fixes f :: "'a fmt"
  assumes roundtrip: "snd f (fst f a @ rest) = Some (a, rest)"
begin

lemma whole: "snd f (fst f a) = Some (a, [])"
  using roundtrip [of a "[]"] by simp

end

definition byte_fmt :: "u8 fmt" where
  "byte_fmt = (\<lambda>b. [b], \<lambda>bs. case bs of [] \<Rightarrow> None | b # r \<Rightarrow> Some (b, r))"

fun varint_enc :: "nat \<Rightarrow> bytes" where
  "varint_enc n = (if n < 128 then [word_of_nat n] else word_of_nat (128 + n mod 128) # varint_enc (n div 128))"

fun varint_dec :: "bytes \<Rightarrow> (nat \<times> bytes) option" where
  "varint_dec [] = None"
| "varint_dec (b # bs) =
     (if unat b < 128 then Some (unat b, bs)
      else map_option (\<lambda>(n, r). (unat b - 128 + 128 * n, r)) (varint_dec bs))"

declare varint_enc.simps [simp del]

definition nat_fmt :: "nat fmt" where
  "nat_fmt = (varint_enc, varint_dec)"

definition pair_fmt :: "'a fmt \<Rightarrow> 'b fmt \<Rightarrow> ('a \<times> 'b) fmt" where
  "pair_fmt f g =
     (\<lambda>(a, b). fst f a @ fst g b,
      \<lambda>bs. case snd f bs of
         None \<Rightarrow> None
       | Some (a, r) \<Rightarrow> map_option (\<lambda>(b, r'). ((a, b), r')) (snd g r))"

fun take_fmt :: "'a fmt \<Rightarrow> nat \<Rightarrow> bytes \<Rightarrow> ('a list \<times> bytes) option" where
  "take_fmt f 0 bs = Some ([], bs)"
| "take_fmt f (Suc n) bs =
     (case snd f bs of
        None \<Rightarrow> None
      | Some (a, r) \<Rightarrow> map_option (\<lambda>(as, r'). (a # as, r')) (take_fmt f n r))"

definition list_fmt :: "'a fmt \<Rightarrow> 'a list fmt" where
  "list_fmt f =
     (\<lambda>as. varint_enc (length as) @ concat (map (fst f) as),
      \<lambda>bs. case varint_dec bs of None \<Rightarrow> None | Some (n, r) \<Rightarrow> take_fmt f n r)"

definition sum_fmt :: "'a fmt \<Rightarrow> 'b fmt \<Rightarrow> ('a + 'b) fmt" where
  "sum_fmt f g =
     (\<lambda>x. case x of Inl a \<Rightarrow> 0 # fst f a | Inr b \<Rightarrow> 1 # fst g b,
      \<lambda>bs. case bs of
         [] \<Rightarrow> None
       | b # r \<Rightarrow> if b = 0 then map_option (\<lambda>(a, r'). (Inl a, r')) (snd f r)
                  else map_option (\<lambda>(a, r'). (Inr a, r')) (snd g r))"

definition unit_fmt :: "unit fmt" where
  "unit_fmt = (\<lambda>u. [], \<lambda>bs. Some ((), bs))"

text \<open>A format for a type that is in bijection with one that has a format.\<close>

definition conv_fmt :: "('a \<Rightarrow> 'b) \<Rightarrow> ('b \<Rightarrow> 'a) \<Rightarrow> 'b fmt \<Rightarrow> 'a fmt" where
  "conv_fmt to from f = (\<lambda>a. fst f (to a), \<lambda>bs. map_option (\<lambda>(b, r). (from b, r)) (snd f bs))"

definition opt_fmt :: "'a fmt \<Rightarrow> 'a option fmt" where
  "opt_fmt f = conv_fmt (\<lambda>x. case x of None \<Rightarrow> Inl () | Some a \<Rightarrow> Inr a)
                        (\<lambda>x. case x of Inl u \<Rightarrow> None | Inr a \<Rightarrow> Some a) (sum_fmt unit_fmt f)"

subsection \<open>The contract is closed under the combinators\<close>

named_theorems fmt_rules \<open>formats that satisfy the contract\<close>

lemma varint_roundtrip: "varint_dec (varint_enc n @ rest) = Some (n, rest)"
proof (induction n rule: varint_enc.induct)
  case (1 n)
  show ?case
  proof (cases "n < 128")
    case True
    then show ?thesis by (simp add: varint_enc.simps unat_of_nat take_bit_nat_def)
  next
    case False
    have "unat (word_of_nat (128 + n mod 128) :: u8) = 128 + n mod 128"
      by (simp add: unat_of_nat take_bit_nat_def del: of_nat_add)
    with False 1 show ?thesis by (simp add: varint_enc.simps [of n] del: of_nat_add)
  qed
qed

lemma byte_fmt_laws [fmt_rules]: "fmt_laws byte_fmt"
  by unfold_locales (simp add: byte_fmt_def)

lemma nat_fmt_laws [fmt_rules]: "fmt_laws nat_fmt"
  by unfold_locales (simp add: nat_fmt_def varint_roundtrip)

lemma unit_fmt_laws [fmt_rules]: "fmt_laws unit_fmt"
  by unfold_locales (simp add: unit_fmt_def)

lemma pair_fmt_laws [fmt_rules]: "fmt_laws f \<Longrightarrow> fmt_laws g \<Longrightarrow> fmt_laws (pair_fmt f g)"
  by (simp add: fmt_laws_def pair_fmt_def split: prod.splits)

lemma sum_fmt_laws [fmt_rules]: "fmt_laws f \<Longrightarrow> fmt_laws g \<Longrightarrow> fmt_laws (sum_fmt f g)"
  by (simp add: fmt_laws_def sum_fmt_def split: sum.splits)

lemma take_fmt_roundtrip: "fmt_laws f \<Longrightarrow> take_fmt f (length as) (concat (map (fst f) as) @ rest) = Some (as, rest)"
  by (induction as) (simp_all add: fmt_laws_def)

lemma list_fmt_laws [fmt_rules]: "fmt_laws f \<Longrightarrow> fmt_laws (list_fmt f)"
  by unfold_locales (simp add: list_fmt_def varint_roundtrip take_fmt_roundtrip)

lemma conv_fmt_laws: "fmt_laws f \<Longrightarrow> (\<And>a. from (to a) = a) \<Longrightarrow> fmt_laws (conv_fmt to from f)"
  by (simp add: fmt_laws_def conv_fmt_def)

lemma opt_fmt_laws [fmt_rules]: "fmt_laws f \<Longrightarrow> fmt_laws (opt_fmt f)"
  unfolding opt_fmt_def by (intro conv_fmt_laws sum_fmt_laws unit_fmt_laws) (auto split: option.splits)

subsection \<open>The messages\<close>

definition u32_fmt :: "u32 fmt" where
  "u32_fmt = conv_fmt unat word_of_nat nat_fmt"

definition string_fmt :: "string fmt" where
  "string_fmt = conv_fmt as_bytes of_bytes (list_fmt byte_fmt)"

definition tunnel_info_fmt :: "ipc_tunnel_info fmt" where
  "tunnel_info_fmt = conv_fmt (\<lambda>t. (ipc_pid t, ipc_process_name t)) (\<lambda>(p, n). IpcTunnelInfo p n)
     (pair_fmt (opt_fmt u32_fmt) (opt_fmt string_fmt))"

definition packet_fmt :: "ipc_packet_with_meta fmt" where
  "packet_fmt = conv_fmt (\<lambda>p. (pwm_data p, pwm_tunnel_info p)) (\<lambda>(d, t). PacketWithMeta d t)
     (pair_fmt (list_fmt byte_fmt) (opt_fmt tunnel_info_fmt))"

definition from_proxy_fmt :: "ipc_from_proxy fmt" where
  "from_proxy_fmt = conv_fmt
     (\<lambda>m. map_option (\<lambda>fm. case fm of FromProxyPacket p \<Rightarrow> Inl (ipc_packet_data p) | FromProxyConf c \<Rightarrow> Inr (ipc_actions c))
            (from_proxy_message m))
     (\<lambda>x. FromProxy (map_option (\<lambda>s. case s of Inl d \<Rightarrow> FromProxyPacket (IpcPacket d) | Inr as \<Rightarrow> FromProxyConf (IpcInterceptConf as)) x))
     (opt_fmt (sum_fmt (list_fmt byte_fmt) (list_fmt string_fmt)))"

definition address_fmt :: "ipc_address fmt" where
  "address_fmt = conv_fmt (\<lambda>a. (addr_host a, addr_port a)) (\<lambda>(h, p). Address h p) (pair_fmt string_fmt u32_fmt)"

definition udp_packet_fmt :: "ipc_udp_packet fmt" where
  "udp_packet_fmt = conv_fmt (\<lambda>p. (iup_data p, iup_remote_address p)) (\<lambda>(d, a). IpcUdpPacket d a)
     (pair_fmt (list_fmt byte_fmt) (opt_fmt address_fmt))"

definition flow_fmt :: "(ipc_address option \<times> ipc_tunnel_info option) fmt" where
  "flow_fmt = pair_fmt (opt_fmt address_fmt) (opt_fmt tunnel_info_fmt)"

definition new_flow_fmt :: "ipc_new_flow fmt" where
  "new_flow_fmt = conv_fmt
     (\<lambda>m. map_option (\<lambda>fm. case fm of FlowTcp t \<Rightarrow> Inl (tcp_remote_address t, tcp_tunnel_info t)
                                    | FlowUdp u \<Rightarrow> Inr (udp_local_address u, udp_tunnel_info u)) (new_flow_message m))
     (\<lambda>x. NewFlow (map_option (\<lambda>s. case s of Inl (a, t) \<Rightarrow> FlowTcp (TcpFlow a t) | Inr (a, t) \<Rightarrow> FlowUdp (UdpFlow a t)) x))
     (opt_fmt (sum_fmt flow_fmt flow_fmt))"

lemma leaf_fmt_laws [fmt_rules]: "fmt_laws u32_fmt" "fmt_laws string_fmt"
  unfolding u32_fmt_def string_fmt_def by (intro conv_fmt_laws fmt_rules; simp)+

lemma record_fmt_laws [fmt_rules]: "fmt_laws tunnel_info_fmt" "fmt_laws address_fmt" "fmt_laws flow_fmt"
  unfolding tunnel_info_fmt_def address_fmt_def flow_fmt_def by (intro conv_fmt_laws fmt_rules; simp)+

lemma message_fmt_laws [fmt_rules]:
  "fmt_laws packet_fmt" "fmt_laws udp_packet_fmt" "fmt_laws from_proxy_fmt" "fmt_laws new_flow_fmt"
proof -
  show "fmt_laws packet_fmt" "fmt_laws udp_packet_fmt"
    unfolding packet_fmt_def udp_packet_fmt_def by (intro conv_fmt_laws fmt_rules; simp)+
  show "fmt_laws from_proxy_fmt"
    unfolding from_proxy_fmt_def
  proof (intro conv_fmt_laws fmt_rules)
    fix m :: ipc_from_proxy
    show "FromProxy (map_option (\<lambda>s. case s of Inl d \<Rightarrow> FromProxyPacket (IpcPacket d) | Inr as \<Rightarrow> FromProxyConf (IpcInterceptConf as))
        (map_option (\<lambda>fm. case fm of FromProxyPacket p \<Rightarrow> Inl (ipc_packet_data p) | FromProxyConf c \<Rightarrow> Inr (ipc_actions c))
          (from_proxy_message m))) = m"
      by (cases m; cases "from_proxy_message m") (auto split: from_proxy_message.splits)
  qed
  show "fmt_laws new_flow_fmt"
    unfolding new_flow_fmt_def
  proof (intro conv_fmt_laws fmt_rules)
    fix m :: ipc_new_flow
    show "NewFlow (map_option (\<lambda>s. case s of Inl (a, t) \<Rightarrow> FlowTcp (TcpFlow a t) | Inr (a, t) \<Rightarrow> FlowUdp (UdpFlow a t))
        (map_option (\<lambda>fm. case fm of FlowTcp t \<Rightarrow> Inl (tcp_remote_address t, tcp_tunnel_info t)
           | FlowUdp u \<Rightarrow> Inr (udp_local_address u, udp_tunnel_info u)) (new_flow_message m))) = m"
      by (cases m; cases "new_flow_message m") (auto split: new_flow_message.splits)
  qed
qed

interpretation packet_wire: fmt_laws packet_fmt
  by (rule message_fmt_laws)

interpretation from_proxy_wire: fmt_laws from_proxy_fmt
  by (rule message_fmt_laws)

definition dec_all :: "'a fmt \<Rightarrow> bytes \<Rightarrow> 'a option" where
  "dec_all f bs = (case snd f bs of Some (a, []) \<Rightarrow> Some a | _ \<Rightarrow> None)"

lemma dec_all_enc: "fmt_laws f \<Longrightarrow> dec_all f (fst f a) = Some a"
  by (simp add: dec_all_def fmt_laws.whole)

definition pos_of :: "'a fmt \<Rightarrow> bytes \<Rightarrow> nat" where
  "pos_of f bs = (case snd f bs of Some (a, rest) \<Rightarrow> length bs - length rest | None \<Rightarrow> 0)"

definition plain_codec :: ipc_codec where
  "plain_codec =
     \<lparr>enc_from_proxy = (\<lambda>m. Inr (fst from_proxy_fmt m)), dec_from_proxy = dec_all from_proxy_fmt,
      enc_packet = (\<lambda>p. Inr (fst packet_fmt p)), dec_packet = dec_all packet_fmt,
      dec_new_flow = dec_all new_flow_fmt,
      enc_udp_packet = (\<lambda>u. Inr (fst udp_packet_fmt u)), dec_udp_packet = dec_all udp_packet_fmt,
      pos_from_proxy = pos_of from_proxy_fmt\<rparr>"

interpretation plain: ipc_codec_laws plain_codec
proof unfold_locales
  show "\<exists>b. enc_from_proxy plain_codec m = Inr b \<and> dec_from_proxy plain_codec b = Some m" for m
    by (simp add: plain_codec_def dec_all_enc fmt_rules)
  show "\<exists>b. enc_packet plain_codec p = Inr b \<and> dec_packet plain_codec b = Some p" for p
    by (simp add: plain_codec_def dec_all_enc fmt_rules)
  show "\<exists>b. enc_udp_packet plain_codec u = Inr b \<and> dec_udp_packet plain_codec b = Some u" for u
    by (simp add: plain_codec_def dec_all_enc fmt_rules)
  show "enc_from_proxy plain_codec (FromProxy (Some fm)) \<noteq> Inr []" for fm
    by (simp add: plain_codec_def from_proxy_fmt_def conv_fmt_def opt_fmt_def sum_fmt_def)
  show "enc_packet plain_codec p \<noteq> Inr []" if "pwm_data p \<noteq> []" for p
    by (simp add: plain_codec_def packet_fmt_def conv_fmt_def pair_fmt_def list_fmt_def varint_enc.simps)
qed

interpretation plain: ipc_cursor_laws plain_codec
proof unfold_locales
  show "dec_from_proxy plain_codec b = Some m \<Longrightarrow> pos_from_proxy plain_codec b = length b" for b m
    by (auto simp: plain_codec_def dec_all_def pos_of_def split: option.splits list.splits)
qed

end
