(* ===== verification/Packet_Sources.thy ===== *)
theory Packet_Sources
  imports Udp Wire_Format
begin

text \<open>
  The packet sources that shovel packets between an operating-system channel and the network stack:
  \<^verbatim>\<open>forward_packets\<close> of \<^verbatim>\<open>src/packet_sources/mod.rs\<close>, which the Linux and the Windows
  source share, the TUN device (\<^verbatim>\<open>tun.rs\<close>) and the UDP server (\<^verbatim>\<open>udp.rs\<close>).  Each
  is a loop around \<^verbatim>\<open>tokio::select!\<close>: the environment chooses an arm and what it receives,
  the step function is the arm's body.
\<close>

subsection \<open>Loops around \<^verbatim>\<open>select!\<close>\<close>

text \<open>
  A body returns its outputs and, unless it fails, the state of the next round (\<open>None\<close>: the loop was
  left).  An event that no arm is waiting for (its guard is false) is not consumed.
\<close>

type_synonym ('i, 's, 'o) select_body = "'i \<Rightarrow> 's \<Rightarrow> 'o list \<times> 's option res"

fun select_loop :: "('i \<Rightarrow> 's \<Rightarrow> bool) \<Rightarrow> ('i, 's, 'o) select_body \<Rightarrow> 'i list \<Rightarrow> 's \<Rightarrow> 'o list \<times> 's option res" where
  "select_loop enabled body [] s = ([], Inr (Some s))"
| "select_loop enabled body (i # is) s =
     (if enabled i s then
        run_bind (body i s) (\<lambda>r. case r of None \<Rightarrow> ([], Inr None) | Some s' \<Rightarrow> select_loop enabled body is s')
      else select_loop enabled body is s)"

text \<open>The events consumed, each with the state it found.\<close>

fun consumed :: "('i \<Rightarrow> 's \<Rightarrow> bool) \<Rightarrow> ('i, 's, 'o) select_body \<Rightarrow> 'i list \<Rightarrow> 's \<Rightarrow> ('i \<times> 's) list" where
  "consumed enabled body [] s = []"
| "consumed enabled body (i # is) s =
     (if enabled i s then
        (i, s) # (case snd (body i s) of Inr (Some s') \<Rightarrow> consumed enabled body is s' | _ \<Rightarrow> [])
      else consumed enabled body is s)"

text \<open>
  A loop with a queue inside: \<open>queue\<close> is what it holds back, \<open>accepts\<close> what it takes in when an event
  is consumed, \<open>emits\<close> what it gives away.  Whatever is taken in is given away in order; what is held
  back at the end is the rest, and a failure loses a tail at most.
\<close>

locale egress_queue =
  fixes enabled :: "'i \<Rightarrow> 's \<Rightarrow> bool" and body :: "('i, 's, 'o) select_body"
    and queue :: "'s \<Rightarrow> 'x list" and accepts :: "'i \<Rightarrow> 's \<Rightarrow> 'x list" and emits :: "'o \<Rightarrow> 'x list"
  assumes body_flow: "enabled i s \<Longrightarrow> body i s = (os, r) \<Longrightarrow>
      \<exists>rest. queue s @ accepts i s = concat (map emits os) @ rest \<and> (\<forall>s'. r = Inr (Some s') \<longrightarrow> rest = queue s')"
begin

lemma loop_flow:
  "select_loop enabled body is s = (os, r) \<Longrightarrow>
   \<exists>rest. queue s @ concat (map (\<lambda>(i, s). accepts i s) (consumed enabled body is s)) = concat (map emits os) @ rest \<and>
     (\<forall>s'. r = Inr (Some s') \<longrightarrow> rest = queue s')"
proof (induction "is" arbitrary: s os)
  case (Cons i "is")
  show ?case
  proof (cases "enabled i s")
    case True
    obtain os1 r1 where b: "body i s = (os1, r1)" by (metis surj_pair)
    from body_flow [OF True b] obtain rest1
      where f: "queue s @ accepts i s = concat (map emits os1) @ rest1"
        and r1: "\<And>s'. r1 = Inr (Some s') \<Longrightarrow> rest1 = queue s'" by blast
    show ?thesis
    proof (cases "\<exists>s'. r1 = Inr (Some s')")
      case ex: True
      then obtain s' where s': "r1 = Inr (Some s')" by blast
      obtain os2 where l: "select_loop enabled body is s' = (os2, r)" and os: "os = os1 @ os2"
        using Cons.prems True b s' by (cases "select_loop enabled body is s'") auto
      from Cons.IH [OF l] obtain rest
        where rest: "queue s' @ concat (map (\<lambda>(i, s). accepts i s) (consumed enabled body is s')) = concat (map emits os2) @ rest"
          and last: "\<forall>s''. r = Inr (Some s'') \<longrightarrow> rest = queue s''" by blast
      have "consumed enabled body (i # is) s = (i, s) # consumed enabled body is s'" using True b s' by simp
      then have "queue s @ concat (map (\<lambda>(i, s). accepts i s) (consumed enabled body (i # is) s)) =
          (queue s @ accepts i s) @ concat (map (\<lambda>(i, s). accepts i s) (consumed enabled body is s'))" by simp
      also have "\<dots> = concat (map emits os) @ rest" unfolding f r1 [OF s'] os by (simp add: rest)
      finally show ?thesis using last by blast
    next
      case no: False
      then have "os = os1" and "\<forall>s'. r \<noteq> Inr (Some s')"
        and "consumed enabled body (i # is) s = [(i, s)]"
        using Cons.prems True b by (cases r1; auto split: option.splits)+
      then show ?thesis using f by simp
    qed
  next
    case False
    then show ?thesis using Cons by simp
  qed
qed auto

end

subsection \<open>\<^verbatim>\<open>forward_packets\<close>\<close>

definition MAX_PACKET_SIZE :: nat where "MAX_PACKET_SIZE = 65535"
definition IPC_BUF_SIZE :: nat where "IPC_BUF_SIZE = MAX_PACKET_SIZE + 1024"

record fwd_env =
  fe_wire :: smol_wire
  fe_codec :: ipc_codec
  fe_write_all :: "bytes \<Rightarrow> unit res"
  fe_try_send :: "network_event \<Rightarrow> bool"

text \<open>
  \<open>FwdNetworkExit\<close>: the network task has ended, gracefully, with an error or by a panic;
  \<open>FwdRead buf\<close>: \<open>buf\<close> was read from the channel (nothing, if reading failed).
\<close>

datatype fwd_input =
    FwdNetworkExit "unit res"
  | FwdConf intercept_conf
  | FwdRead bytes
  | FwdCommand network_command

datatype fwd_output = FwdWrite bytes | FwdEvent network_event

definition fwd_write :: "fwd_env \<Rightarrow> ipc_from_proxy \<Rightarrow> fwd_output list \<times> unit option res" where
  "fwd_write E msg =
     (case enc_from_proxy (fe_codec E) msg of
        Inl e \<Rightarrow> ([], Inl e)
      | Inr buf \<Rightarrow> (case fe_write_all E buf of Inl e \<Rightarrow> ([], Inl e) | Inr u \<Rightarrow> ([FwdWrite buf], Inr (Some ()))))"

fun forward_packets :: "fwd_env \<Rightarrow> (fwd_input, unit, fwd_output) select_body" where
  "forward_packets E (FwdNetworkExit r) st = ([], case r of Inl e \<Rightarrow> Inl e | Inr u \<Rightarrow> Inr None)"
| "forward_packets E (FwdConf conf) st = fwd_write E (FromProxy (Some (FromProxyConf (ipc_conf_from conf))))"
| "forward_packets E (FwdRead buf) st =
     (if buf = [] then ([], Inl (Failed ''redirect daemon exited prematurely.''))
      else case dec_packet (fe_codec E) buf of
        None \<Rightarrow> ([], Inl (Failed ''Received invalid IPC message from redirector''))
      | Some (PacketWithMeta data tunnel_info) \<Rightarrow>
          (case smol_try_from (fe_wire E) data of
             Inl e \<Rightarrow> ([], Inr (Some ()))
           | Inr packet \<Rightarrow>
               let packet = fill_ip_checksum (fe_wire E) packet;
                   event = ReceivePacket packet
                     (LocalRedirector (Option.bind tunnel_info ipc_pid) (Option.bind tunnel_info ipc_process_name) None)
               in if fe_try_send E event then ([FwdEvent event], Inr (Some ())) else ([], Inr (Some ()))))"
| "forward_packets E (FwdCommand (SendPacket packet)) st =
     fwd_write E (FromProxy (Some (FromProxyPacket (IpcPacket (into_inner packet)))))"

subsection \<open>The TUN device\<close>

record tun_state =
  ts_permit :: bool
  ts_packet_to_send :: bytes

definition tun_init :: tun_state where
  "tun_init = \<lparr>ts_permit = False, ts_packet_to_send = []\<rparr>"

text \<open>
  \<open>TunSent r\<close>: the device's \<^verbatim>\<open>send\<close> of the pending packet has returned, with the number of bytes it
  wrote or an error; \<open>TunSend d\<close> is that call, with the buffer it was given.  When fewer bytes were
  written, the code logs it and goes on, so the output does not depend on the number.
\<close>

datatype tun_input =
    TunNetworkExit "unit res"
  | TunPermit
  | TunRecv "bytes res"
  | TunSent "nat res"
  | TunCommand network_command

datatype tun_output = TunEvent network_event | TunSend bytes

fun tun_enabled :: "tun_input \<Rightarrow> tun_state \<Rightarrow> bool" where
  "tun_enabled (TunNetworkExit r) st \<longleftrightarrow> True"
| "tun_enabled TunPermit st \<longleftrightarrow> \<not> ts_permit st"
| "tun_enabled (TunRecv r) st \<longleftrightarrow> ts_permit st"
| "tun_enabled (TunSent r) st \<longleftrightarrow> ts_packet_to_send st \<noteq> []"
| "tun_enabled (TunCommand c) st \<longleftrightarrow> ts_packet_to_send st = []"

fun tun_body :: "smol_wire \<Rightarrow> (tun_input, tun_state, tun_output) select_body" where
  "tun_body w (TunNetworkExit r) st = ([], case r of Inl e \<Rightarrow> Inl e | Inr u \<Rightarrow> Inr None)"
| "tun_body w TunPermit st = ([], Inr (Some (st\<lparr>ts_permit := True\<rparr>)))"
| "tun_body w (TunRecv r) st =
     (case r of
        Inl e \<Rightarrow> ([], Inl e)
      | Inr buf \<Rightarrow>
          (case smol_try_from w buf of
             Inl e \<Rightarrow> ([], Inr (Some st))
           | Inr packet \<Rightarrow> ([TunEvent (ReceivePacket packet NoTunnel)], Inr (Some (st\<lparr>ts_permit := False\<rparr>)))))"
| "tun_body w (TunSent r) st =
     (case r of
        Inl e \<Rightarrow> ([], Inl e)
      | Inr sent \<Rightarrow> ([TunSend (ts_packet_to_send st)], Inr (Some (st\<lparr>ts_packet_to_send := []\<rparr>))))"
| "tun_body w (TunCommand (SendPacket packet)) st =
     ([], Inr (Some (st\<lparr>ts_packet_to_send := into_inner packet\<rparr>)))"

subsection \<open>The UDP server\<close>

text \<open>
  \<^verbatim>\<open>create_and_bind_udp_socket\<close>: the calls it makes, in order; \<open>ok\<close> is what the operating
  system answers to each.
\<close>

datatype sock_call = SockNew bool | SetOnlyV6 bool | SockBind socket_addr | SetNonblocking bool | FromStd

definition do_call :: "(sock_call \<Rightarrow> unit res) \<Rightarrow> sock_call \<Rightarrow> sock_call list \<times> unit res" where
  "do_call ok c = ([c], ok c)"

definition create_and_bind_udp_socket :: "(sock_call \<Rightarrow> unit res) \<Rightarrow> socket_addr \<Rightarrow> sock_call list \<times> unit res" where
  "create_and_bind_udp_socket ok addr =
     (let v4 = is_ipv4 (sock_ip addr) in
      run_bind (do_call ok (SockNew v4)) (\<lambda>u.
      run_bind (if \<not> v4 then do_call ok (SetOnlyV6 True) else ([], Inr ())) (\<lambda>u.
      run_bind (do_call ok (SockBind addr)) (\<lambda>u.
      run_bind (do_call ok (SetNonblocking True)) (\<lambda>u. do_call ok FromStd)))))"

record ('i, 'c) udp_task =
  ut_local_addr :: socket_addr
  ut_handler :: "('i, 'c) udp_handler"
  ut_needs_sending :: bool
  ut_payload :: bytes
  ut_dst :: socket_addr
  ut_permit :: bool

definition udp_task_new :: "'i id_cache \<Rightarrow> 'c conn_cache \<Rightarrow> socket_addr \<Rightarrow> ('i, 'c) udp_task" where
  "udp_task_new L C local_addr =
     \<lparr>ut_local_addr = local_addr, ut_handler = udp_new L C, ut_needs_sending = False, ut_payload = [],
      ut_dst = SockV4 0 0, ut_permit = False\<rparr>"

text \<open>\<^verbatim>\<open>UdpConf::build\<close>: \<open>local_addr\<close> is what the bound socket reports.\<close>

definition udp_build ::
  "(sock_call \<Rightarrow> unit res) \<Rightarrow> socket_addr res \<Rightarrow> 'i id_cache \<Rightarrow> 'c conn_cache \<Rightarrow> socket_addr \<Rightarrow> (('i, 'c) udp_task \<times> socket_addr) res" where
  "udp_build ok local_addr L C listen_addr =
     res_bind (snd (create_and_bind_udp_socket ok listen_addr)) (\<lambda>u.
     res_bind local_addr (\<lambda>a. Inr (udp_task_new L C a, a)))"

text \<open>
  Whether a receive error is the one Windows reports after a failed send; an I/O error is its raw
  code, if it has one.
\<close>

definition remote_host_closed_conn :: "bool \<Rightarrow> int option + 'a \<Rightarrow> bool" where
  "remote_host_closed_conn windows res =
     (if windows then (case res of Inl raw_os_error \<Rightarrow> raw_os_error = Some 10054 | Inr ok \<Rightarrow> False) else False)"

text \<open>\<open>UdpRecv now r\<close>: the result of \<^verbatim>\<open>recv_from\<close> at time \<open>now\<close>.\<close>

datatype udp_input =
    UdpShutdown
  | UdpPermit
  | UdpRecv nat "int option + bytes \<times> socket_addr"
  | UdpSent "nat res"
  | UdpCommand nat transport_command

datatype udp_output = UdpEffect effect | UdpSendTo bytes socket_addr

fun udp_enabled :: "udp_input \<Rightarrow> ('i, 'c) udp_task \<Rightarrow> bool" where
  "udp_enabled UdpShutdown st \<longleftrightarrow> True"
| "udp_enabled UdpPermit st \<longleftrightarrow> \<not> ut_permit st"
| "udp_enabled (UdpRecv now r) st \<longleftrightarrow> ut_permit st"
| "udp_enabled (UdpSent r) st \<longleftrightarrow> ut_needs_sending st"
| "udp_enabled (UdpCommand now c) st \<longleftrightarrow> \<not> ut_needs_sending st"

fun udp_body :: "bool \<Rightarrow> 'i id_cache \<Rightarrow> 'c conn_cache \<Rightarrow> (udp_input, ('i, 'c) udp_task, udp_output) select_body" where
  "udp_body windows L C UdpShutdown st = ([], Inr None)"
| "udp_body windows L C UdpPermit st = ([], Inr (Some (st\<lparr>ut_permit := True\<rparr>)))"
| "udp_body windows L C (UdpRecv now r) st =
     (if remote_host_closed_conn windows r then ([], Inr (Some st))
      else case r of
        Inl e \<Rightarrow> ([], Inl (Failed ''UDP recv() failed''))
      | Inr (data, src_addr) \<Rightarrow>
          let (h, es) = udp_receive_data L C now
                \<lparr>up_src_addr = src_addr, up_dst_addr = ut_local_addr st, up_payload = data\<rparr> NoTunnel (ut_handler st)
          in (map UdpEffect es, Inr (Some (st\<lparr>ut_handler := h, ut_permit := False\<rparr>))))"
| "udp_body windows L C (UdpSent r) st =
     (case r of
        Inl e \<Rightarrow> ([], Inl e)
      | Inr sent \<Rightarrow> ([UdpSendTo (ut_payload st) (ut_dst st)], Inr (Some (st\<lparr>ut_needs_sending := False\<rparr>))))"
| "udp_body windows L C (UdpCommand now command) st =
     (case udp_handle_command L C now command (ut_handler st) of
        Inl e \<Rightarrow> ([], Inl e)
      | Inr (h, es, p) \<Rightarrow>
          (map UdpEffect es,
           Inr (Some (case p of
              None \<Rightarrow> st\<lparr>ut_handler := h\<rparr>
            | Some packet \<Rightarrow> st\<lparr>ut_handler := h, ut_payload := up_payload packet, ut_dst := up_dst_addr packet,
                                ut_needs_sending := True\<rparr>))))"

subsection \<open>What the loops hold back\<close>

definition tun_queue :: "tun_state \<Rightarrow> bytes list" where
  "tun_queue st = (if ts_packet_to_send st = [] then [] else [ts_packet_to_send st])"

fun tun_accepts :: "tun_input \<Rightarrow> tun_state \<Rightarrow> bytes list" where
  "tun_accepts (TunCommand (SendPacket packet)) st = (if into_inner packet = [] then [] else [into_inner packet])"
| "tun_accepts _ st = []"

fun tun_emits :: "tun_output \<Rightarrow> bytes list" where
  "tun_emits (TunSend d) = [d]"
| "tun_emits (TunEvent e) = []"

interpretation tun: egress_queue tun_enabled "tun_body w" tun_queue tun_accepts tun_emits for w
proof
  fix i s os r
  assume "tun_enabled i s" and "tun_body w i s = (os, r)"
  then show "\<exists>rest. tun_queue s @ tun_accepts i s = concat (map tun_emits os) @ rest \<and>
      (\<forall>s'. r = Inr (Some s') \<longrightarrow> rest = tun_queue s')"
    by (induction w i s rule: tun_body.induct) (auto simp: tun_queue_def split: sum.splits)
qed

definition udp_queue :: "('i, 'c) udp_task \<Rightarrow> (bytes \<times> socket_addr) list" where
  "udp_queue st = (if ut_needs_sending st then [(ut_payload st, ut_dst st)] else [])"

text \<open>The datagram the handler makes of a command.\<close>

fun udp_accepts :: "'i id_cache \<Rightarrow> 'c conn_cache \<Rightarrow> udp_input \<Rightarrow> ('i, 'c) udp_task \<Rightarrow> (bytes \<times> socket_addr) list" where
  "udp_accepts L C (UdpCommand now command) st =
     (case udp_handle_command L C now command (ut_handler st) of
        Inr (h, es, Some packet) \<Rightarrow> [(up_payload packet, up_dst_addr packet)]
      | _ \<Rightarrow> [])"
| "udp_accepts L C _ st = []"

fun udp_emits :: "udp_output \<Rightarrow> (bytes \<times> socket_addr) list" where
  "udp_emits (UdpSendTo d a) = [(d, a)]"
| "udp_emits (UdpEffect e) = []"

lemma udp_emits_effects [simp]: "concat (map udp_emits (map UdpEffect es)) = []"
  by (induction es) auto

lemma concat_map_Nil [simp]: "concat (map (\<lambda>x. []) xs) = []"
  by (induction xs) auto

interpretation udp: egress_queue udp_enabled "udp_body windows L C" udp_queue "udp_accepts L C" udp_emits for windows L C
proof
  fix i os r and s :: "('a, 'b) udp_task"
  assume "udp_enabled i s" and "udp_body windows L C i s = (os, r)"
  then show "\<exists>rest. udp_queue s @ udp_accepts L C i s = concat (map udp_emits os) @ rest \<and>
      (\<forall>s'. r = Inr (Some s') \<longrightarrow> rest = udp_queue s')"
    by (cases i) (auto simp: udp_queue_def comp_def split: sum.splits option.splits if_splits prod.splits)
qed

subsection \<open>Reverse path filtering\<close>

text \<open>
  \<^verbatim>\<open>disable_rp_filter\<close>: files are read and written through \<open>procfs\<close>, whose state is \<open>'f\<close>.
\<close>

record 'f procfs =
  pf_read :: "string \<Rightarrow> 'f \<Rightarrow> string res"
  pf_write :: "string \<Rightarrow> string \<Rightarrow> 'f \<Rightarrow> 'f res"
  pf_read_dir :: "'f \<Rightarrow> (string res) list res"

definition rp_filter_path :: "string \<Rightarrow> string" where
  "rp_filter_path interface = ''/proc/sys/net/ipv4/conf/'' @ interface @ ''/rp_filter''"

text \<open>\<^verbatim>\<open>max\<close> on strings: lexicographic order of the bytes.\<close>

fun str_le :: "string \<Rightarrow> string \<Rightarrow> bool" where
  "str_le [] t = True"
| "str_le (c # s) [] = False"
| "str_le (c # s) (d # t) = ((of_char c :: nat) < of_char d \<or> (c = d \<and> str_le s t))"

definition str_max :: "string \<Rightarrow> string \<Rightarrow> string" where
  "str_max a b = (if str_le a b then b else a)"

fun upgrade_interfaces :: "('f, 'z) procfs_scheme \<Rightarrow> string \<Rightarrow> string \<Rightarrow> string res list \<Rightarrow> 'f \<Rightarrow> 'f \<times> unit res" where
  "upgrade_interfaces P tun_name all_rp_filter [] f = (f, Inr ())"
| "upgrade_interfaces P tun_name all_rp_filter (dir_entry # paths) f =
     (case dir_entry of
        Inl e \<Rightarrow> (f, Inl e)
      | Inr interface \<Rightarrow>
          if interface = tun_name then upgrade_interfaces P tun_name all_rp_filter paths f
          else
            let interface_rp_filter = (case pf_read P (rp_filter_path interface) f of Inl e \<Rightarrow> [] | Inr s \<Rightarrow> s);
                combined = str_max all_rp_filter interface_rp_filter
            in if combined \<noteq> interface_rp_filter then
                 (case pf_write P (rp_filter_path interface) combined f of
                    Inl e \<Rightarrow> (f, Inl e)
                  | Inr f' \<Rightarrow> upgrade_interfaces P tun_name all_rp_filter paths f')
               else upgrade_interfaces P tun_name all_rp_filter paths f)"

definition disable_rp_filter :: "('f, 'z) procfs_scheme \<Rightarrow> string \<Rightarrow> 'f \<Rightarrow> 'f \<times> unit res" where
  "disable_rp_filter P tun_name f =
     (case pf_write P (rp_filter_path tun_name) ''0'' f of
        Inl e \<Rightarrow> (f, Inl e)
      | Inr f \<Rightarrow>
          (case pf_read P (rp_filter_path ''all'') f of
             Inl e \<Rightarrow> (f, Inl e)
           | Inr all_rp_filter \<Rightarrow>
               if all_rp_filter = ''0'' then (f, Inr ())
               else case pf_read_dir P f of
                 Inl e \<Rightarrow> (f, Inl e)
               | Inr paths \<Rightarrow>
                   (case upgrade_interfaces P tun_name all_rp_filter paths f of
                      (f, Inl e) \<Rightarrow> (f, Inl e)
                    | (f, Inr u) \<Rightarrow>
                        (case pf_write P (rp_filter_path ''all'') ''0'' f of
                           Inl e \<Rightarrow> (f, Inl e)
                         | Inr f \<Rightarrow> (f, Inr ())))))"

definition sysctl_write :: "('f, 'z) procfs_scheme \<Rightarrow> string \<Rightarrow> 'f \<Rightarrow> 'f" where
  "sysctl_write P path f = (case pf_write P path ''1'' f of Inl e \<Rightarrow> f | Inr f' \<Rightarrow> f')"

text \<open>\<^verbatim>\<open>configure_device\<close>: errors are logged, so every step is tried.\<close>

definition configure_device :: "('f, 'z) procfs_scheme \<Rightarrow> string \<Rightarrow> 'f \<Rightarrow> 'f" where
  "configure_device P tun_name f =
     (let f = fst (disable_rp_filter P tun_name f);
          f = sysctl_write P (''/proc/sys/net/ipv4/conf/'' @ tun_name @ ''/route_localnet'') f
      in sysctl_write P (''/proc/sys/net/ipv4/conf/'' @ tun_name @ ''/accept_local'') f)"

text \<open>
  \<^verbatim>\<open>create_tun_device\<close>: \<open>create\<close> is \<^verbatim>\<open>tun::create_as_async\<close>, which gives a device or
  an error, \<open>device_name\<close> its \<^verbatim>\<open>tun_name\<close>.
\<close>

record tun_config =
  tc_mtu :: "u16 option"
  tc_address :: "string option"
  tc_up :: bool
  tc_name :: "string option"

datatype tun_error = PermissionDenied | TunError string

definition create_tun_device ::
  "(tun_config \<Rightarrow> tun_error + 'd) \<Rightarrow> ('d \<Rightarrow> string res) \<Rightarrow> ('f, 'z) procfs_scheme \<Rightarrow> string option \<Rightarrow> 'f \<Rightarrow> ('d \<times> string) res \<times> 'f" where
  "create_tun_device create device_name P tun_name f =
     (let config = \<lparr>tc_mtu = Some (word_of_nat MAX_PACKET_SIZE), tc_address = Some ''169.254.0.1'', tc_up = True, tc_name = tun_name\<rparr> in
      case create config of
        Inr device \<Rightarrow>
          (case device_name device of
             Inl e \<Rightarrow> (Inl e, f)
           | Inr name \<Rightarrow> (Inr (device, name), configure_device P name f))
      | Inl PermissionDenied \<Rightarrow>
          (case tun_name of
             Some name \<Rightarrow>
               (case create \<lparr>tc_mtu = None, tc_address = None, tc_up = False, tc_name = Some name\<rparr> of
                  Inr device \<Rightarrow> (Inr (device, name), f)
                | Inl e \<Rightarrow> (Inl (Failed ''Failed to create TUN device''), f))
           | None \<Rightarrow> (Inl (Failed ''Failed to create TUN device''), f))
      | Inl (TunError e) \<Rightarrow> (Inl (Failed ''Failed to create TUN device''), f))"

text \<open>
  What the kernel promises: a file holds a number, is read as its digits and a newline, and can be
  written with or without the newline.
\<close>

locale procfs_laws =
  fixes P :: "'f procfs" and val :: "'f \<Rightarrow> string \<rightharpoonup> nat" and interfaces :: "string list"
  assumes read_val: "val f p = Some n \<Longrightarrow> pf_read P p f = Inr (show_nat n @ [CHR 0x0A])"
    and write_val: "val f p = Some n \<Longrightarrow> \<exists>f'. pf_write P p (show_nat m) f = Inr f' \<and> val f' = (val f)(p \<mapsto> m)"
    and write_line: "val f p = Some n \<Longrightarrow> \<exists>f'. pf_write P p (show_nat m @ [CHR 0x0A]) f = Inr f' \<and> val f' = (val f)(p \<mapsto> m)"
    and dir: "pf_read_dir P f = Inr (map Inr interfaces)"

lemma rp_filter_path_inj: "rp_filter_path i = rp_filter_path j \<longleftrightarrow> i = j"
  by (simp add: rp_filter_path_def)

lemma show_digit: "n < 10 \<Longrightarrow> show_nat n = [digit_char n]"
  by (simp add: show_nat.simps)

lemma str_max_lines:
  assumes "m < 10" and "n < 10"
  shows "str_max (show_nat m @ [CHR 0x0A]) (show_nat n @ [CHR 0x0A]) = show_nat (max m n) @ [CHR 0x0A]"
proof -
  have o: "(of_char (digit_char k) :: nat) = 48 + k" if "k < 10" for k using that by (simp add: digit_char_def)
  then have "digit_char m = digit_char n \<longleftrightarrow> m = n" using assms by (metis add_left_cancel)
  with o assms show ?thesis by (auto simp: str_max_def show_digit max_def)
qed

lemma show_nat_inj: "show_nat m = show_nat n \<longleftrightarrow> m = n"
  by (metis option.inject parse_digits_show_nat)

context procfs_laws
begin

lemma upgrade_ok:
  assumes "\<forall>i\<in>set is. \<exists>n<10. val f (rp_filter_path i) = Some n" and "all < 10" and "distinct is"
  shows "\<exists>f'. upgrade_interfaces P tun (show_nat all @ [CHR 0x0A]) (map Inr is) f = (f', Inr ()) \<and>
     (\<forall>i. val f' (rp_filter_path i) =
        (if i \<in> set is \<and> i \<noteq> tun then map_option (max all) (val f (rp_filter_path i)) else val f (rp_filter_path i)))"
  using assms
proof (induction "is" arbitrary: f)
  case (Cons i "is")
  from Cons.prems obtain n where n: "n < 10" "val f (rp_filter_path i) = Some n" by auto
  show ?case
  proof (cases "i = tun \<or> max all n = n")
    case True
    have "upgrade_interfaces P tun (show_nat all @ [CHR 0x0A]) (map Inr (i # is)) f =
        upgrade_interfaces P tun (show_nat all @ [CHR 0x0A]) (map Inr is) f"
      using True by (auto simp: read_val [OF n(2)] str_max_lines [OF Cons.prems(2) n(1)])
    with Cons.IH [of f] Cons.prems n True show ?thesis by fastforce
  next
    case False
    obtain f1 where f1: "pf_write P (rp_filter_path i) (show_nat (max all n) @ [CHR 0x0A]) f = Inr f1"
      and v: "val f1 = (val f)(rp_filter_path i \<mapsto> max all n)" using write_line [OF n(2)] by blast
    have "upgrade_interfaces P tun (show_nat all @ [CHR 0x0A]) (map Inr (i # is)) f =
        upgrade_interfaces P tun (show_nat all @ [CHR 0x0A]) (map Inr is) f1"
      using False by (simp add: read_val [OF n(2)] str_max_lines [OF Cons.prems(2) n(1)] show_nat_inj f1)
    moreover have "\<forall>j\<in>set is. \<exists>n<10. val f1 (rp_filter_path j) = Some n"
      using Cons.prems by (auto simp: v rp_filter_path_inj)
    ultimately show ?thesis using Cons.IH [of f1] Cons.prems n False v by (auto simp: rp_filter_path_inj)
  qed
qed simp

lemma disable_ok:
  assumes "\<forall>i\<in>set interfaces. \<exists>n<10. val f (rp_filter_path i) = Some n" and "distinct interfaces"
    and "''all'' \<in> set interfaces" and "tun \<in> set interfaces" and "tun \<noteq> ''all''"
  shows "\<exists>f'. disable_rp_filter P tun f = (f', Inr ()) \<and>
     val f' (rp_filter_path tun) = Some 0 \<and> val f' (rp_filter_path ''all'') = Some 0 \<and>
     (\<forall>i\<in>set interfaces - {tun, ''all''}.
        val f' (rp_filter_path i) = Some (max (the (val f (rp_filter_path ''all''))) (the (val f (rp_filter_path i)))))"
proof -
  obtain a where a: "a < 10" "val f (rp_filter_path ''all'') = Some a" using assms(1,3) by blast
  obtain t where t: "val f (rp_filter_path tun) = Some t" using assms(1,4) by blast
  have zero: "show_nat 0 = ''0''" by code_simp
  obtain f1 where f1: "pf_write P (rp_filter_path tun) ''0'' f = Inr f1" "val f1 = (val f)(rp_filter_path tun \<mapsto> 0)"
    using write_val [OF t, of 0] zero by auto
  have a1: "val f1 (rp_filter_path ''all'') = Some a" using f1(2) a(2) assms(5) by (simp add: rp_filter_path_inj)
  have "\<forall>i\<in>set interfaces. \<exists>n<10. val f1 (rp_filter_path i) = Some n"
    using assms(1) by (auto simp: f1(2))
  from upgrade_ok [OF this a(1) assms(2), of tun] obtain f2
    where f2: "upgrade_interfaces P tun (show_nat a @ [CHR 0x0A]) (map Inr interfaces) f1 = (f2, Inr ())"
      and v2: "\<And>i. val f2 (rp_filter_path i) =
        (if i \<in> set interfaces \<and> i \<noteq> tun then map_option (max a) (val f1 (rp_filter_path i)) else val f1 (rp_filter_path i))"
    by blast
  have "val f2 (rp_filter_path ''all'') = Some a" using v2 [of "''all''"] assms(3,5) a1 by simp
  then obtain f3 where f3: "pf_write P (rp_filter_path ''all'') ''0'' f2 = Inr f3" "val f3 = (val f2)(rp_filter_path ''all'' \<mapsto> 0)"
    using write_val [of f2 _ _ 0] zero by metis
  have "show_nat a @ [CHR 0x0A] \<noteq> ''0''" using show_nat_not_Nil [of a] by (cases "show_nat a") auto
  then have "disable_rp_filter P tun f = (f3, Inr ())"
    using f1(1) read_val [OF a1] dir f2 f3(1) by (simp add: disable_rp_filter_def)
  moreover have "val f3 (rp_filter_path tun) = Some 0"
    using f3(2) v2 [of tun] f1(2) assms(5) by (simp add: rp_filter_path_inj)
  moreover have "val f3 (rp_filter_path i) = Some (max a (the (val f (rp_filter_path i))))"
    if i: "i \<in> set interfaces - {tun, ''all''}" for i
  proof -
    obtain n where "val f (rp_filter_path i) = Some n" using assms(1) i by blast
    then show ?thesis using i v2 [of i] by (simp add: f3(2) f1(2) rp_filter_path_inj)
  qed
  ultimately show ?thesis using a f3(2) by simp
qed

end

text \<open>The sysctl files as a map from paths to numbers.\<close>

definition parse_line :: "string \<Rightarrow> nat option" where
  "parse_line s = parse_digits 0 (if s \<noteq> [] \<and> last s = CHR 0x0A then butlast s else s)"

definition sysctl_files :: "string list \<Rightarrow> (string \<rightharpoonup> nat) procfs" where
  "sysctl_files interfaces =
     \<lparr>pf_read = (\<lambda>p f. case f p of None \<Rightarrow> Inl (Failed ''not found'') | Some n \<Rightarrow> Inr (show_nat n @ [CHR 0x0A])),
      pf_write = (\<lambda>p v f. case (f p, parse_line v) of (Some n, Some m) \<Rightarrow> Inr (f(p \<mapsto> m)) | _ \<Rightarrow> Inl (Failed ''invalid'')),
      pf_read_dir = (\<lambda>f. Inr (map Inr interfaces))\<rparr>"

lemma last_show_nat: "last (show_nat n) \<noteq> CHR 0x0A"
proof -
  obtain d where "d < 10" "last (show_nat n) = digit_char d" using show_nat_digits [of "last (show_nat n)" n] by auto
  then show ?thesis using digit_char_neq [of d "CHR 0x0A"] by simp
qed

interpretation sysctl: procfs_laws "sysctl_files interfaces" "\<lambda>f. f" interfaces for interfaces
  by unfold_locales (simp_all add: sysctl_files_def parse_line_def last_show_nat parse_digits_show_nat)

text \<open>
  Creating the TUN device turns reverse path filtering off for it and for it only: the setting
  that the kernel applies to every other interface, the maximum of its own and the global one, stays
  what it was although the global one is switched off.
\<close>

theorem rp_filter_only_tun:
  assumes "procfs_laws P val interfaces" and "\<forall>i\<in>set interfaces. \<exists>n<10. val f (rp_filter_path i) = Some n"
    and "distinct interfaces" and "''all'' \<in> set interfaces" and "tun \<in> set interfaces" and "tun \<noteq> ''all''"
    and "effective = (\<lambda>g i. max (the (val g (rp_filter_path ''all''))) (the (val g (rp_filter_path i))))"
  shows "\<exists>f'. disable_rp_filter P tun f = (f', Inr ()) \<and> effective f' tun = 0 \<and>
     (\<forall>i\<in>set interfaces - {tun, ''all''}. effective f' i = effective f i)"
  using procfs_laws.disable_ok [OF assms(1-6)] assms(7) by fastforce

definition ex_files :: "string \<rightharpoonup> nat" where
  "ex_files = [rp_filter_path ''all'' \<mapsto> 1, rp_filter_path ''eth0'' \<mapsto> 0, rp_filter_path ''tun0'' \<mapsto> 2]"

theorem rp_filter_only_tun_witness:
  "\<exists>f'. disable_rp_filter (sysctl_files [''all'', ''eth0'', ''tun0'']) ''tun0'' ex_files = (f', Inr ()) \<and>
     max (the (f' (rp_filter_path ''all''))) (the (f' (rp_filter_path ''tun0''))) = 0 \<and>
     max (the (f' (rp_filter_path ''all''))) (the (f' (rp_filter_path ''eth0''))) = 1"
proof -
  have "ex_files (rp_filter_path ''all'') = Some 1" "ex_files (rp_filter_path ''eth0'') = Some 0"
    "ex_files (rp_filter_path ''tun0'') = Some 2"
    by (simp_all add: ex_files_def rp_filter_path_inj)
  with rp_filter_only_tun [OF sysctl.procfs_laws_axioms [of "[''all'', ''eth0'', ''tun0'']"],
      of ex_files "''tun0''" "\<lambda>g i. max (the (g (rp_filter_path ''all''))) (the (g (rp_filter_path i)))"]
  show ?thesis by auto
qed

subsection \<open>Nothing is lost or reordered on the way out\<close>

text \<open>The permits of the TUN task, as tokens: one is taken in by the reservation and given away with an event.\<close>

interpretation tun_permits: egress_queue tun_enabled "tun_body w" "\<lambda>st. if ts_permit st then [()] else []"
  "\<lambda>i st. if i = TunPermit then [()] else []" "\<lambda>out. case out of TunEvent e \<Rightarrow> [()] | TunSend d \<Rightarrow> []" for w
proof
  fix i s os r
  assume "tun_enabled i s" and "tun_body w i s = (os, r)"
  then show "\<exists>rest. (if ts_permit s then [()] else []) @ (if i = TunPermit then [()] else []) =
        concat (map (\<lambda>out. case out of TunEvent e \<Rightarrow> [()] | TunSend d \<Rightarrow> []) os) @ rest \<and>
      (\<forall>s'. r = Inr (Some s') \<longrightarrow> rest = (if ts_permit s' then [()] else []))"
    by (induction w i s rule: tun_body.induct) (auto split: sum.splits)
qed

definition is_event :: "tun_output \<Rightarrow> bool" where
  "is_event out \<longleftrightarrow> (case out of TunEvent e \<Rightarrow> True | TunSend d \<Rightarrow> False)"

lemma concat_tokens:
  "concat (map (\<lambda>x. if Q x then [()] else []) xs) = replicate (length (filter Q xs)) ()"
  by (induction xs) auto

text \<open>
  C28. The TUN task hands the packets of the network stack to the device's \<^verbatim>\<open>send\<close> in the order it
  received them, each exactly once, and keeps at most the last one back; a failure loses only packets at
  the end.  (How much of a packet the device writes is up to the device.)  Every packet it raises is covered by a permit it had reserved before.
\<close>

theorem tun_task_order:
  assumes "select_loop tun_enabled (tun_body w) is tun_init = (os, r)"
    and "taken = consumed tun_enabled (tun_body w) is tun_init"
  shows "\<exists>rest. concat (map (\<lambda>(i, s). tun_accepts i s) taken) = concat (map tun_emits os) @ rest \<and>
     (\<forall>s'. r = Inr (Some s') \<longrightarrow> rest = tun_queue s' \<and> length rest \<le> 1) \<and>
     length (filter is_event os) \<le> length (filter (\<lambda>(i, s). i = TunPermit) taken)"
proof -
  have "concat (map (\<lambda>(i, s). if i = TunPermit then [()] else []) taken) =
      replicate (length (filter (\<lambda>(i, s). i = TunPermit) taken)) ()"
    using concat_tokens [of "\<lambda>(i, s). i = TunPermit" taken] by (simp add: case_prod_unfold)
  moreover have "concat (map (\<lambda>out. case out of TunEvent e \<Rightarrow> [()] | TunSend d \<Rightarrow> []) os) = replicate (length (filter is_event os)) ()"
    by (induction os) (auto simp: is_event_def split: tun_output.splits)
  ultimately have "length (filter is_event os) \<le> length (filter (\<lambda>(i, s). i = TunPermit) taken)"
    using tun_permits.loop_flow [OF assms(1)] assms(2) by (auto simp: tun_init_def dest!: arg_cong [where f = length])
  moreover have "length (tun_queue s') \<le> 1" for s' by (simp add: tun_queue_def)
  ultimately show ?thesis using tun.loop_flow [OF assms(1)] assms(2) by (fastforce simp: tun_init_def tun_queue_def)
qed

theorem tun_task_order_witness:
  "select_loop tun_enabled (tun_body basic_wire)
     [TunCommand (SendPacket (V4 [1])), TunCommand (SendPacket (V4 [9])), TunSent (Inr 1), TunCommand (SendPacket (V4 [2]))] tun_init =
       ([TunSend [1]], Inr (Some \<lparr>ts_permit = False, ts_packet_to_send = [2]\<rparr>)) \<and>
   (\<exists>rest. [[1], [2]] = [[1]] @ rest \<and> rest = [[2]])"
proof -
  let ?is = "[TunCommand (SendPacket (V4 [1])), TunCommand (SendPacket (V4 [9])), TunSent (Inr 1), TunCommand (SendPacket (V4 [2]))]"
  have run: "select_loop tun_enabled (tun_body basic_wire) ?is tun_init =
      ([TunSend [1]], Inr (Some \<lparr>ts_permit = False, ts_packet_to_send = [2]\<rparr>))"
    by (simp add: tun_init_def)
  from tun_task_order [OF this refl] run show ?thesis by (simp add: tun_init_def tun_queue_def)
qed

text \<open>
  The UDP server sends the datagrams its handler makes of commands in order, each exactly once,
  and takes no further command while one is waiting for the socket; only a failure loses the last one.
\<close>

theorem udp_task_order:
  assumes "select_loop udp_enabled (udp_body windows L C) is (udp_task_new L C addr) = (os, r)"
    and "taken = consumed udp_enabled (udp_body windows L C) is (udp_task_new L C addr)"
  shows "\<exists>rest. concat (map (\<lambda>(i, s). udp_accepts L C i s) taken) = concat (map udp_emits os) @ rest \<and>
     (\<forall>s'. r = Inr (Some s') \<longrightarrow> rest = udp_queue s')"
  using udp.loop_flow [OF assms(1)] assms(2) by (simp add: udp_task_new_def udp_queue_def)

theorem udp_task_order_witness:
  "\<exists>os s'. select_loop udp_enabled (udp_body False (timed_lru 60000) (timed_lru 60000))
       [UdpPermit, UdpRecv 5 (Inr ([7], SockV4 1 2)), UdpCommand 6 (WriteData (ConnectionId 3) [8]),
        UdpSent (Inr 1), UdpCommand 9 (WriteData (ConnectionId 3) [9])]
       (udp_task_new (timed_lru 60000) (timed_lru 60000) (SockV4 0 51)) = (os, Inr (Some s')) \<and>
     [([8], SockV4 1 2), ([9], SockV4 1 2)] = concat (map udp_emits os) @ udp_queue s'"
proof -
  let ?L = "timed_lru 60000 :: (four_tuple, connection_id, (four_tuple, connection_id) timed) lru"
  let ?C = "timed_lru 60000 :: (connection_id, conn_state \<times> four_tuple, (connection_id, conn_state \<times> four_tuple) timed) lru"
  let ?is = "[UdpPermit, UdpRecv 5 (Inr ([7], SockV4 1 2)), UdpCommand 6 (WriteData (ConnectionId 3) [8]),
        UdpSent (Inr 1), UdpCommand 9 (WriteData (ConnectionId 3) [9])]"
  note eval = udp_task_new_def udp_new_def gen_udp_def remote_host_closed_conn_def udp_receive_data_def unassigned_udp_def
    add_packet_def conn_default_def next_id_def udp_write_data_def timed_lru_def timed_get_def timed_content_def Let_def
  obtain os s' where run: "select_loop udp_enabled (udp_body False ?L ?C) ?is (udp_task_new ?L ?C (SockV4 0 51)) = (os, Inr (Some s'))"
    by (simp add: eval)
  have "concat (map (\<lambda>(i, s). udp_accepts ?L ?C i s) (consumed udp_enabled (udp_body False ?L ?C) ?is (udp_task_new ?L ?C (SockV4 0 51)))) =
      [([8], SockV4 1 2), ([9], SockV4 1 2)]"
    by (simp add: eval)
  with udp_task_order [OF run refl] run show ?thesis by auto
qed

subsection \<open>The log lines of the Linux redirector\<close>

datatype log_level = LError | LWarn | LInfo | LDebug | LTrace

definition ascii_upper :: "char \<Rightarrow> char" where
  "ascii_upper c = (let n = of_char c :: nat in if 97 \<le> n \<and> n \<le> 122 then char_of (n - 32) else c)"

text \<open>\<^verbatim>\<open>Level::from_str\<close> ignores the case.\<close>

definition level_from_str :: "string \<Rightarrow> log_level option" where
  "level_from_str s =
     map_of [(''ERROR'', LError), (''WARN'', LWarn), (''INFO'', LInfo), (''DEBUG'', LDebug), (''TRACE'', LTrace)]
       (map ascii_upper s)"

fun split_once :: "'a \<Rightarrow> 'a list \<Rightarrow> ('a list \<times> 'a list) option" where
  "split_once c [] = None"
| "split_once c (x # xs) = (if x = c then Some ([], xs) else map_option (\<lambda>(a, b). (x # a, b)) (split_once c xs))"

definition trim_ascii_start :: "string \<Rightarrow> string" where
  "trim_ascii_start = dropWhile (\<lambda>c. c \<in> {CHR 0x20, CHR 0x09, CHR 0x0A, CHR 0x0C, CHR 0x0D})"

text \<open>
  The loop over the lines: a line that starts with \<open>[LEVEL \<close> sets the level, any other line is logged at
  the level of the line before.  While shutting down nothing is logged.
\<close>

fun log_lines :: "log_level \<Rightarrow> (bool \<times> string) list \<Rightarrow> (log_level \<times> string) list" where
  "log_lines level [] = []"
| "log_lines level ((shutting_down, line) # lines) =
     (if shutting_down then log_lines level lines
      else
        case Option.bind (strip_prefix (CHR ''['') line) (\<lambda>s.
               Option.bind (split_once (CHR '' '') s) (\<lambda>(l, rest).
                 map_option (\<lambda>l. (l, trim_ascii_start rest)) (level_from_str l))) of
          Some (l, rest) \<Rightarrow> (l, CHR ''['' # rest) # log_lines l lines
        | None \<Rightarrow> (level, line) # log_lines level lines)"

lemma log_lines_continuation:
  assumes "\<forall>(b, l)\<in>set ls. \<not> b \<and> strip_prefix (CHR ''['') l = None"
  shows "log_lines level ls = map (\<lambda>(b, l). (level, l)) ls"
  using assms by (induction ls) auto

subsection \<open>What \<^verbatim>\<open>forward_packets\<close> passes on\<close>

lemma forward_read:
  assumes "ipc_codec_laws (fe_codec E)" and "d \<noteq> []" and "smol_try_from (fe_wire E) d = Inr p"
    and "event = ReceivePacket (fill_ip_checksum (fe_wire E) p) (LocalRedirector (Option.bind t ipc_pid) (Option.bind t ipc_process_name) None)"
    and "fe_try_send E event"
  shows "\<exists>buf. enc_packet (fe_codec E) (PacketWithMeta d t) = Inr buf \<and>
     forward_packets E (FwdRead buf) () = ([FwdEvent event], Inr (Some ()))"
proof -
  obtain buf where "enc_packet (fe_codec E) (PacketWithMeta d t) = Inr buf" "buf \<noteq> []"
    "dec_packet (fe_codec E) buf = Some (PacketWithMeta d t)"
    using ipc_codec_laws.packet_transmitted [OF assms(1,2)] by metis
  then show ?thesis using assms(3-5) by simp
qed

lemma forward_write:
  assumes "ipc_codec_laws (fe_codec E)" and "\<forall>b. fe_write_all E b = Inr ()"
  shows "\<exists>buf. fwd_write E (FromProxy (Some m)) = ([FwdWrite buf], Inr (Some ())) \<and> buf \<noteq> [] \<and>
     dec_from_proxy (fe_codec E) buf = Some (FromProxy (Some m))"
proof -
  obtain buf where "enc_from_proxy (fe_codec E) (FromProxy (Some m)) = Inr buf" "buf \<noteq> []"
    "dec_from_proxy (fe_codec E) buf = Some (FromProxy (Some m))"
    using ipc_codec_laws.from_proxy_transmitted [OF assms(1)] by metis
  then show ?thesis using assms(2) by (simp add: fwd_write_def)
qed

definition basic_fwd :: fwd_env where
  "basic_fwd = \<lparr>fe_wire = basic_wire, fe_codec = plain_codec, fe_write_all = (\<lambda>b. Inr ()), fe_try_send = (\<lambda>e. True)\<rparr>"

lemma basic_fwd_simps [simp]:
  "fe_wire basic_fwd = basic_wire" "fe_codec basic_fwd = plain_codec"
  "fe_write_all basic_fwd b = Inr ()" "fe_try_send basic_fwd e = True"
  by (simp_all add: basic_fwd_def)

end
