(* ===== verification/Python_Api.thy ===== *)
theory Python_Api
  imports Packet_Sources
begin

text \<open>
  The Python side of the library (\<^verbatim>\<open>mitmproxy-rs\<close>): streams (\<^verbatim>\<open>stream.rs\<close>), the task that
  hands new connections to Python handlers (\<^verbatim>\<open>task.rs\<close>), UDP clients (\<^verbatim>\<open>udp_client.rs\<close>),
  and the shutdown of a server (\<^verbatim>\<open>server/base.rs\<close>, \<^verbatim>\<open>src/shutdown.rs\<close>).  What Python
  and tokio do is the environment: it calls the methods, completes the awaited channels and runs the
  handlers.
\<close>

subsection \<open>Streams\<close>

datatype stream_state = Open | HalfClosed | Closed

record stream =
  st_connection_id :: connection_id
  st_state :: stream_state
  st_peername :: socket_addr
  st_sockname :: socket_addr
  st_tunnel_info :: tunnel_info

text \<open>
  A method sends at most one command.  \<open>alive\<close> tells whether the receiver of commands still exists; a
  failed send drops the command and with it the oneshot sender inside.  The oneshot a call creates is
  named by \<open>tx\<close>.
\<close>

datatype py_result = PyNone | PyAwait oneshot | PyEmpty | PyOSError string

definition event_queue_unavailable :: py_result where
  "event_queue_unavailable = PyOSError ''Server has been shut down.''"

definition stream_read :: "bool \<Rightarrow> oneshot \<Rightarrow> u32 \<Rightarrow> stream \<Rightarrow> transport_command list \<times> py_result" where
  "stream_read alive tx n s =
     (case st_state s of
        Closed \<Rightarrow> ([], PyEmpty)
      | _ \<Rightarrow> (if alive then [ReadData (st_connection_id s) n tx] else [], PyAwait tx))"

definition stream_write :: "bool \<Rightarrow> bytes \<Rightarrow> stream \<Rightarrow> transport_command list \<times> py_result" where
  "stream_write alive data s =
     (case st_state s of
        Open \<Rightarrow> if alive then ([WriteData (st_connection_id s) data], PyNone) else ([], event_queue_unavailable)
      | HalfClosed \<Rightarrow> ([], PyOSError ''connection closed'')
      | Closed \<Rightarrow> ([], PyOSError ''connection closed''))"

definition stream_drain :: "bool \<Rightarrow> oneshot \<Rightarrow> stream \<Rightarrow> transport_command list \<times> py_result" where
  "stream_drain alive tx s =
     (if alive then ([DrainWriter (st_connection_id s) tx], PyAwait tx) else ([], event_queue_unavailable))"

definition stream_write_eof :: "bool \<Rightarrow> stream \<Rightarrow> transport_command list \<times> py_result \<times> stream" where
  "stream_write_eof alive s =
     (case st_state s of
        Open \<Rightarrow>
          let s' = s\<lparr>st_state := HalfClosed\<rparr> in
          if alive then ([CloseConnection (st_connection_id s) True], PyNone, s') else ([], event_queue_unavailable, s')
      | HalfClosed \<Rightarrow> ([], PyNone, s)
      | Closed \<Rightarrow> ([], PyNone, s))"

definition stream_close :: "bool \<Rightarrow> stream \<Rightarrow> transport_command list \<times> py_result \<times> stream" where
  "stream_close alive s =
     (case st_state s of
        Closed \<Rightarrow> ([], PyNone, s)
      | _ \<Rightarrow>
          let s' = s\<lparr>st_state := Closed\<rparr> in
          if alive then ([CloseConnection (st_connection_id s) False], PyNone, s') else ([], event_queue_unavailable, s'))"

definition stream_is_closing :: "stream \<Rightarrow> bool" where
  "stream_is_closing s = (case st_state s of Open \<Rightarrow> False | HalfClosed \<Rightarrow> True | Closed \<Rightarrow> True)"

text \<open>The values \<^verbatim>\<open>get_extra_info\<close> returns.\<close>

datatype 'o py_value =
    PyStr string | PyAddr socket_addr | PyPid "u32 option" | PyName "string option" | PyEndpoint "string \<times> u16" | PyObject 'o

definition stream_get_extra_info :: "string \<Rightarrow> 'o option \<Rightarrow> stream \<Rightarrow> string + 'o py_value" where
  "stream_get_extra_info name dflt s =
     (let missing = (case dflt of Some x \<Rightarrow> Inr (PyObject x) | None \<Rightarrow> Inl name) in
      if name = ''transport_protocol'' then Inr (PyStr (if is_tcp (st_connection_id s) then ''tcp'' else ''udp''))
      else if name = ''peername'' then Inr (PyAddr (st_peername s))
      else if name = ''sockname'' then Inr (PyAddr (st_sockname s))
      else case st_tunnel_info s of
        WireGuard src_addr dst_addr \<Rightarrow>
          if name = ''original_src'' then Inr (PyAddr src_addr)
          else if name = ''original_dst'' then Inr (PyAddr dst_addr)
          else missing
      | LocalRedirector pid process_name remote_endpoint \<Rightarrow>
          if name = ''pid'' then Inr (PyPid pid)
          else if name = ''process_name'' then Inr (PyName process_name)
          else if name = ''remote_endpoint'' then
            (case remote_endpoint of Some e \<Rightarrow> Inr (PyEndpoint e) | None \<Rightarrow> missing)
          else missing
      | NoTunnel \<Rightarrow> missing)"

text \<open>The calls Python can make, and dropping the object (which closes it).\<close>

datatype stream_call = CallRead u32 oneshot | CallWrite bytes | CallDrain oneshot | CallWriteEof | CallClose | CallDrop

fun call_stream :: "bool \<Rightarrow> stream_call \<Rightarrow> stream \<Rightarrow> transport_command list \<times> stream" where
  "call_stream alive (CallRead n tx) s = (fst (stream_read alive tx n s), s)"
| "call_stream alive (CallWrite d) s = (fst (stream_write alive d s), s)"
| "call_stream alive (CallDrain tx) s = (fst (stream_drain alive tx s), s)"
| "call_stream alive CallWriteEof s = (let (cs, r, s') = stream_write_eof alive s in (cs, s'))"
| "call_stream alive CallClose s = (let (cs, r, s') = stream_close alive s in (cs, s'))"
| "call_stream alive CallDrop s = (let (cs, r, s') = stream_close alive s in (cs, s'))"

fun stream_calls :: "bool \<Rightarrow> stream_call list \<Rightarrow> stream \<Rightarrow> transport_command list \<times> stream" where
  "stream_calls alive [] s = ([], s)"
| "stream_calls alive (c # cs) s =
     (let (xs, s') = call_stream alive c s; (ys, s'') = stream_calls alive cs s' in (xs @ ys, s''))"

subsection \<open>UDP clients\<close>

record client_state =
  cl_needs_sending :: bool
  cl_payload :: bytes
  cl_packet_tx :: "oneshot option"

definition client_init :: client_state where
  "client_init = \<lparr>cl_needs_sending = False, cl_payload = [], cl_packet_tx = None\<rparr>"

datatype client_input = ClientRecv "int option + bytes" | ClientSent "unit res" | ClientCommand "transport_command option"
datatype client_output = ClientEffect effect | ClientSend bytes

fun client_enabled :: "client_input \<Rightarrow> client_state \<Rightarrow> bool" where
  "client_enabled (ClientRecv r) st \<longleftrightarrow> cl_packet_tx st \<noteq> None"
| "client_enabled (ClientSent r) st \<longleftrightarrow> cl_needs_sending st"
| "client_enabled (ClientCommand c) st \<longleftrightarrow> \<not> cl_needs_sending st"

text \<open>Leaving the loop: the assertion after it, and dropping a reader that still waits.\<close>

definition client_break :: "client_state \<Rightarrow> client_output list \<times> client_state option res" where
  "client_break st =
     (if cl_needs_sending st then ([], Inl (Panicked ''assertion failed: !packet_needs_sending''))
      else (case cl_packet_tx st of None \<Rightarrow> [] | Some tx \<Rightarrow> [ClientEffect (DropData tx)], Inr None))"

fun client_body :: "bool \<Rightarrow> (client_input, client_state, client_output) select_body" where
  "client_body windows (ClientRecv r) st =
     (if remote_host_closed_conn windows r then ([], Inr (Some st))
      else case r of
        Inl e \<Rightarrow> ([], Inl (Failed ''UDP recv() failed''))
      | Inr data \<Rightarrow>
          (case cl_packet_tx st of
             None \<Rightarrow> ([], Inl (Panicked ''called `Option::unwrap()` on a `None` value''))
           | Some tx \<Rightarrow> ([ClientEffect (SendData tx data)], Inr (Some (st\<lparr>cl_packet_tx := None\<rparr>)))))"
| "client_body windows (ClientSent r) st =
     (case r of
        Inl e \<Rightarrow> ([], Inl e)
      | Inr u \<Rightarrow> ([ClientSend (cl_payload st)], Inr (Some (st\<lparr>cl_needs_sending := False\<rparr>))))"
| "client_body windows (ClientCommand None) st = client_break st"
| "client_body windows (ClientCommand (Some (ReadData cid n tx))) st =
     (case cl_packet_tx st of None \<Rightarrow> [] | Some old \<Rightarrow> [ClientEffect (DropData old)],
      Inr (Some (st\<lparr>cl_packet_tx := Some tx\<rparr>)))"
| "client_body windows (ClientCommand (Some (WriteData cid data))) st =
     ([], Inr (Some (st\<lparr>cl_payload := data, cl_needs_sending := True\<rparr>)))"
| "client_body windows (ClientCommand (Some (DrainWriter cid tx))) st = ([ClientEffect (SendUnit tx)], Inr (Some st))"
| "client_body windows (ClientCommand (Some (CloseConnection cid half_close))) st =
     (if \<not> half_close then client_break st else ([], Inr (Some st)))"

text \<open>
  \<^verbatim>\<open>udp_connect\<close>: which address the socket is bound to, given the addresses the host name resolves
  to; binding and connecting are the environment's answers.
\<close>

datatype bind_to = BindHost string u16 | BindAny ip_addr

definition udp_connect ::
  "socket_addr list res \<Rightarrow> (bind_to \<Rightarrow> 's res) \<Rightarrow> ('s \<Rightarrow> socket_addr list \<Rightarrow> 's res) \<Rightarrow> (string \<times> u16) option \<Rightarrow> 's res" where
  "udp_connect lookup bind connect local_addr =
     res_bind lookup (\<lambda>addrs.
     res_bind
       (case local_addr of
          Some (host, port) \<Rightarrow> bind (BindHost host port)
        | None \<Rightarrow>
            if \<exists>x\<in>set addrs. is_ipv4 (sock_ip x) then bind (BindAny (IpV4 0)) else bind (BindAny (IpV6 0)))
       (\<lambda>socket. connect socket addrs))"

subsection \<open>Handing connections to Python\<close>

text \<open>
  The task keeps a handle per connection id.  \<open>PyEvent e call\<close>: the next event, and whether calling
  the handler gives a future; \<open>PyFinished\<close>: a handler's task removes its entry.
\<close>

datatype py_input =
    PyShutdown
  | PyEvent "transport_event option" bool
  | PyFinished connection_id

datatype py_output = SpawnTcp stream "command_chan option" | SpawnUdp stream "command_chan option" | SpawnFailed connection_id

type_synonym py_state = "connection_id \<rightharpoonup> nat"

definition new_stream :: "transport_event \<Rightarrow> stream" where
  "new_stream e =
     (case e of ConnectionEstablished connection_id src_addr dst_addr tunnel_info command_tx \<Rightarrow>
        \<lparr>st_connection_id = connection_id, st_state = Open, st_peername = src_addr, st_sockname = dst_addr,
         st_tunnel_info = tunnel_info\<rparr>)"

text \<open>\<open>h\<close> names the handle of a task that is spawned.  The stream sends to the event's channel if it has one.\<close>

fun py_step :: "nat \<Rightarrow> py_input \<Rightarrow> py_state \<Rightarrow> py_output list \<times> py_state option" where
  "py_step h PyShutdown active_streams = ([], None)"
| "py_step h (PyEvent None call) active_streams = ([], None)"
| "py_step h (PyEvent (Some e) call) active_streams =
     (case e of ConnectionEstablished connection_id src_addr dst_addr tunnel_info command_tx \<Rightarrow>
        if call then
          ([if is_tcp connection_id then SpawnTcp (new_stream e) command_tx else SpawnUdp (new_stream e) command_tx],
           Some (active_streams(connection_id \<mapsto> h)))
        else ([SpawnFailed connection_id], Some active_streams))"
| "py_step h (PyFinished connection_id) active_streams = ([], Some (active_streams(connection_id := None)))"

subsection \<open>Shutdown\<close>

text \<open>
  A tokio watch channel: \<open>w_version\<close> counts the values sent, \<open>w_closed\<close> is set when the sender is
  gone; a receiver knows the last version it has seen (\<open>None\<close> after \<^verbatim>\<open>mark_changed\<close>).
\<close>

record watch_chan =
  w_version :: nat
  w_closed :: bool

type_synonym shutdown_receiver = "nat option"

definition shutdown_channel :: "watch_chan \<times> shutdown_receiver" where
  "shutdown_channel = (\<lparr>w_version = 0, w_closed = False\<rparr>, Some 0)"

text \<open>
  \<^verbatim>\<open>Receiver::recv\<close>: the outer \<open>None\<close> is "not ready".  \<^verbatim>\<open>changed\<close> is ready when there is an
  unseen version or the sender is gone; its result is ignored.
\<close>

definition shutdown_recv :: "watch_chan \<Rightarrow> shutdown_receiver \<Rightarrow> shutdown_receiver option" where
  "shutdown_recv w r = (if r \<noteq> Some (w_version w) \<or> w_closed w then Some None else None)"

definition is_shutting_down :: "watch_chan \<Rightarrow> shutdown_receiver \<Rightarrow> bool" where
  "is_shutting_down w r =
     (case (if w_closed w then None else Some (r \<noteq> Some (w_version w))) of None \<Rightarrow> True | Some b \<Rightarrow> b)"

datatype watch_op = WatchSend | WatchDropSender

fun watch_apply :: "watch_op \<Rightarrow> watch_chan \<Rightarrow> watch_chan" where
  "watch_apply WatchSend w = w\<lparr>w_version := w_version w + 1\<rparr>"
| "watch_apply WatchDropSender w = w\<lparr>w_closed := True\<rparr>"

text \<open>
  \<^verbatim>\<open>shutdown_task\<close>: \<open>outcomes\<close> is what the tasks of the set end with, in the order they do; the
  first failure aborts the rest.  The result is the number of tasks joined, the number aborted, and
  whether the end is announced.
\<close>

datatype task_outcome = TaskOk | TaskFailed string | TaskCancelled | TaskPanicked

fun shutdown_task :: "task_outcome list \<Rightarrow> nat \<times> nat \<times> bool" where
  "shutdown_task [] = (0, 0, True)"
| "shutdown_task (TaskOk # tasks) = (let (j, a, d) = shutdown_task tasks in (Suc j, a, d))"
| "shutdown_task (TaskFailed e # tasks) = (let (j, a, d) = shutdown_task [] in (Suc j, length tasks, d))"
| "shutdown_task (TaskCancelled # tasks) = (let (j, a, d) = shutdown_task [] in (Suc j, length tasks, d))"
| "shutdown_task (TaskPanicked # tasks) = (let (j, a, d) = shutdown_task [] in (Suc j, length tasks, d))"

text \<open>A server holds the trigger of its shutdown until it is closed; dropping it closes it.\<close>

record server =
  sv_start_shutdown :: bool
  sv_start :: watch_chan

definition server_close :: "server \<Rightarrow> server" where
  "server_close s =
     (if sv_start_shutdown s
      then s\<lparr>sv_start_shutdown := False, sv_start := watch_apply WatchDropSender (watch_apply WatchSend (sv_start s))\<rparr>
      else s)"

subsection \<open>The commands of a stream\<close>

text \<open>Writes and closes among the commands.\<close>

fun controls :: "transport_command list \<Rightarrow> transport_command list" where
  "controls [] = []"
| "controls (WriteData i d # cs) = WriteData i d # controls cs"
| "controls (CloseConnection i h # cs) = CloseConnection i h # controls cs"
| "controls (_ # cs) = controls cs"

lemma controls_append [simp]: "controls (xs @ ys) = controls xs @ controls ys"
  by (induction xs rule: controls.induct) auto

fun is_read :: "transport_command \<Rightarrow> bool" where
  "is_read (ReadData i n tx) = True"
| "is_read _ = False"

lemmas stream_defs = stream_read_def stream_write_def stream_drain_def stream_write_eof_def stream_close_def

lemma calls_closed:
  "st_state s = Closed \<Longrightarrow> stream_calls True cs s = (xs, s') \<Longrightarrow> controls xs = [] \<and> (\<forall>c\<in>set xs. \<not> is_read c) \<and> s' = s"
proof (induction cs arbitrary: xs)
  case (Cons c cs)
  then show ?case by (cases c) (fastforce simp: stream_defs split: prod.splits)+
qed simp

definition closes :: "connection_id \<Rightarrow> bool \<Rightarrow> transport_command list" where
  "closes i c = (if c then [CloseConnection i False] else [])"

lemma calls_half_closed:
  "st_state s = HalfClosed \<Longrightarrow> stream_calls True cs s = (xs, s') \<Longrightarrow>
     \<exists>c. controls xs = closes (st_connection_id s) c \<and> (c \<longleftrightarrow> st_state s' = Closed)"
proof (induction cs arbitrary: xs)
  case (Cons c cs)
  obtain ys t where c: "call_stream True c s = (ys, t)" by (metis surj_pair)
  obtain zs where r: "stream_calls True cs t = (zs, s')" and xs: "xs = ys @ zs"
    using Cons.prems(2) c by (auto split: prod.splits)
  consider "t = s" "controls ys = []" | "st_state t = Closed" "controls ys = [CloseConnection (st_connection_id s) False]"
    using c Cons.prems(1) by (cases c) (auto simp: stream_defs)
  then show ?case
  proof cases
    case 1
    then show ?thesis using Cons.IH [OF Cons.prems(1)] r xs by auto
  next
    case 2
    then show ?thesis using calls_closed [OF 2(1) r] xs by (auto simp: closes_def)
  qed
qed (auto simp: closes_def)

lemma calls_close_reached:
  "stream_calls True cs s = (xs, s') \<Longrightarrow> CallClose \<in> set cs \<or> CallDrop \<in> set cs \<Longrightarrow> st_state s' = Closed"
proof (induction cs arbitrary: s xs)
  case (Cons c cs)
  obtain ys t where c: "call_stream True c s = (ys, t)" by (metis surj_pair)
  obtain zs where r: "stream_calls True cs t = (zs, s')"
    using Cons.prems(1) c by (auto split: prod.splits)
  show ?case
  proof (cases "c = CallClose \<or> c = CallDrop")
    case True
    then have "st_state t = Closed" using c by (auto simp: stream_close_def split: stream_state.splits)
    then show ?thesis using calls_closed [OF _ r] by simp
  next
    case False
    then show ?thesis using Cons.IH [OF r] Cons.prems(2) by auto
  qed
qed simp

text \<open>
  C26. Whatever Python does with a stream, the network stack sees a well-formed life: writes first,
  then at most one half-close, then at most one close, all for the stream's own connection; no write
  follows a half-close or a close, and the close has been sent exactly if the stream is closed, which it
  is once it has been closed or dropped.
\<close>

theorem stream_discipline:
  assumes "st_state s = Open" and "stream_calls True cs s = (xs, s')"
  shows "\<exists>ds h c. controls xs = map (WriteData (st_connection_id s)) ds @
       (if h then [CloseConnection (st_connection_id s) True] else []) @ closes (st_connection_id s) c \<and>
     (c \<longleftrightarrow> st_state s' = Closed) \<and> (CallClose \<in> set cs \<or> CallDrop \<in> set cs \<longrightarrow> c)"
  using assms
proof (induction cs arbitrary: xs)
  case Nil
  then show ?case by (intro exI [of _ "[]"] exI [of _ False] exI [of _ False]) (auto simp: closes_def)
next
  case (Cons c cs)
  obtain ys t where c: "call_stream True c s = (ys, t)" by (metis surj_pair)
  obtain zs where r: "stream_calls True cs t = (zs, s')" and xs: "xs = ys @ zs"
    using Cons.prems(2) c by (auto split: prod.splits)
  have t: "st_connection_id t = st_connection_id s" using c Cons.prems(1) by (cases c) (auto simp: stream_defs)
  consider (same) "t = s" "controls ys = []" "c \<noteq> CallClose" "c \<noteq> CallDrop"
    | (wr) d where "t = s" "controls ys = [WriteData (st_connection_id s) d]" "c \<noteq> CallClose" "c \<noteq> CallDrop"
    | (half) "st_state t = HalfClosed" "controls ys = [CloseConnection (st_connection_id s) True]" "c = CallWriteEof"
    | (full) "st_state t = Closed" "controls ys = [CloseConnection (st_connection_id s) False]"
    using c Cons.prems(1) by (cases c) (auto simp: stream_defs)
  then show ?case
  proof cases
    case same
    then show ?thesis using Cons.IH [OF Cons.prems(1)] r xs by auto
  next
    case wr
    obtain ds h k where "controls zs = map (WriteData (st_connection_id s)) ds @
       (if h then [CloseConnection (st_connection_id s) True] else []) @ closes (st_connection_id s) k"
      "k \<longleftrightarrow> st_state s' = Closed" "CallClose \<in> set cs \<or> CallDrop \<in> set cs \<longrightarrow> k"
      using Cons.IH [OF Cons.prems(1)] r wr(1) by blast
    then show ?thesis using wr xs
      by (intro exI [of _ "d # ds"] exI [of _ h] exI [of _ k]) auto
  next
    case half
    obtain k where k: "controls zs = closes (st_connection_id s) k" "k \<longleftrightarrow> st_state s' = Closed"
      using calls_half_closed [OF half(1) r] t by auto
    have "CallClose \<in> set cs \<or> CallDrop \<in> set cs \<longrightarrow> k"
      using calls_close_reached [OF r] k(2) by blast
    then show ?thesis using half k xs
      by (intro exI [of _ "[]"] exI [of _ True] exI [of _ k]) auto
  next
    case full
    have "controls zs = []" "s' = t" using calls_closed [OF full(1) r] by auto
    then show ?thesis using full xs
      by (intro exI [of _ "[]"] exI [of _ False] exI [of _ True]) (auto simp: closes_def)
  qed
qed

definition ex_stream :: stream where
  "ex_stream = \<lparr>st_connection_id = ConnectionId 3, st_state = Open, st_peername = SockV4 1 2, st_sockname = SockV4 3 4,
     st_tunnel_info = NoTunnel\<rparr>"

theorem stream_discipline_witness:
  "\<exists>ds h c. controls (fst (stream_calls True [CallRead 9 1, CallWrite [7], CallWriteEof, CallWrite [8], CallDrop] ex_stream)) =
     map (WriteData (ConnectionId 3)) ds @ (if h then [CloseConnection (ConnectionId 3) True] else []) @ closes (ConnectionId 3) c \<and> c"
proof -
  let ?cs = "[CallRead 9 1, CallWrite [7], CallWriteEof, CallWrite [8], CallDrop]"
  have open_s: "st_state ex_stream = Open" and id: "st_connection_id ex_stream = ConnectionId 3" by (simp_all add: ex_stream_def)
  have "CallDrop \<in> set ?cs" by simp
  with stream_discipline [OF open_s surjective_pairing, of ?cs, unfolded id] show ?thesis by blast
qed

subsection \<open>Half-closing a UDP stream\<close>

text \<open>
  \<^verbatim>\<open>write_eof\<close> is documented as a no-op for UDP streams.  It is not: it sends the half-close to
  the UDP handler, which ignores the flag and closes the connection.  Its queued datagrams are gone, a
  waiting reader is told so, and from then on nothing can be read or written, although the stream
  itself is only half-closed.
\<close>

theorem write_eof_closes_udp:
  assumes "lru_laws C ttl content" and "st_state s = Open"
    and "content now (uh_connections h) (st_connection_id s) = Some (conn, addrs)" and "\<not> cs_closed conn"
  shows "\<exists>cmd s' h' es. stream_write_eof True s = ([cmd], PyNone, s') \<and> st_state s' = HalfClosed \<and>
     udp_handle_command L C now cmd h = Inr (h', es, None) \<and>
     (\<forall>tx. cs_read_tx conn = Some tx \<longrightarrow> es = [DropData tx]) \<and>
     (\<exists>conn'. content now (uh_connections h') (st_connection_id s) = Some (conn', addrs) \<and> cs_closed conn')"
proof -
  obtain found c where g: "lru_get C now (st_connection_id s) (uh_connections h) = (found, c)" by (metis surj_pair)
  from lru_laws.get_pair [OF assms(1) g] assms(3)
  have found: "found = Some (conn, addrs)" and c: "content now c (st_connection_id s) = Some (conn, addrs)" by auto
  obtain conn' es where close: "conn_close conn = (conn', es)" by (metis surj_pair)
  then have "cs_closed conn'" "\<forall>tx. cs_read_tx conn = Some tx \<longrightarrow> es = [DropData tx]"
    using assms(4) by (auto simp: conn_close_def Let_def split: option.splits)
  then show ?thesis
    using assms(2) g found close lru_laws.write_content [OF assms(1) c, of "(conn', addrs)"]
    by (auto simp: stream_write_eof_def udp_close_connection_def)
qed

definition ex_udp :: "((four_tuple, connection_id) timed, (connection_id, conn_state \<times> four_tuple) timed) udp_handler" where
  "ex_udp = \<lparr>uh_generator = ConnectionIdGenerator 5, uh_id_lookup = [],
     uh_connections = [(ConnectionId 3, (\<lparr>cs_closed = False, cs_packets = [], cs_read_tx = Some 1\<rparr>, (SockV4 1 2, SockV4 3 4)), 0)]\<rparr>"

theorem write_eof_closes_udp_witness:
  "\<exists>cmd s' h' es. stream_write_eof True ex_stream = ([cmd], PyNone, s') \<and> st_state s' = HalfClosed \<and>
     udp_handle_command (timed_lru 60000) (timed_lru 60000) 7 cmd ex_udp = Inr (h', es, None) \<and> es = [DropData 1]"
proof -
  have "timed_content 60000 7 (uh_connections ex_udp) (st_connection_id ex_stream) =
      Some (\<lparr>cs_closed = False, cs_packets = [], cs_read_tx = Some 1\<rparr>, (SockV4 1 2, SockV4 3 4))"
    by (simp add: ex_udp_def ex_stream_def timed_content_Cons)
  from write_eof_closes_udp [OF timed.lru_laws_axioms _ this, of "timed_lru 60000"]
  show ?thesis by (fastforce simp: ex_stream_def)
qed

subsection \<open>A shutdown reaches everybody and is never missed\<close>

text \<open>A sender's operations and a receiver's completed \<^verbatim>\<open>recv\<close> calls, interleaved.\<close>

datatype shutdown_op = SenderOp watch_op | TryRecv

fun shutdown_run :: "shutdown_op list \<Rightarrow> watch_chan \<times> shutdown_receiver \<Rightarrow> watch_chan \<times> shutdown_receiver" where
  "shutdown_run [] x = x"
| "shutdown_run (SenderOp op # ops) (w, r) = shutdown_run ops (watch_apply op w, r)"
| "shutdown_run (TryRecv # ops) (w, r) =
     shutdown_run ops (w, case shutdown_recv w r of None \<Rightarrow> r | Some r' \<Rightarrow> r')"

definition triggered :: "watch_chan \<Rightarrow> shutdown_receiver \<Rightarrow> bool" where
  "triggered w r \<longleftrightarrow> w_closed w \<or> r \<noteq> Some (w_version w)"

text \<open>The receiver never knows a version that does not exist yet.\<close>

definition receiver_inv :: "watch_chan \<Rightarrow> shutdown_receiver \<Rightarrow> bool" where
  "receiver_inv w r \<longleftrightarrow> (\<forall>v. r = Some v \<longrightarrow> v \<le> w_version w)"

lemma shutdown_run_triggered:
  "receiver_inv w r \<Longrightarrow> shutdown_run ops (w, r) = (w', r') \<Longrightarrow>
     triggered w' r' \<longleftrightarrow> triggered w r \<or> (\<exists>op. SenderOp op \<in> set ops)"
proof (induction ops "(w, r)" arbitrary: w r rule: shutdown_run.induct)
  case (2 op ops w r)
  have "receiver_inv (watch_apply op w) r" "triggered (watch_apply op w) r"
    using "2.prems"(1) by (cases op; fastforce simp: receiver_inv_def triggered_def)+
  then show ?case using "2.hyps" "2.prems"(2) by auto
next
  case (3 ops w r)
  have "receiver_inv w (case shutdown_recv w r of None \<Rightarrow> r | Some r' \<Rightarrow> r')"
    "triggered w (case shutdown_recv w r of None \<Rightarrow> r | Some r' \<Rightarrow> r') \<longleftrightarrow> triggered w r"
    using "3.prems"(1) by (auto simp: shutdown_recv_def receiver_inv_def triggered_def)
  then show ?case using "3.hyps" "3.prems"(2) by auto
qed auto

text \<open>
  C27. A shutdown is seen by every receiver at any later time and stays visible: however sending,
  dropping the sender and waiting are interleaved, a receiver reports a shutdown, and its
  \<^verbatim>\<open>recv\<close> completes, exactly when the sender has been used or dropped.
\<close>

theorem shutdown_sticky:
  assumes "shutdown_run ops shutdown_channel = (w, r)"
  shows "(is_shutting_down w r \<longleftrightarrow> (\<exists>op. SenderOp op \<in> set ops)) \<and>
     (shutdown_recv w r \<noteq> None \<longleftrightarrow> (\<exists>op. SenderOp op \<in> set ops))"
  using shutdown_run_triggered [of "\<lparr>w_version = 0, w_closed = False\<rparr>" "Some 0" ops w r] assms
  by (auto simp: shutdown_channel_def receiver_inv_def triggered_def is_shutting_down_def shutdown_recv_def)

theorem shutdown_sticky_witness:
  "shutdown_run [TryRecv, SenderOp WatchSend, TryRecv, TryRecv] shutdown_channel = (\<lparr>w_version = 1, w_closed = False\<rparr>, None) \<and>
   is_shutting_down \<lparr>w_version = 1, w_closed = False\<rparr> None"
proof -
  have run: "shutdown_run [TryRecv, SenderOp WatchSend, TryRecv, TryRecv] shutdown_channel = (\<lparr>w_version = 1, w_closed = False\<rparr>, None)"
    by (simp add: shutdown_channel_def shutdown_recv_def)
  from shutdown_sticky [OF this] run show ?thesis by auto
qed

lemma shutdown_task_announces: "\<exists>j a. shutdown_task ts = (j, a, True) \<and> j + a = length ts"
  by (induction ts rule: shutdown_task.induct) auto

lemma server_close_idempotent: "server_close (server_close s) = server_close s"
  by (simp add: server_close_def)

subsection \<open>A UDP client sends in order\<close>

definition client_queue :: "client_state \<Rightarrow> bytes list" where
  "client_queue st = (if cl_needs_sending st then [cl_payload st] else [])"

fun client_accepts :: "client_input \<Rightarrow> client_state \<Rightarrow> bytes list" where
  "client_accepts (ClientCommand (Some (WriteData cid data))) st = [data]"
| "client_accepts _ st = []"

fun client_emits :: "client_output \<Rightarrow> bytes list" where
  "client_emits (ClientSend d) = [d]"
| "client_emits (ClientEffect e) = []"

interpretation client: egress_queue client_enabled "client_body windows" client_queue client_accepts client_emits for windows
proof
  fix i s os r
  assume "client_enabled i s" and "client_body windows i s = (os, r)"
  then show "\<exists>rest. client_queue s @ client_accepts i s = concat (map client_emits os) @ rest \<and>
      (\<forall>s'. r = Inr (Some s') \<longrightarrow> rest = client_queue s')"
    by (induction windows i s rule: client_body.induct)
      (auto simp: client_queue_def client_break_def split: sum.splits option.splits if_splits)
qed

lemma client_body_no_panic: "client_enabled i s \<Longrightarrow> (\<forall>m. i \<noteq> ClientSent (Inl (Panicked m))) \<Longrightarrow> snd (client_body windows i s) \<noteq> Inl (Panicked m)"
  by (induction windows i s rule: client_body.induct) (auto simp: client_break_def split: sum.splits option.splits)

end
