(* ===== verification/Udp_Path.thy ===== *)
theory Udp_Path
  imports Network Python_Api
begin

text \<open>
  The whole way of a UDP exchange: from a packet of the packet source through \<^verbatim>\<open>NetworkTask\<close>
  and \<^verbatim>\<open>UdpHandler\<close> to the stream \<^verbatim>\<open>PyInteropTask\<close> gives to the Python handler, and from
  the methods of that stream back to the packet source.
\<close>

subsection \<open>The stack on a connection with one datagram\<close>

text \<open>The connection of id \<open>i\<close> is alive at time \<open>t\<close>, open, without a waiting reader, and holds the datagrams \<open>ds\<close>.\<close>

definition udp_holds ::
  "(nat \<Rightarrow> 'c \<Rightarrow> connection_id \<rightharpoonup> conn_state \<times> four_tuple) \<Rightarrow> nat \<Rightarrow> connection_id \<Rightarrow> four_tuple \<Rightarrow> bytes list \<Rightarrow>
   ('i, 'c, 'ss, 'f) network_stack \<Rightarrow> bool" where
  "udp_holds cc t i addrs ds ns \<longleftrightarrow>
     cc t (uh_connections (ns_udp ns)) i = Some (conn_default\<lparr>cs_packets := ds\<rparr>, addrs)"

lemma udp_holds_room [simp]: "udp_holds cc t i addrs ds (set_net_room r ns) = udp_holds cc t i addrs ds ns"
  by (simp add: udp_holds_def)

context network_laws
begin

lemma opens_connection:
  assumes inv: "net_inv E cl cc ids t ns" and n: "length ids < 2 ^ 63 - 1"
    and udp: "transport_protocol (ne_wire E) p = Messages.Udp" "\<forall>b. p = V4 b \<longrightarrow> v4_verify_checksum (ne_wire E) b"
    and parsed: "udp_try_from (ne_parse E) p = Inr u"
    and new: "\<forall>i s. cc t (uh_connections (ns_udp ns)) i \<noteq> Some (s, up_src_addr u, up_dst_addr u)"
  obtains i ns' where "i \<notin> set ids" "\<not> is_tcp i"
    "handle_network_event E t (ReceivePacket p ti) ns =
       ([EmitEvent (ConnectionEstablished i (up_src_addr u) (up_dst_addr u) ti None)], Inr ns')"
    "net_inv E cl cc (ids @ [i]) t ns'"
    "\<And>t'. t \<le> t' \<Longrightarrow> t' \<le> t + ttl \<Longrightarrow> udp_holds cc t' i (up_src_addr u, up_dst_addr u) [up_payload u] ns'"
proof -
  let ?u = "filter (\<lambda>i. \<not> is_tcp i) ids"
  obtain h es where r: "udp_receive_data (ne_ids E) (ne_conns E) t u ti (ns_udp ns) = (h, es)" by (metis surj_pair)
  have checked: "(case p of V4 b \<Rightarrow> \<not> v4_verify_checksum (ne_wire E) b | V6 b \<Rightarrow> False) = False"
    using udp(2) by (cases p) auto
  have ev: "handle_network_event E t (ReceivePacket p ti) ns = (es, Inr (ns\<lparr>ns_udp := h\<rparr>))"
    using checked udp(1) parsed r by simp
  have inv_u: "udp_inv cl cc ?u t (ns_udp ns)" using inv by (simp add: net_inv_def)
  have len: "length ?u < 2 ^ 63 - 1" using n length_filter_le order_le_less_trans by blast
  from inv_u len r show thesis
  proof (cases rule: udp.receive_cases)
    case (known i s s')
    then show ?thesis using new by blast
  next
    case (fresh i)
    note ok = handle_network_event_ok [OF inv n ev]
    have "issued gen_udp ?u" "uh_generator (ns_udp ns) = gen_after gen_udp (length ?u)"
      using inv_u by (simp_all add: udp_inv_def udp_ok_def)
    then have "i \<notin> set ?u" using issued_fresh [of gen_udp ?u] len fresh(1) by simp
    moreover have "udp_inv cl cc (?u @ [i]) t h" using udp.receive_inv [OF inv_u len r] fresh(2) by simp
    then have "\<not> is_tcp i" using issued_is_tcp [of gen_udp "?u @ [i]" i] by (simp add: udp_inv_def udp_ok_def gen_udp_def)
    ultimately show ?thesis using that [of i "ns\<lparr>ns_udp := h\<rparr>"] ev ok fresh(2,7) by (simp add: udp_holds_def)
  qed
qed

lemma read_answers:
  assumes "udp_holds cc t i addrs (d # ds) ns" and "\<not> is_tcp i"
  obtains ns' where "handle_transport_command E t (ReadData i k reader) ns = ([SendData reader d], Inr ns')"
    "udp_holds cc t i addrs ds ns'" "net_room ns' = net_room ns"
proof -
  obtain r c where g: "lru_get (ne_conns E) t i (uh_connections (ns_udp ns)) = (r, c)" by (metis surj_pair)
  from udp.conns.get_pair [OF g] assms(1)
  have r: "r = Some (conn_default\<lparr>cs_packets := d # ds\<rparr>, addrs)" and c: "cc t c = cc t (uh_connections (ns_udp ns))"
    by (simp_all add: udp_holds_def)
  let ?ns = "ns\<lparr>ns_udp := (ns_udp ns)\<lparr>uh_connections := lru_write (ne_conns E) i (conn_default\<lparr>cs_packets := ds\<rparr>, addrs) c\<rparr>\<rparr>"
  have "handle_transport_command E t (ReadData i k reader) ns = ([SendData reader d], Inr ?ns)"
    using assms(2) g r by (simp add: handle_transport_command_def udp_read_data_def add_reader_def conn_default_def res_bind_def)
  moreover have "udp_holds cc t i addrs ds ?ns"
    using udp.conns.write_content [of t c i] assms(1) c by (simp add: udp_holds_def)
  ultimately show thesis using that by (simp add: net_room_def)
qed

lemma write_sends:
  assumes "udp_holds cc t i addrs ds ns" and "\<not> is_tcp i" and "0 < net_room ns"
    and "udp_into_smol (ne_emit E) \<lparr>up_src_addr = snd addrs, up_dst_addr = fst addrs, up_payload = data\<rparr> = Inr q"
  obtains ns' where "handle_transport_command E t (WriteData i data) ns = ([EmitCommand (SendPacket q)], Inr ns')"
    "udp_holds cc t i addrs ds ns'"
proof -
  obtain r c where g: "lru_get (ne_conns E) t i (uh_connections (ns_udp ns)) = (r, c)" by (metis surj_pair)
  from udp.conns.get_pair [OF g] assms(1)
  have r: "r = Some (conn_default\<lparr>cs_packets := ds\<rparr>, addrs)" and c: "cc t c = cc t (uh_connections (ns_udp ns))"
    by (simp_all add: udp_holds_def)
  let ?ns = "ns\<lparr>ns_udp := (ns_udp ns)\<lparr>uh_connections := c,
    uh_id_lookup := snd (lru_insert (ne_ids E) t addrs i (uh_id_lookup (ns_udp ns)))\<rparr>\<rparr>"
  have "udp_holds cc t i addrs ds (set_net_room (net_room ns - 1) ?ns)"
    using assms(1) c by (simp add: udp_holds_def)
  moreover have "handle_transport_command E t (WriteData i data) ns =
      ([EmitCommand (SendPacket q)], Inr (set_net_room (net_room ns - 1) ?ns))"
    using assms(2-4) g r
    by (simp add: handle_transport_command_def udp_write_data_def conn_default_def net_try_send_def net_room_def Let_def
        del: udp_into_smol.simps)
  ultimately show thesis using that by blast
qed

text \<open>Polling neither fails nor touches a connection that is alive.\<close>

lemma polled:
  assumes "net_inv E cl cc ids t ns" and "length ids < 2 ^ 63 - 1"
  obtains es st where "after_arm E t permit ns = (es, Inr (Some st))" "events_of es = []" "net_inv E cl cc ids t (nt_io st)"
    "\<And>t' i a ds. t \<le> t' \<Longrightarrow> udp_holds cc t' i a ds (nt_io st) = udp_holds cc t' i a ds ns"
proof -
  obtain es ns' where p: "stack_poll E t ns = (es, Inr ns')" "net_inv E cl cc ids t ns'" "events_of es = []"
    using stack_poll_ok [OF assms] by blast
  from p(1) have "ns_udp ns' = udp_poll (ne_ids E) (ne_conns E) t (ns_udp ns)"
    by (auto simp: stack_poll_def Let_def run_bind_eq_Inr)
  then have "udp_holds cc t' i a ds ns' = udp_holds cc t' i a ds ns" if "t \<le> t'" for t' i a ds
    using udp.conns.iter_content [OF that] by (simp add: udp_holds_def udp_poll_def)
  then show thesis using that [of es] p by (simp add: after_arm_def)
qed

text \<open>One round with the two commands of a read and a write.\<close>

lemma exchange_round:
  assumes inv: "net_inv E cl cc ids t (nt_io st)" and n: "length ids < 2 ^ 63 - 1"
    and held: "udp_holds cc t i addrs (d # ds) (nt_io st)" and i: "\<not> is_tcp i" and room: "0 < net_room (nt_io st)"
    and q: "udp_into_smol (ne_emit E) \<lparr>up_src_addr = snd addrs, up_dst_addr = fst addrs, up_payload = data\<rparr> = Inr q"
  shows "\<exists>es st'. task_round E t (TCommands (ReadData i k reader) [WriteData i data]) st =
      (SendData reader d # EmitCommand (SendPacket q) # es, Inr (Some st')) \<and> events_of es = []"
proof -
  from held i obtain ns1 where 1: "handle_transport_command E t (ReadData i k reader) (nt_io st) = ([SendData reader d], Inr ns1)"
    "udp_holds cc t i addrs ds ns1" "net_room ns1 = net_room (nt_io st)" by (rule read_answers)
  have room1: "0 < net_room ns1" using room 1(3) by simp
  from 1(2) i room1 q obtain ns2 where 2: "handle_transport_command E t (WriteData i data) ns1 = ([EmitCommand (SendPacket q)], Inr ns2)"
    by (rule write_sends)
  have "net_inv E cl cc ids t ns2"
    using handle_transport_command_ok [OF _ n 2] handle_transport_command_ok [OF inv n 1(1)] by blast
  from this n obtain es st' where 3: "after_arm E t (nt_permit st) ns2 = (es, Inr (Some st'))" "events_of es = []"
    by (rule polled)
  show ?thesis using 1(1) 2 3 room1 by simp
qed

end

subsection \<open>Properties\<close>

text \<open>
  C5. A UDP exchange works end to end.  When a valid datagram of an address pair without a live
  connection arrives, the round of the network task that processes it raises exactly one event;
  the Python task spawns a handler whose stream has a new connection id and the datagram's addresses;
  and whenever within the timeout the handler reads and writes on that stream, the next round of
  the network task answers the read with exactly the datagram's data and sends the reply back from the
  datagram's destination to its source.
\<close>

theorem udp_end_to_end:
  assumes laws: "network_laws E ttl cl cc rx tx may_send"
    and reach: "task_reach E n ids now st" and n: "n + 1 < 2 ^ 63 - 1" and "now \<le> t" and permit: "nt_permit st"
    and udp: "transport_protocol (ne_wire E) p = Messages.Udp" "\<forall>b. p = V4 b \<longrightarrow> v4_verify_checksum (ne_wire E) b"
    and parsed: "udp_try_from (ne_parse E) p = Inr u"
    and new: "\<forall>i s. cc t (uh_connections (ns_udp (nt_io st))) i \<noteq> Some (s, up_src_addr u, up_dst_addr u)"
    and q: "udp_into_smol (ne_emit E) \<lparr>up_src_addr = up_dst_addr u, up_dst_addr = up_src_addr u, up_payload = reply\<rparr> = Inr q"
    and t': "t \<le> t'" "t' \<le> t + ttl" and r: "0 < r"
  shows "\<exists>es st1 e s. task_round E t (TEvents (ReceivePacket p ti) []) st = (es, Inr (Some st1)) \<and>
     task_reach E (n + 1) (ids @ [st_connection_id s]) t st1 \<and> st_connection_id s \<notin> set ids \<and>
     events_of es = [e] \<and>
     py_step h (PyEvent (Some e) True) active = ([SpawnUdp s None], Some (active(st_connection_id s \<mapsto> h))) \<and>
     st_peername s = up_src_addr u \<and> st_sockname s = up_dst_addr u \<and> st_tunnel_info s = ti \<and>
     (\<exists>read write es' st2. fst (stream_read True reader k s) = [read] \<and> fst (stream_write True reply s) = [write] \<and>
        task_round E t' (TCommands read [write]) (st1\<lparr>nt_io := set_net_room r (nt_io st1)\<rparr>) =
          (SendData reader (up_payload u) # EmitCommand (SendPacket q) # es', Inr (Some st2)) \<and> events_of es' = [])"
proof -
  from n have "n < 2 ^ 63 - 1" by simp
  from network_laws.reach_ok [OF laws reach this]
  have inv: "net_inv E cl cc ids t (nt_io st)" and len: "length ids < 2 ^ 63 - 2"
    using network_laws.later_ok [OF laws _ \<open>now \<le> t\<close>] n by auto
  from len have len1: "length ids < 2 ^ 63 - 1" by simp
  from network_laws.opens_connection [OF laws inv len1 udp parsed new, of ti] obtain i ns where
    i: "i \<notin> set ids" "\<not> is_tcp i" and
    ev: "handle_network_event E t (ReceivePacket p ti) (nt_io st) =
       ([EmitEvent (ConnectionEstablished i (up_src_addr u) (up_dst_addr u) ti None)], Inr ns)" and
    inv1: "net_inv E cl cc (ids @ [i]) t ns" and
    held: "udp_holds cc t' i (up_src_addr u, up_dst_addr u) [up_payload u] ns"
    using t' by metis
  have len2: "length (ids @ [i]) < 2 ^ 63 - 1" using len by simp
  from network_laws.polled [OF laws inv1 len2] obtain es st1 where
    arm: "after_arm E t False ns = (es, Inr (Some st1))" "events_of es = []" and inv2: "net_inv E cl cc (ids @ [i]) t (nt_io st1)"
    and held1: "udp_holds cc t' i (up_src_addr u, up_dst_addr u) [up_payload u] (nt_io st1)"
    using held t' by metis
  let ?e = "ConnectionEstablished i (up_src_addr u) (up_dst_addr u) ti None"
  let ?st = "st1\<lparr>nt_io := set_net_room r (nt_io st1)\<rparr>"
  have round: "task_round E t (TEvents (ReceivePacket p ti) []) st = (EmitEvent ?e # es, Inr (Some st1))"
    using ev arm by (simp del: handle_network_event.simps)
  have "task_reach E (n + 1) (ids @ [i]) t st1"
    using task_next [OF reach \<open>now \<le> t\<close> _ round] permit arm(2) by simp
  moreover have "net_inv E cl cc (ids @ [i]) t' (nt_io ?st)"
    using network_laws.later_ok [OF laws inv2 t'(1)] by (simp add: net_inv_def)
  from network_laws.exchange_round [OF laws this len2, of i "(up_src_addr u, up_dst_addr u)" "up_payload u" "[]" reply q k reader]
  have "\<exists>es' st2. task_round E t' (TCommands (ReadData i k reader) [WriteData i reply]) ?st =
      (SendData reader (up_payload u) # EmitCommand (SendPacket q) # es', Inr (Some st2)) \<and> events_of es' = []"
    using held1 i(2) r q by (simp del: udp_into_smol.simps task_round.simps)
  ultimately show ?thesis
    using round arm(2) i
    by (intro exI [of _ "EmitEvent ?e # es"] exI [of _ st1] exI [of _ ?e] exI [of _ "new_stream ?e"])
      (simp add: new_stream_def stream_read_def stream_write_def del: task_round.simps)
qed

subsection \<open>A witness: a DNS query\<close>

text \<open>A datagram with the data 1, 2, 3 from 10.0.0.1:5000 to 8.8.8.8:53.\<close>

definition query_packet :: smol_packet where
  "query_packet = V4 [69, 0, 0, 31, 0, 0, 0, 0, 64, 17, 0, 0, 10, 0, 0, 1, 8, 8, 8, 8,
                      19, 136, 0, 53, 0, 11, 0, 0, 1, 2, 3]"

lemma query_packet_udp:
  "transport_protocol basic_wire query_packet = Messages.Udp" "\<forall>b. query_packet = V4 b \<longrightarrow> v4_verify_checksum basic_wire b"
  "udp_try_from (ne_parse basic_env) query_packet = Inr dns_query"
  by (simp_all add: query_packet_def basic_wire_def protocol_of_def udp_try_from_def basic_env_def basic_parse_def be_word_def
      dns_query_def)

lemma query_new:
  "timed_content UDP_TIMEOUT 0 (uh_connections (ns_udp (nt_io permitted_task))) i \<noteq> Some (s, a, b)"
  by (simp add: permitted_task_def task_new_def stack_new_def udp_new_def timed_conns_def timed_lru_def)

lemma v4_reply: "\<exists>q. udp_into_smol w \<lparr>up_src_addr = SockV4 a b, up_dst_addr = SockV4 c d, up_payload = x\<rparr> = Inr q"
  by (simp add: Let_def)

theorem udp_end_to_end_witness:
  "\<exists>q es st1 e s. udp_into_smol basic_emit \<lparr>up_src_addr = SockV4 134744072 53, up_dst_addr = SockV4 167772161 5000, up_payload = [9]\<rparr> = Inr q \<and>
     task_round basic_env 0 (TEvents (ReceivePacket query_packet NoTunnel) []) permitted_task = (es, Inr (Some st1)) \<and>
     events_of es = [e] \<and> py_step 0 (PyEvent (Some e) True) Map.empty = ([SpawnUdp s None], Some [st_connection_id s \<mapsto> 0]) \<and>
     st_peername s = SockV4 167772161 5000 \<and>
     (\<exists>read write es' st2. fst (stream_read True 7 1024 s) = [read] \<and> fst (stream_write True [9] s) = [write] \<and>
        task_round basic_env 59000 (TCommands read [write]) (st1\<lparr>nt_io := set_net_room 1 (nt_io st1)\<rparr>) =
          (SendData 7 [1, 2, 3] # EmitCommand (SendPacket q) # es', Inr (Some st2)))"
proof -
  obtain q where q: "udp_into_smol basic_emit
      \<lparr>up_src_addr = up_dst_addr dns_query, up_dst_addr = up_src_addr dns_query, up_payload = [9]\<rparr> = Inr q"
    using v4_reply [of basic_emit 134744072 53 167772161 5000 "[9]"] unfolding dns_query_def udp_packet.simps by blast
  have q': "udp_into_smol (ne_emit basic_env)
      \<lparr>up_src_addr = up_dst_addr dns_query, up_dst_addr = up_src_addr dns_query, up_payload = [9]\<rparr> = Inr q"
    using q by (simp only: basic_env_def net_env.simps)
  have small: "(0 + 1 :: nat) < 2 ^ 63 - 1" and permit: "nt_permit permitted_task"
    and late: "(0::nat) \<le> 59000" "(59000::nat) \<le> 0 + UDP_TIMEOUT" "(0::nat) < 1"
    by (simp_all add: permitted_task_def UDP_TIMEOUT_def)
  have new: "\<forall>i s. timed_content UDP_TIMEOUT 0 (uh_connections (ns_udp (nt_io permitted_task))) i \<noteq>
      Some (s, up_src_addr dns_query, up_dst_addr dns_query)" using query_new by blast
  have addrs: "up_src_addr dns_query = SockV4 167772161 5000" "up_dst_addr dns_query = SockV4 134744072 53"
    "up_payload dns_query = [1, 2, 3]" by (simp_all add: dns_query_def)
  from udp_end_to_end [OF basic_net.network_laws_axioms permitted_task_reached small order_refl permit query_packet_udp
      [folded basic_env_sel] new q' late, of NoTunnel 0 Map.empty 7 1024] q
  show ?thesis unfolding addrs by blast
qed

end
