(* ===== verification/Tcp_Path.thy ===== *)
theory Tcp_Path
  imports Tcp "HOL-Library.Sublist"
begin

text \<open>
  The byte streams of a TCP connection over its whole life in the handler, through any interleaving
  of packets, commands for this and other connections, and polls.  \<open>Tcp\<close> shows what one pass over
  one connection does; here the passes are put together, with what smoltcp receives and
  what the peer acknowledges in between.
\<close>

subsection \<open>Answers to a set of readers\<close>

text \<open>The data sent to the oneshots of \<open>R\<close>.\<close>

definition answered :: "oneshot set \<Rightarrow> effect list \<Rightarrow> bytes" where
  "answered R es = concat (List.map_filter (\<lambda>e. case e of SendData x b \<Rightarrow> if x \<in> R then Some b else None | _ \<Rightarrow> None) es)"

lemma answered_append [simp]: "answered R (xs @ ys) = answered R xs @ answered R ys"
  by (simp add: answered_def List.map_filter_def)

lemma answered_Nil [simp]: "answered R [] = []"
  by (simp add: answered_def List.map_filter_def)

lemma answered_Cons: "answered R (e # es) = (case e of SendData x b \<Rightarrow> if x \<in> R then b else [] | _ \<Rightarrow> []) @ answered R es"
  by (simp add: answered_def List.map_filter_def split: effect.splits)

lemma answered_others: "set (resolved es) \<inter> R = {} \<Longrightarrow> answered R es = []"
  by (induction es) (auto simp: answered_Cons resolved_def List.map_filter_def split: effect.splits)

lemma answered_own: "set (resolved es) \<subseteq> R \<Longrightarrow> answered R es = concat (delivered es)"
  by (induction es) (auto simp: answered_Cons resolved_def delivered_def List.map_filter_def split: effect.splits)

lemma answered_drop_waiters [simp]: "answered R (drop_waiters d) = []"
proof -
  have "answered R (map DropUnit xs) = []" for xs by (induction xs) (simp_all add: answered_Cons)
  then show ?thesis by (simp add: drop_waiters_def answered_Cons split: option.splits prod.splits)
qed

subsection \<open>One connection of the handler\<close>

definition conn_view :: "('s, 'ss, 'f) tcp_stack \<Rightarrow> ('ss, 'f) tcp_handler \<Rightarrow> connection_id \<Rightarrow> (socket_data \<times> 's) option" where
  "conn_view T t i =
     Option.bind (map_of (th_socket_data t) i) (\<lambda>d. map_option (Pair d) (set_get T (th_sockets t) (sd_handle d)))"

text \<open>What the socket has received, and what the peer has acknowledged, between two states.\<close>

definition rx_gain :: "('s \<Rightarrow> bytes) \<Rightarrow> (socket_data \<times> 's) option \<Rightarrow> (socket_data \<times> 's) option \<Rightarrow> bytes" where
  "rx_gain rx v v' = (case (v, v') of (Some (d, s), Some (d', s')) \<Rightarrow> drop (length (rx s)) (rx s') | _ \<Rightarrow> [])"

definition tx_acked :: "('s \<Rightarrow> bytes) \<Rightarrow> (socket_data \<times> 's) option \<Rightarrow> (socket_data \<times> 's) option \<Rightarrow> bytes" where
  "tx_acked tx v v' = (case (v, v') of (Some (d, s), Some (d', s')) \<Rightarrow> take (length (tx s) - length (tx s')) (tx s) | _ \<Rightarrow> [])"

lemma gain_None [simp]: "rx_gain rx v None = []" "rx_gain rx None v = []" "tx_acked tx v None = []" "tx_acked tx None v = []"
  by (simp_all add: rx_gain_def tx_acked_def split: option.splits)

text \<open>
  The readers of connection \<open>i\<close> are in \<open>R\<close>, those of other connections are not; all are in \<open>U\<close>, the oneshots
  used so far.
\<close>

definition readers_ok :: "connection_id \<Rightarrow> oneshot set \<Rightarrow> oneshot set \<Rightarrow> (connection_id \<times> socket_data) list \<Rightarrow> bool" where
  "readers_ok i U R m \<longleftrightarrow> R \<subseteq> U \<and> (\<forall>(j, d)\<in>set m. set (recv_pending d) \<subseteq> (if j = i then R else U - R))"

lemma readers_ok_Cons:
  "readers_ok i U R ((j, d) # m) \<longleftrightarrow> set (recv_pending d) \<subseteq> (if j = i then R else U - R) \<and> readers_ok i U R m"
  by (auto simp: readers_ok_def)

lemma readers_ok_subset: "readers_ok i U R m \<Longrightarrow> set m' \<subseteq> set m \<Longrightarrow> readers_ok i U R m'"
  unfolding readers_ok_def by blast

subsection \<open>The life of a connection\<close>

text \<open>
  What has happened on a connection: the oneshots used so far and those of its readers, the bytes its
  socket has received and its peer has acknowledged, and the bytes Python has read and written.
\<close>

record conn_log =
  lg_used :: "oneshot set"
  lg_readers :: "oneshot set"
  lg_received :: bytes
  lg_acked :: bytes
  lg_read :: bytes
  lg_written :: bytes

fun log_command :: "connection_id \<Rightarrow> transport_command \<Rightarrow> conn_log \<Rightarrow> conn_log" where
  "log_command i (ReadData j n x) lg =
     lg\<lparr>lg_used := insert x (lg_used lg), lg_readers := (if j = i then insert x (lg_readers lg) else lg_readers lg)\<rparr>"
| "log_command i (WriteData j buf) lg = lg\<lparr>lg_written := lg_written lg @ (if j = i then buf else [])\<rparr>"
| "log_command i (DrainWriter j x) lg = lg"
| "log_command i (CloseConnection j half) lg = lg"

text \<open>Every read comes with a new oneshot.\<close>

fun fresh_command :: "transport_command \<Rightarrow> conn_log \<Rightarrow> bool" where
  "fresh_command (ReadData j n x) lg \<longleftrightarrow> x \<notin> lg_used lg"
| "fresh_command (WriteData j buf) lg \<longleftrightarrow> True"
| "fresh_command (DrainWriter j x) lg \<longleftrightarrow> True"
| "fresh_command (CloseConnection j half) lg \<longleftrightarrow> True"

text \<open>
  A poll from \<open>t\<close> by way of \<open>t1\<close> (the interface has been polled) and \<open>t2\<close> (the connections have been processed) to
  \<open>t3\<close>, with the effects \<open>es\<close>.
\<close>

definition log_poll ::
  "('s \<Rightarrow> bytes) \<Rightarrow> ('s \<Rightarrow> bytes) \<Rightarrow> ('s, 'ss, 'f) tcp_stack \<Rightarrow> connection_id \<Rightarrow> effect list \<Rightarrow> ('ss, 'f) tcp_handler list \<Rightarrow>
   conn_log \<Rightarrow> conn_log" where
  "log_poll rx tx T i es ts lg =
     (let v = map (\<lambda>t. conn_view T t i) ts in
      lg\<lparr>lg_received := lg_received lg @ rx_gain rx (v ! 0) (v ! 1) @ rx_gain rx (v ! 2) (v ! 3),
         lg_acked := lg_acked lg @ tx_acked tx (v ! 0) (v ! 1) @ tx_acked tx (v ! 2) (v ! 3),
         lg_read := lg_read lg @ answered (lg_readers lg) es\<rparr>)"

definition log_new :: "('ss, 'f) tcp_handler \<Rightarrow> conn_log" where
  "log_new t =
     \<lparr>lg_used = (\<Union>x\<in>set (th_socket_data t). set (recv_pending (snd x))), lg_readers = {}, lg_received = [], lg_acked = [],
      lg_read = [], lg_written = []\<rparr>"

inductive conn_history ::
  "smol_wire \<Rightarrow> ('s, 'ss, 'f) tcp_stack \<Rightarrow> ('s \<Rightarrow> bytes) \<Rightarrow> ('s \<Rightarrow> bytes) \<Rightarrow> connection_id \<Rightarrow> connection_id list \<Rightarrow>
   conn_log \<Rightarrow> ('ss, 'f) tcp_handler \<Rightarrow> bool"
  for w T rx tx i where
  opened: "tcp_reach w T ids t \<Longrightarrow> tcp_receive_packet w T p ti t = ([EmitEvent (ConnectionEstablished i src dst ti None)], Inr t') \<Longrightarrow>
    conn_history w T rx tx i (ids @ [i]) (log_new t') t'"
| packet: "conn_history w T rx tx i ids lg t \<Longrightarrow> tcp_receive_packet w T p ti t = (es, Inr t') \<Longrightarrow>
    conn_history w T rx tx i (ids @ event_cids es) lg t'"
| command: "conn_history w T rx tx i ids lg t \<Longrightarrow> fresh_command cmd lg \<Longrightarrow> tcp_handle_command cmd t = (es, Inr t') \<Longrightarrow>
    conn_history w T rx tx i ids (log_command i cmd lg) t'"
| polled: "conn_history w T rx tx i ids lg t \<Longrightarrow> poll_iface T now t = (es1, Inr t1) \<Longrightarrow> process_tcp T t1 = (es2, Inr t2) \<Longrightarrow>
    poll_iface T now t2 = (es3, Inr t3) \<Longrightarrow>
    conn_history w T rx tx i ids (log_poll rx tx T i (es1 @ es2 @ es3) [t, t1, t2, t3] lg) t3"
| drained: "conn_history w T rx tx i ids lg t \<Longrightarrow>
    conn_history w T rx tx i ids lg (t\<lparr>th_device := th_device t\<lparr>vd_room := room\<rparr>\<rparr>)"

text \<open>What holds throughout the life of the connection.\<close>

definition stream_inv ::
  "('s, 'ss, 'f) tcp_stack \<Rightarrow> ('s \<Rightarrow> bytes) \<Rightarrow> ('s \<Rightarrow> bytes) \<Rightarrow> connection_id \<Rightarrow> connection_id list \<Rightarrow> conn_log \<Rightarrow> ('ss, 'f) tcp_handler \<Rightarrow> bool" where
  "stream_inv T rx tx i ids lg t \<longleftrightarrow>
     tcp_inv T ids t \<and> i \<in> set ids \<and> readers_ok i (lg_used lg) (lg_readers lg) (th_socket_data t) \<and>
     prefix (lg_read lg) (lg_received lg) \<and> prefix (lg_acked lg) (lg_written lg) \<and>
     (\<forall>d s. conn_view T t i = Some (d, s) \<longrightarrow>
        lg_read lg @ rx s = lg_received lg \<and> lg_acked lg @ tx s @ sd_send_buffer d = lg_written lg)"

lemma map_of_hm_remove: "map_of (hm_remove c m) j = (if j = c then None else map_of m j)"
  by (induction m) (auto simp: hm_remove_def)

lemma map_of_hm_insert: "map_of (hm_insert c v m) j = (if j = c then Some v else map_of m j)"
  by (induction m) auto

lemma set_hm_insert: "set (hm_insert c v m) \<subseteq> insert (c, v) (set m)"
  by (induction m) (auto split: if_splits)

lemma readers_okD: "readers_ok i U R m \<Longrightarrow> (j, d) \<in> set m \<Longrightarrow> set (recv_pending d) \<subseteq> (if j = i then R else U - R)"
  unfolding readers_ok_def by blast

lemma readers_ok_insert:
  assumes "readers_ok i U R m" and "U \<subseteq> U'" and "R \<subseteq> R'" and "R' - R \<subseteq> U' - U"
    and "set (recv_pending d) \<subseteq> (if j = i then R' else U' - R')"
  shows "readers_ok i U' R' (hm_insert j d m)"
proof -
  have "set (recv_pending d0) \<subseteq> (if k = i then R' else U' - R')" if "(k, d0) \<in> set m" for k d0
    using assms(1-4) that by (fastforce simp: readers_ok_def split: if_splits)
  moreover have "R' \<subseteq> U'" using assms(1-4) by (auto simp: readers_ok_def)
  ultimately show ?thesis using assms(5) set_hm_insert [of j d m] unfolding readers_ok_def by fast
qed

lemma readers_ok_more: "readers_ok i U R m \<Longrightarrow> x \<notin> U \<Longrightarrow> R' = R \<or> R' = insert x R \<Longrightarrow> readers_ok i (insert x U) R' m"
  unfolding readers_ok_def by (fastforce split: if_splits)

locale tcp_stream_laws = tcp_laws w T rx tx may_send
  for w and T :: "('s, 'ss, 'f) tcp_stack" and rx tx may_send +
  assumes poll_queues: "iface_poll T now (f, dev, ss) = ((f', dev', ss'), es) \<Longrightarrow> set_get T ss h = Some s \<Longrightarrow>
      set_get T ss' h = Some s' \<Longrightarrow> prefix (rx s) (rx s') \<and> suffix (tx s') (tx s)"
    and fresh_queues: "sock_listen T a (sock_create T m n) = Inr s \<Longrightarrow>
      rx (sock_set_keep_alive T k (sock_set_timeout T l s)) = [] \<and> tx (sock_set_keep_alive T k (sock_set_timeout T l s)) = []"
begin

lemma poll_iface_view:
  assumes "poll_iface T now t = (es, Inr t')" and "conn_view T t i = Some (d, s)"
  obtains s' where "conn_view T t' i = Some (d, s')" "rx s' = rx s @ rx_gain rx (Some (d, s)) (Some (d, s'))"
    "tx s = tx_acked tx (Some (d, s)) (Some (d, s')) @ tx s'"
proof -
  obtain f dev ss es' where p: "iface_poll T now (th_iface t, th_device t, th_sockets t) = ((f, dev, ss), es')"
    by (metis surj_pair)
  with assms(1) have t': "t' = t\<lparr>th_iface := f, th_device := dev, th_sockets := ss\<rparr>" by (simp add: poll_iface_def)
  from assms(2) have d: "map_of (th_socket_data t) i = Some d" and s: "set_get T (th_sockets t) (sd_handle d) = Some s"
    by (auto simp: conn_view_def bind_eq_Some_conv)
  from poll [OF p] s obtain s' where s': "set_get T ss (sd_handle d) = Some s'" by blast
  from poll_queues [OF p s s'] have "rx s' = rx s @ drop (length (rx s)) (rx s')"
    and "tx s = take (length (tx s) - length (tx s')) (tx s) @ tx s'"
    by (auto simp: prefix_def suffix_def)
  moreover have "conn_view T t' i = Some (d, s')" using d s' by (simp add: t' conn_view_def)
  ultimately show thesis using that by (simp add: rx_gain_def tx_acked_def)
qed

lemma poll_iface_rest:
  assumes "poll_iface T now t = (es, Inr t')"
  shows "th_socket_data t' = th_socket_data t" and "answered R es = []"
proof -
  obtain f dev ss es' where p: "iface_poll T now (th_iface t, th_device t, th_sockets t) = ((f, dev, ss), es')"
    by (metis surj_pair)
  with assms show "th_socket_data t' = th_socket_data t" by (auto simp: poll_iface_def)
  have "\<forall>e\<in>set es'. \<exists>c. e = EmitCommand c" using dev_steps_flow poll [OF p] by blast
  then have "answered R es' = []" by (induction es') (auto simp: answered_Cons)
  then show "answered R es = []" using assms p by (simp add: poll_iface_def)
qed

lemma socket_step_readers:
  assumes "socket_step T (d, s) = (es, Inr (d', s'))"
  shows "set (recv_pending d') \<union> set (resolved es) \<subseteq> set (recv_pending d)" and "sd_handle d' = sd_handle d"
    and "concat (delivered es) @ rx s' = rx s" and "tx s' @ sd_send_buffer d' = tx s @ sd_send_buffer d"
proof -
  have "resolved es @ recv_pending d' = recv_pending d \<and> conn_key (undefined, d') = conn_key (undefined, d) \<and>
      concat (delivered es) @ rx s' = rx s \<and> tx s' @ sd_send_buffer d' = tx s @ sd_send_buffer d"
    using socket_step_ok [of d s undefined] assms by auto
  then show "set (recv_pending d') \<union> set (resolved es) \<subseteq> set (recv_pending d)" "sd_handle d' = sd_handle d"
    "concat (delivered es) @ rx s' = rx s" "tx s' @ sd_send_buffer d' = tx s @ sd_send_buffer d"
    by (metis Un_commute order_refl set_append, auto)
qed

text \<open>One step of the first loop, with the rest of the loop.\<close>

lemma process_sockets_ConsE:
  assumes "process_sockets T ((j, d) # m) ss = (es, Inr (ss', m', rm))"
  obtains s es1 d' s' es2 m2 rm2 where "set_get T ss (sd_handle d) = Some s" "socket_step T (d, s) = (es1, Inr (d', s'))"
    "process_sockets T m (set_put T (sd_handle d) s' ss) = (es2, Inr (ss', m2, rm2))" "es = es1 @ es2" "m' = (j, d') # m2"
    "set_get T (set_put T (sd_handle d) s' ss) = (set_get T ss)(sd_handle d \<mapsto> s')"
proof -
  from assms obtain s where s: "set_get T ss (sd_handle d) = Some s" by (auto split: option.splits)
  with assms obtain es1 d' s' es2 m2 rm2 where "socket_step T (d, s) = (es1, Inr (d', s'))"
    "process_sockets T m (set_put T (sd_handle d) s' ss) = (es2, Inr (ss', m2, rm2))" "es = es1 @ es2" "m' = (j, d') # m2"
    by (auto simp: run_bind_eq_Inr split: prod.splits)
  then show thesis using that s set_put [OF s] by blast
qed

lemma process_sockets_frame:
  "process_sockets T m ss = (es, Inr (ss', m', rm)) \<Longrightarrow> readers_ok i U R m \<Longrightarrow> i \<notin> fst ` set m \<Longrightarrow>
   answered R es = [] \<and> readers_ok i U R m' \<and>
   (\<forall>h. h \<notin> (\<lambda>x. sd_handle (snd x)) ` set m \<longrightarrow> set_get T ss' h = set_get T ss h)"
proof (induction m arbitrary: ss es m' rm)
  case (Cons x m)
  obtain j d where x: "x = (j, d)" by (cases x)
  from Cons.prems(1) [unfolded x] obtain s es1 d' s' es2 m2 rm2 where step: "socket_step T (d, s) = (es1, Inr (d', s'))"
    "process_sockets T m (set_put T (sd_handle d) s' ss) = (es2, Inr (ss', m2, rm2))" "es = es1 @ es2" "m' = (j, d') # m2"
    "set_get T (set_put T (sd_handle d) s' ss) = (set_get T ss)(sd_handle d \<mapsto> s')"
    by (rule process_sockets_ConsE)
  have ok: "readers_ok i U R m" "j \<noteq> i" "i \<notin> fst ` set m" "set (recv_pending d) \<subseteq> U - R"
    using Cons.prems(2,3) x by (auto simp: readers_ok_Cons split: if_splits)
  note IH = Cons.IH [OF step(2) ok(1,3)]
  have "answered R es1 = []" and "set (recv_pending d') \<subseteq> U - R"
    using socket_step_readers(1) [OF step(1)] ok(4) by (auto intro!: answered_others)
  then show ?case using IH step(3-5) ok(2) x by (simp add: readers_ok_Cons)
qed simp

lemma process_sockets_conn:
  "process_sockets T m ss = (es, Inr (ss', m', rm)) \<Longrightarrow> readers_ok i U R m \<Longrightarrow> distinct (map fst m) \<Longrightarrow>
   distinct (map (\<lambda>x. sd_handle (snd x)) m) \<Longrightarrow> (i, d) \<in> set m \<Longrightarrow>
   \<exists>s es_i d' s'. set_get T ss (sd_handle d) = Some s \<and> socket_step T (d, s) = (es_i, Inr (d', s')) \<and> (i, d') \<in> set m' \<and>
     set_get T ss' (sd_handle d) = Some s' \<and> answered R es = concat (delivered es_i) \<and> readers_ok i U R m'"
proof (induction m arbitrary: ss es m' rm)
  case (Cons x m)
  obtain j d0 where x: "x = (j, d0)" by (cases x)
  from Cons.prems(1) [unfolded x] obtain s es1 d' s' es2 m2 rm2 where step: "set_get T ss (sd_handle d0) = Some s"
    "socket_step T (d0, s) = (es1, Inr (d', s'))"
    "process_sockets T m (set_put T (sd_handle d0) s' ss) = (es2, Inr (ss', m2, rm2))" "es = es1 @ es2" "m' = (j, d') # m2"
    "set_get T (set_put T (sd_handle d0) s' ss) = (set_get T ss)(sd_handle d0 \<mapsto> s')"
    by (rule process_sockets_ConsE)
  have ok: "readers_ok i U R m" "set (recv_pending d0) \<subseteq> (if j = i then R else U - R)"
    using Cons.prems(2) x by (simp_all add: readers_ok_Cons)
  note readers = socket_step_readers(1) [OF step(2)]
  show ?case
  proof (cases "j = i")
    case True
    with Cons.prems(3,5) x have d: "d0 = d" and fresh: "i \<notin> fst ` set m" by (auto simp: image_iff)
    have other: "sd_handle d \<notin> (\<lambda>x. sd_handle (snd x)) ` set m" using Cons.prems(4) x d by simp
    note frame = process_sockets_frame [OF step(3) ok(1) fresh]
    have "answered R es1 = concat (delivered es1)" using answered_own readers ok(2) True by auto
    then show ?thesis using step frame True d other readers ok(2) by (auto simp: readers_ok_Cons)
  next
    case False
    with Cons.prems(5) x have mem: "(i, d) \<in> set m" by auto
    have dist: "distinct (map fst m)" "distinct (map (\<lambda>x. sd_handle (snd x)) m)" using Cons.prems(3,4) by simp_all
    have "sd_handle d \<noteq> sd_handle d0" using Cons.prems(4) x mem by force
    moreover have "answered R es1 = []" by (rule answered_others) (use readers ok(2) False in auto)
    moreover have "set (recv_pending d') \<subseteq> U - R" using readers ok(2) False by auto
    ultimately show ?thesis using Cons.IH [OF step(3) ok(1) dist mem] step(4-6) False by (auto simp: readers_ok_Cons)
  qed
qed simp

lemma remove_connections_view:
  "remove_connections T cids t = (es, Inr t') \<Longrightarrow> distinct (map (\<lambda>x. sd_handle (snd x)) (th_socket_data t)) \<Longrightarrow>
   answered R es = [] \<and> set (th_socket_data t') \<subseteq> set (th_socket_data t) \<and>
   conn_view T t' i = (if i \<in> set cids then None else conn_view T t i)"
proof (induction cids arbitrary: t es)
  case (Cons c cids)
  show ?case
  proof (cases "map_of (th_socket_data t) c")
    case (Some d)
    let ?t = "t\<lparr>th_socket_data := hm_remove c (th_socket_data t),
      th_sockets := set_remove T (sd_handle d) (th_sockets t), th_active := th_active t - {sd_addr_tuple d}\<rparr>"
    from Cons.prems(1) Some obtain es' where r: "remove_connections T cids ?t = (es', Inr t')" "es = drop_waiters d @ es'"
      by (auto simp: run_bind_eq_Inr simp del: run_bind_simps)
    have "distinct (map (\<lambda>x. sd_handle (snd x)) (th_socket_data ?t))"
      using Cons.prems(2) by (simp add: hm_remove_def distinct_map_filter)
    note IH = Cons.IH [OF r(1) this]
    have "sd_handle d' \<noteq> sd_handle d" if "map_of (th_socket_data t) i = Some d'" "i \<noteq> c" for d'
      using Cons.prems(2) map_of_SomeD [OF that(1)] map_of_SomeD [OF Some] that(2) by (force simp: distinct_map inj_on_def)
    then have "conn_view T ?t i = (if i = c then None else conn_view T t i)"
      by (cases "map_of (th_socket_data t) i") (auto simp: conn_view_def set_remove map_of_hm_remove)
    moreover have "set (hm_remove c (th_socket_data t)) \<subseteq> set (th_socket_data t)" by (auto simp: hm_remove_def)
    ultimately show ?thesis using IH r(2) by auto
  qed (use Cons.prems in simp)
qed simp

lemma view_in: "tcp_inv T ids t \<Longrightarrow> conn_view T t i = Some (d, s) \<longleftrightarrow>
    (i, d) \<in> set (th_socket_data t) \<and> set_get T (th_sockets t) (sd_handle d) = Some s"
  by (auto simp: conn_view_def bind_eq_Some_conv tcp_inv_def tcp_ok_def map_of_eq_Some_iff fst_conn_key [symmetric] comp_def
      dest: map_of_SomeD)

lemma view_None: "tcp_inv T ids t \<Longrightarrow> conn_view T t i = None \<longleftrightarrow> i \<notin> fst ` set (th_socket_data t)"
  using handles_present [of ids t] view_in [of ids t i] by (cases "conn_view T t i") (force simp: image_iff)+

lemma process_tcp_view:
  assumes inv: "tcp_inv T ids t" and r: "process_tcp T t = (es, Inr t')" and ok: "readers_ok i U R (th_socket_data t)"
  shows "readers_ok i U R (th_socket_data t')"
    and "conn_view T t i = None \<Longrightarrow> answered R es = [] \<and> conn_view T t' i = None"
    and "conn_view T t i = Some (d, s) \<Longrightarrow> \<exists>es_i d' s'. socket_step T (d, s) = (es_i, Inr (d', s')) \<and>
      answered R es = concat (delivered es_i) \<and> (conn_view T t' i = None \<or> conn_view T t' i = Some (d', s'))"
proof -
  let ?m = "th_socket_data t"
  obtain es1 ss m' rm es2 where 1: "process_sockets T ?m (th_sockets t) = (es1, Inr (ss, m', rm))"
    and 2: "remove_connections T rm (t\<lparr>th_sockets := ss, th_socket_data := m', th_remove_conns := []\<rparr>) = (es2, Inr t')"
    and es: "es = es1 @ es2"
    using r inv by (auto simp: process_tcp_def run_bind_eq_Inr tcp_inv_def)
  let ?t = "t\<lparr>th_sockets := ss, th_socket_data := m', th_remove_conns := []\<rparr>"
  have keys: "map conn_key m' = map conn_key ?m" and dom: "dom (set_get T ss) = dom (set_get T (th_sockets t))"
    using process_sockets_ok [of ?m "th_sockets t", OF handles_present [OF inv]] 1 by auto
  have inv1: "tcp_inv T ids ?t" using inv keys dom by (simp add: tcp_inv_def)
  have dist: "distinct (map fst ?m)" "distinct (map (\<lambda>x. sd_handle (snd x)) ?m)" "distinct (map (\<lambda>x. sd_handle (snd x)) m')"
    using inv inv1 by (auto simp: tcp_inv_def tcp_ok_def conn_key_eq comp_def)
  have fst': "fst ` set m' = fst ` set ?m" using keys by (metis fst_conn_key list.set_map)
  note rem = remove_connections_view [OF 2, of R i, simplified, OF dist(3)]
  have ok': "readers_ok i U R m'"
  proof (cases "i \<in> fst ` set ?m")
    case True
    then obtain d where "(i, d) \<in> set ?m" by auto
    from process_sockets_conn [OF 1 ok dist(1,2) this] show ?thesis by blast
  qed (use process_sockets_frame [OF 1 ok] in blast)
  show "readers_ok i U R (th_socket_data t')" using readers_ok_subset [OF ok'] rem by blast
  show "answered R es = [] \<and> conn_view T t' i = None" if "conn_view T t i = None"
    using that view_None [OF inv] view_None [OF inv1] process_sockets_frame [OF 1 ok] rem fst' es by (simp split: if_splits)
  assume "conn_view T t i = Some (d, s)"
  then have mem: "(i, d) \<in> set ?m" and s: "set_get T (th_sockets t) (sd_handle d) = Some s" using view_in [OF inv] by auto
  from process_sockets_conn [OF 1 ok dist(1,2) mem] s obtain es_i d' s' where
    c: "socket_step T (d, s) = (es_i, Inr (d', s'))" "(i, d') \<in> set m'" "set_get T ss (sd_handle d) = Some s'"
      "answered R es1 = concat (delivered es_i)" by auto
  then have "conn_view T ?t i = Some (d', s')"
    using view_in [OF inv1, of i d' s'] socket_step_readers(2) [OF c(1)] by simp
  then show "\<exists>es_i d' s'. socket_step T (d, s) = (es_i, Inr (d', s')) \<and>
      answered R es = concat (delivered es_i) \<and> (conn_view T t' i = None \<or> conn_view T t' i = Some (d', s'))"
    using c rem es by auto
qed

lemma receive_view:
  assumes inv: "tcp_inv T ids t" and n: "length ids < 2 ^ 63" and r: "tcp_receive_packet w T p ti t = (es, Inr t')" and i: "i \<in> set ids"
    and ok: "readers_ok i U R (th_socket_data t)"
  shows "conn_view T t' i = conn_view T t i" and "readers_ok i U R (th_socket_data t')" and "tcp_inv T (ids @ event_cids es) t'"
proof -
  have ss: "set_get T (th_sockets t) \<subseteq>\<^sub>m set_get T (th_sockets t')"
    using r set_add by (auto simp: tcp_receive_packet_def Let_def map_le_def split: if_splits prod.splits sum.splits)
  have "conn_view T t' i = conn_view T t i \<and> readers_ok i U R (th_socket_data t') \<and> tcp_inv T (ids @ event_cids es) t'"
    using inv n r
  proof (cases rule: tcp_receive_cases)
    case (connected cid h a)
    have inv': "tcp_inv T (ids @ [cid]) t'" by (rule connected(8))
    have "conn_view T t' i = conn_view T t i"
    proof (cases "conn_view T t i")
      case None
      then have "i \<notin> fst ` set (th_socket_data t')" using view_None [OF inv, of i] connected(4,5) i by auto
      then show ?thesis using view_None [OF inv', of i] None by simp
    next
      case (Some v)
      then obtain d s where v: "conn_view T t i = Some (d, s)" by (cases v) auto
      then have "(i, d) \<in> set (th_socket_data t')" "set_get T (th_sockets t') (sd_handle d) = Some s"
        using view_in [OF inv] connected(5) ss by (auto simp: map_le_def dom_def)
      then show ?thesis using view_in [OF inv'] v by simp
    qed
    moreover have "readers_ok i U R (th_socket_data t')"
      using ok connected(5) by (auto simp: readers_ok_def recv_pending_def new_socket_data_def)
    ultimately show ?thesis using connected(1) inv' by simp
  qed (use inv ok in \<open>simp_all add: conn_view_def tcp_inv_def\<close>)
  then show "conn_view T t' i = conn_view T t i" "readers_ok i U R (th_socket_data t')" "tcp_inv T (ids @ event_cids es) t'"
    by blast+
qed

lemma receive_opens:
  assumes "tcp_receive_packet w T p ti t = ([EmitEvent (ConnectionEstablished i src dst ti' x)], Inr t')"
    and "conn_view T t' i = Some (d, s)"
  shows "sd_send_buffer d = [] \<and> recv_pending d = [] \<and> rx s = [] \<and> tx s = []"
proof -
  from assms(1) obtain h s0 a ss where l: "sock_listen T (snd a) (sock_create T (64 * 1024) (64 * 1024)) = Inr s0"
    and add: "set_add T (sock_set_keep_alive T (28 * 1000) (sock_set_timeout T (60 * 1000) s0)) (th_sockets t) = (h, ss)"
    and t': "th_sockets t' = ss" "th_socket_data t' = hm_insert i (new_socket_data h a) (th_socket_data t)"
    by (auto simp: tcp_receive_packet_def Let_def split: if_splits prod.splits sum.splits)
  show ?thesis
    using assms(2) set_add [OF add] fresh_queues [OF l]
    by (auto simp: conn_view_def t' map_of_hm_insert new_socket_data_def recv_pending_def)
qed

lemma command_view:
  assumes r: "tcp_handle_command cmd t = (es, Inr t')" and fresh: "fresh_command cmd lg"
    and ok: "readers_ok i (lg_used lg) (lg_readers lg) (th_socket_data t)"
  shows "readers_ok i (lg_used (log_command i cmd lg)) (lg_readers (log_command i cmd lg)) (th_socket_data t')"
    and "conn_view T t' i = Some (d', s) \<Longrightarrow> \<exists>d new. conn_view T t i = Some (d, s) \<and>
      lg_written (log_command i cmd lg) = lg_written lg @ new \<and> sd_send_buffer d' = sd_send_buffer d @ new"
proof -
  note defs = tcp_read_data_def tcp_write_data_def tcp_drain_writer_def tcp_close_connection_def
  have ins: "readers_ok i (lg_used lg) (lg_readers lg) (hm_insert j d (th_socket_data t))"
    if "map_of (th_socket_data t) j = Some d0" "recv_pending d = recv_pending d0" for j d d0
    using readers_ok_insert [OF ok order_refl order_refl, of d j] readers_okD [OF ok map_of_SomeD [OF that(1)]] that(2) by simp
  show "readers_ok i (lg_used (log_command i cmd lg)) (lg_readers (log_command i cmd lg)) (th_socket_data t')"
  proof (cases cmd)
    case (ReadData j n x)
    have more: "readers_ok i (insert x (lg_used lg)) R' (th_socket_data t)" if "R' = lg_readers lg \<or> R' = insert x (lg_readers lg)" for R'
      using readers_ok_more [OF ok] fresh ReadData that by simp
    have "x \<notin> lg_readers lg" using ok fresh ReadData by (auto simp: readers_ok_def)
    then show ?thesis
      using r ReadData fresh more [of "lg_readers lg"] more [of "insert x (lg_readers lg)"]
      by (auto simp: defs recv_pending_def split: option.splits if_splits intro!: readers_ok_insert [OF ok])
  qed (use r ok ins in \<open>auto simp: defs recv_pending_def split: option.splits\<close>)
  show "\<exists>d new. conn_view T t i = Some (d, s) \<and> lg_written (log_command i cmd lg) = lg_written lg @ new \<and>
      sd_send_buffer d' = sd_send_buffer d @ new" if "conn_view T t' i = Some (d', s)"
    using r that
    by (cases cmd) (auto simp: defs conn_view_def map_of_hm_insert bind_eq_Some_conv split: option.splits if_splits)
qed

lemma stream_inv_command:
  assumes inv: "stream_inv T rx tx i ids lg t" and fresh: "fresh_command cmd lg" and r: "tcp_handle_command cmd t = (es, Inr t')"
  shows "stream_inv T rx tx i ids (log_command i cmd lg) t'"
proof -
  have same: "lg_read (log_command i cmd lg) = lg_read lg" "lg_received (log_command i cmd lg) = lg_received lg"
    "lg_acked (log_command i cmd lg) = lg_acked lg" "\<exists>new. lg_written (log_command i cmd lg) = lg_written lg @ new"
    by (cases cmd; simp)+
  have ok: "readers_ok i (lg_used lg) (lg_readers lg) (th_socket_data t)" using inv by (simp add: stream_inv_def)
  have "tcp_inv T ids t'" using inv command_keys [OF r] by (simp add: stream_inv_def tcp_inv_def)
  moreover have "lg_read lg @ rx s = lg_received lg \<and> lg_acked lg @ tx s @ sd_send_buffer d = lg_written (log_command i cmd lg)"
    if "conn_view T t' i = Some (d, s)" for d s
    using command_view(2) [OF r fresh ok that] inv by (auto simp: stream_inv_def)
  ultimately show ?thesis
    using inv command_view(1) [OF r fresh ok] same unfolding stream_inv_def by (auto simp: prefix_def)
qed

lemma poll_iface_inv:
  assumes "poll_iface T now t = (es, Inr t')" and "tcp_inv T ids t"
  shows "tcp_inv T ids t'" and "conn_view T t i = None \<Longrightarrow> conn_view T t' i = None"
proof -
  show inv': "tcp_inv T ids t'" using poll_iface_ok [OF assms(2), of now] assms(1) by auto
  show "conn_view T t i = None \<Longrightarrow> conn_view T t' i = None"
    using view_None [OF assms(2), of i] view_None [OF inv', of i] poll_iface_rest(1) [OF assms(1)] by simp
qed

lemma stream_inv_poll:
  assumes inv: "stream_inv T rx tx i ids lg t" and 1: "poll_iface T now t = (es1, Inr t1)"
    and 2: "process_tcp T t1 = (es2, Inr t2)" and 3: "poll_iface T now t2 = (es3, Inr t3)"
  shows "stream_inv T rx tx i ids (log_poll rx tx T i (es1 @ es2 @ es3) [t, t1, t2, t3] lg) t3"
proof -
  let ?lg = "log_poll rx tx T i (es1 @ es2 @ es3) [t, t1, t2, t3] lg" and ?R = "lg_readers lg"
  have inv0: "tcp_inv T ids t" and ok: "readers_ok i (lg_used lg) ?R (th_socket_data t)" using inv by (auto simp: stream_inv_def)
  note inv1 = poll_iface_inv [OF 1 inv0]
  have inv2: "tcp_inv T ids t2" using process_tcp_ok [OF inv1(1)] 2 by auto
  note inv3 = poll_iface_inv [OF 3 inv2]
  have ok1: "readers_ok i (lg_used lg) ?R (th_socket_data t1)" using ok poll_iface_rest(1) [OF 1] by simp
  note pr = process_tcp_view [OF inv1(1) 2 ok1]
  have ok3: "readers_ok i (lg_used lg) ?R (th_socket_data t3)" using pr(1) poll_iface_rest(1) [OF 3] by simp
  have ans: "answered ?R (es1 @ es2 @ es3) = answered ?R es2" using poll_iface_rest(2) [OF 1] poll_iface_rest(2) [OF 3] by simp
  show ?thesis
  proof (cases "conn_view T t i")
    case None
    note v1 = inv1(2) [OF this]
    from pr(2) [OF v1] have v2: "conn_view T t2 i = None" and es2: "answered ?R es2 = []" by auto
    note v3 = inv3(2) [OF v2]
    show ?thesis
      using inv inv3(1) ok3 None ans v1 v2 v3 es2
      by (simp add: stream_inv_def log_poll_def Let_def eval_nat_numeral)
  next
    case (Some v)
    then obtain d s where v: "conn_view T t i = Some (d, s)" by (cases v) auto
    obtain s1 where s1: "conn_view T t1 i = Some (d, s1)" "rx s1 = rx s @ rx_gain rx (Some (d, s)) (Some (d, s1))"
      "tx s = tx_acked tx (Some (d, s)) (Some (d, s1)) @ tx s1" by (rule poll_iface_view [OF 1 v])
    obtain es_i d2 s2 where s2: "socket_step T (d, s1) = (es_i, Inr (d2, s2))" "answered ?R es2 = concat (delivered es_i)"
      "conn_view T t2 i = None \<or> conn_view T t2 i = Some (d2, s2)" using pr(3) [OF s1(1)] by blast
    note st = socket_step_readers(3,4) [OF s2(1)]
    have eq: "lg_read lg @ rx s = lg_received lg" "lg_acked lg @ tx s @ sd_send_buffer d = lg_written lg"
      using inv v by (auto simp: stream_inv_def)
    from s2(3) show ?thesis
    proof
      assume v2: "conn_view T t2 i = None"
      note v3 = inv3(2) [OF this]
      have "lg_received ?lg = lg_read lg @ rx s1" "lg_read ?lg = lg_read lg @ concat (delivered es_i)"
        "lg_acked ?lg = lg_acked lg @ tx_acked tx (Some (d, s)) (Some (d, s1))" "lg_written ?lg = lg_acked ?lg @ tx s1 @ sd_send_buffer d"
        using eq s1 v v2 v3 ans s2(2) by (simp_all add: log_poll_def Let_def eval_nat_numeral)
      moreover have "lg_used ?lg = lg_used lg" "lg_readers ?lg = ?R" by (simp_all add: log_poll_def Let_def)
      ultimately show ?thesis
        using inv inv3(1) ok3 v3 st(1) [symmetric] by (simp add: stream_inv_def)
    next
      assume v2: "conn_view T t2 i = Some (d2, s2)"
      obtain s3 where s3: "conn_view T t3 i = Some (d2, s3)" "rx s3 = rx s2 @ rx_gain rx (Some (d2, s2)) (Some (d2, s3))"
        "tx s2 = tx_acked tx (Some (d2, s2)) (Some (d2, s3)) @ tx s3" by (rule poll_iface_view [OF 3 v2])
      have "lg_received ?lg = lg_read ?lg @ rx s3" "lg_written ?lg = lg_acked ?lg @ tx s3 @ sd_send_buffer d2"
        using eq s1 v v2 s3 ans s2(2) st
        by (simp_all add: log_poll_def Let_def eval_nat_numeral)
      moreover have "lg_used ?lg = lg_used lg" "lg_readers ?lg = ?R" by (simp_all add: log_poll_def Let_def)
      ultimately show ?thesis
        using inv inv3(1) ok3 s3(1) by (simp add: stream_inv_def)
    qed
  qed
qed

lemma history_inv: "conn_history w T rx tx i ids lg t \<Longrightarrow> length ids < 2 ^ 63 \<Longrightarrow> stream_inv T rx tx i ids lg t"
proof (induction rule: conn_history.induct)
  case (opened ids t p ti src dst t')
  then have n: "length ids < 2 ^ 63" by simp
  from tcp_recv [OF opened.hyps] have "tcp_reach w T (ids @ [i]) t'" by simp
  from reach_inv [OF this] opened.prems have inv: "tcp_inv T (ids @ [i]) t'" by simp
  moreover have "recv_pending d = []" if "(i, d) \<in> set (th_socket_data t')" for d
    using receive_opens [OF opened.hyps(2)] handles_present [OF inv that] view_in [OF inv] that by fastforce
  then have "readers_ok i (lg_used (log_new t')) (lg_readers (log_new t')) (th_socket_data t')"
    unfolding readers_ok_def log_new_def by force
  ultimately show ?case using receive_opens [OF opened.hyps(2)] by (simp add: stream_inv_def log_new_def)
next
  case (packet ids lg t p ti es t')
  then have inv: "stream_inv T rx tx i ids lg t" and n: "length ids < 2 ^ 63" by auto
  then have "tcp_inv T ids t" "i \<in> set ids" "readers_ok i (lg_used lg) (lg_readers lg) (th_socket_data t)"
    by (auto simp: stream_inv_def)
  note rv = receive_view [OF this(1) n packet.hyps(2) this(2,3)]
  show ?case using inv rv by (simp add: stream_inv_def)
next
  case (command ids lg t cmd es t')
  then show ?case using stream_inv_command by blast
next
  case (polled ids lg t now es1 t1 es2 t2 es3 t3)
  then show ?case using stream_inv_poll by blast
next
  case (drained ids lg t room)
  then show ?case by (simp add: stream_inv_def tcp_inv_def conn_view_def)
qed

end

subsection \<open>Properties\<close>

text \<open>
  C6. TCP through the handler is a pair of byte streams.  From the SYN that opens a connection on,
  through any interleaving of packets, commands for any connection and polls, what Python has read is
  a prefix of what the socket has received, and what the peer has acknowledged is a prefix of what Python has
  written; and as long as the connection exists, nothing is missing: the data read followed by the
  socket's receive queue is all that was received, and the data acknowledged followed by the socket's
  send queue and the handler's send buffer is all that was written.
\<close>

theorem tcp_streams:
  assumes "tcp_stream_laws w T rx tx may_send" and "conn_history w T rx tx i ids lg t" and "length ids < 2 ^ 63"
  shows "prefix (lg_read lg) (lg_received lg) \<and> prefix (lg_acked lg) (lg_written lg) \<and>
     (case conn_view T t i of
        None \<Rightarrow> True
      | Some (d, s) \<Rightarrow> lg_read lg @ rx s = lg_received lg \<and> lg_acked lg @ tx s @ sd_send_buffer d = lg_written lg)"
  using tcp_stream_laws.history_inv [OF assms] by (auto simp: stream_inv_def split: option.splits)

subsection \<open>A peer that echoes\<close>

text \<open>
  The sockets of \<open>queue_stack\<close> connected to a peer: polling the interface accepts a connection, and acknowledges and
  sends back what is in the send queue.
\<close>

definition echo :: "queue_socket \<Rightarrow> queue_socket" where
  "echo s = (if qs_state s = Listen then s\<lparr>qs_state := Established\<rparr> else s\<lparr>qs_rx := qs_rx s @ qs_tx s, qs_tx := []\<rparr>)"

definition echo_stack :: "(queue_socket, queue_socket option list, unit) tcp_stack" where
  "echo_stack = queue_stack\<lparr>iface_poll := (\<lambda>now (f, dev, ss). ((f, dev, map (map_option echo) ss), []))\<rparr>"

lemma echo_poll: "iface_poll echo_stack now (f, dev, ss) = ((f, dev, map (map_option echo) ss), [])"
  by (simp add: echo_stack_def)

lemma slot_get_echo: "set_get queue_stack (map (map_option echo) ss) h = map_option echo (set_get queue_stack ss h)"
  by (simp add: queue_stack_def slot_get_def)

lemma echo_same [simp]:
  "can_recv echo_stack = can_recv queue_stack" "recv_slice echo_stack = recv_slice queue_stack" "recv_queue echo_stack = recv_queue queue_stack"
  "can_send echo_stack = can_send queue_stack" "send_slice echo_stack = send_slice queue_stack" "send_queue echo_stack = send_queue queue_stack"
  "send_capacity echo_stack = send_capacity queue_stack" "sock_close echo_stack = sock_close queue_stack"
  "as_slices echo_stack = as_slices queue_stack" "set_new echo_stack = set_new queue_stack" "set_add echo_stack = set_add queue_stack"
  "set_get echo_stack = set_get queue_stack" "set_put echo_stack = set_put queue_stack" "set_remove echo_stack = set_remove queue_stack"
  "sock_listen echo_stack = sock_listen queue_stack" "sock_create echo_stack = sock_create queue_stack"
  "sock_set_timeout echo_stack = sock_set_timeout queue_stack" "sock_set_keep_alive echo_stack = sock_set_keep_alive queue_stack"
  "sock_state echo_stack = sock_state queue_stack"
  by (simp_all add: echo_stack_def)

lemmas queue_laws = queue_tcp.recv queue_tcp.recv_queue queue_tcp.send queue_tcp.can_send queue_tcp.close_queues
  queue_tcp.slices queue_tcp.set_new queue_tcp.set_add queue_tcp.set_put queue_tcp.set_remove

interpretation echo_tcp: tcp_stream_laws basic_wire echo_stack qs_rx qs_tx qs_may_send
proof (unfold_locales, unfold echo_same)
  fix now f dev f' dev' and ss ss' :: "queue_socket option list" and es h s s' a m n k l
  show "iface_poll echo_stack now (f, dev, ss) = ((f', dev', ss'), es) \<Longrightarrow>
      dev_steps basic_wire dev es dev' \<and> dom (set_get queue_stack ss') = dom (set_get queue_stack ss)"
    by (auto simp: echo_poll slot_get_echo dev_idle)
  show "iface_poll echo_stack now (f, dev, ss) = ((f', dev', ss'), es) \<Longrightarrow> set_get queue_stack ss h = Some s \<Longrightarrow>
      set_get queue_stack ss' h = Some s' \<Longrightarrow> prefix (qs_rx s) (qs_rx s') \<and> suffix (qs_tx s') (qs_tx s)"
    by (auto simp: echo_poll slot_get_echo echo_def)
  show "sock_listen queue_stack a (sock_create queue_stack m n) = Inr s \<Longrightarrow>
      qs_rx (sock_set_keep_alive queue_stack k (sock_set_timeout queue_stack l s)) = [] \<and>
      qs_tx (sock_set_keep_alive queue_stack k (sock_set_timeout queue_stack l s)) = []"
    by (auto simp: queue_stack_def split: if_splits)
qed (fact queue_laws)+

text \<open>The handler with one connection and its socket.\<close>

definition one_conn :: "connection_id_generator \<Rightarrow> virtual_device \<Rightarrow> socket_data \<Rightarrow> queue_socket \<Rightarrow> (queue_socket option list, unit) tcp_handler" where
  "one_conn g dev d s =
     \<lparr>th_generator = g, th_iface = (), th_device = dev, th_sockets = [Some s], th_socket_data = [(ConnectionId 2, d)],
      th_remove_conns = [], th_active = {syn_addrs}\<rparr>"

lemma one_conn_view: "sd_handle d = 0 \<Longrightarrow> conn_view echo_stack (one_conn g dev d s) (ConnectionId 2) = Some (d, s)"
  by (simp add: conn_view_def one_conn_def queue_stack_def slot_get_def)

lemma one_conn_poll: "poll_iface echo_stack now (one_conn g dev d s) = ([], Inr (one_conn g dev d (echo s)))"
  by (simp add: poll_iface_def echo_poll one_conn_def)

lemma one_conn_process:
  assumes "socket_step echo_stack (d, s) = (es, Inr (d', s'))" and "sd_handle d = 0" and "qs_state s' \<noteq> Closed"
  shows "process_tcp echo_stack (one_conn g dev d s) = (es, Inr (one_conn g dev d' s'))"
  using assms by (simp add: process_tcp_def one_conn_def queue_stack_def slot_get_def)

lemma one_conn_opened:
  "\<exists>g dev. tcp_receive_packet basic_wire echo_stack syn_packet NoTunnel (tcp_new echo_stack 1) =
     ([EmitEvent (ConnectionEstablished (ConnectionId 2) (fst syn_addrs) (snd syn_addrs) NoTunnel None)],
      Inr (one_conn g dev (new_socket_data 0 syn_addrs) \<lparr>qs_state = Listen, qs_rx = [], qs_tx = []\<rparr>))"
  by (simp add: tcp_receive_packet_def syn_packet_def syn_addrs_def basic_wire_def echo_stack_def queue_stack_def tcp_new_def be_word_def
      next_id_def gen_tcp_def Let_def one_conn_def)

lemma one_conn_polled:
  assumes "conn_history basic_wire echo_stack qs_rx qs_tx i ids lg (one_conn g dev d s)"
    and "socket_step echo_stack (d, echo s) = (es, Inr (d', s'))" and "sd_handle d = 0" and "qs_state s' \<noteq> Closed"
  shows "\<exists>lg'. conn_history basic_wire echo_stack qs_rx qs_tx i ids lg' (one_conn g dev d' (echo s')) \<and>
     lg_read lg' = lg_read lg @ answered (lg_readers lg) es \<and> lg_written lg' = lg_written lg \<and>
     lg_used lg' = lg_used lg \<and> lg_readers lg' = lg_readers lg"
  by (rule exI, rule conjI [OF polled [OF assms(1) one_conn_poll one_conn_process [OF assms(2-4)] one_conn_poll]])
    (simp add: log_poll_def Let_def)

lemmas step_defs = socket_step_def recv_step_def send_step_def drain_step_def eof_step_def queue_stack_def new_socket_data_def
  qs_may_send_def qs_cap_def

lemma echo_history:
  obtains ids lg t where "conn_history basic_wire echo_stack qs_rx qs_tx (ConnectionId 2) ids lg t" "length ids = 1"
    "lg_written lg = [1, 2, 3]" "lg_read lg = [1, 2]"
proof -
  let ?H = "conn_history basic_wire echo_stack qs_rx qs_tx (ConnectionId 2) [ConnectionId 2]"
  let ?d = "new_socket_data 0 syn_addrs" and ?l = "\<lparr>qs_state = Listen, qs_rx = [], qs_tx = []\<rparr>"
  let ?s = "\<lambda>r x. \<lparr>qs_state = Established, qs_rx = r, qs_tx = x\<rparr>"
  obtain g dev where o: "tcp_receive_packet basic_wire echo_stack syn_packet NoTunnel (tcp_new echo_stack 1) =
     ([EmitEvent (ConnectionEstablished (ConnectionId 2) (fst syn_addrs) (snd syn_addrs) NoTunnel None)], Inr (one_conn g dev ?d ?l))"
    using one_conn_opened by blast
  have 0: "?H (log_new (one_conn g dev ?d ?l)) (one_conn g dev ?d ?l)"
    using opened [OF tcp_init o] by simp
  have "tcp_handle_command (WriteData (ConnectionId 2) [1, 2, 3]) (one_conn g dev ?d ?l) =
      ([], Inr (one_conn g dev (?d\<lparr>sd_send_buffer := [1, 2, 3]\<rparr>) ?l))"
    by (simp add: tcp_write_data_def one_conn_def new_socket_data_def)
  note 1 = command [OF 0 _ this, simplified]
  have "socket_step echo_stack (?d\<lparr>sd_send_buffer := [1, 2, 3]\<rparr>, echo ?l) = ([], Inr (?d, ?s [] [1, 2, 3]))"
    by (simp add: echo_def step_defs)
  from one_conn_polled [OF 1 this] obtain lg where 2: "?H lg (one_conn g dev ?d (?s [1, 2, 3] []))"
    and lg: "lg_read lg = []" "lg_written lg = [1, 2, 3]" "lg_used lg = {}" "lg_readers lg = {}"
    by (auto simp: log_new_def one_conn_def new_socket_data_def recv_pending_def echo_def)
  have "tcp_handle_command (ReadData (ConnectionId 2) 2 7) (one_conn g dev ?d (?s [1, 2, 3] [])) =
      ([], Inr (one_conn g dev (?d\<lparr>sd_recv_waiter := Some (2, 7)\<rparr>) (?s [1, 2, 3] [])))"
    by (simp add: tcp_read_data_def one_conn_def new_socket_data_def)
  note 3 = command [OF 2 _ this, simplified, OF lg(3) [THEN arg_cong, of "\<lambda>A. 7 \<notin> A", simplified]]
  have "socket_step echo_stack (?d\<lparr>sd_recv_waiter := Some (2, 7)\<rparr>, echo (?s [1, 2, 3] [])) = ([SendData 7 [1, 2]], Inr (?d, ?s [3] []))"
    by (simp add: echo_def step_defs)
  from one_conn_polled [OF 3 this] obtain lg' where "?H lg' (one_conn g dev ?d (echo (?s [3] [])))"
    "lg_read lg' = [1, 2]" "lg_written lg' = [1, 2, 3]"
    using lg by (auto simp: new_socket_data_def answered_Cons)
  then show thesis using that [of "[ConnectionId 2]"] by simp
qed

text \<open>Python writes three bytes, the peer sends them back, and Python reads two of them.\<close>

theorem tcp_streams_witness:
  "\<exists>ids lg t. conn_history basic_wire echo_stack qs_rx qs_tx (ConnectionId 2) ids lg t \<and> lg_written lg = [1, 2, 3] \<and>
     lg_read lg = [1, 2] \<and> prefix [1, 2] (lg_received lg) \<and> prefix (lg_acked lg) [1, 2, 3]"
proof -
  obtain ids lg t where h: "conn_history basic_wire echo_stack qs_rx qs_tx (ConnectionId 2) ids lg t" "length ids = 1"
    "lg_written lg = [1, 2, 3]" "lg_read lg = [1, 2]" by (rule echo_history)
  from tcp_streams [OF echo_tcp.tcp_stream_laws_axioms h(1)] h show ?thesis by auto
qed

end
