(* ===== verification/Linux_Redirector.thy ===== *)
theory Linux_Redirector
  imports Ipc
begin

text \<open>
  The Linux redirector: the patterns shared with the kernel (\<^verbatim>\<open>mitmproxy-linux-ebpf-common\<close>),
  the decision the eBPF program takes when a process creates a socket
  (\<^verbatim>\<open>mitmproxy-linux-ebpf\<close>), and the main loop of the user-space daemon that writes the
  configuration into the eBPF map and shuffles packets between the TUN device and the proxy
  (\<^verbatim>\<open>mitmproxy-linux/src/main2.rs\<close>).  The eBPF array map is aya's: it is the parameter
  \<open>bpf_array\<close>, with the contract \<open>bpf_array_laws\<close>.
\<close>

subsection \<open>Patterns and actions as the kernel sees them\<close>

definition TASK_COMM_LEN :: nat where "TASK_COMM_LEN = 16"
definition INTERCEPT_CONF_LEN :: nat where "INTERCEPT_CONF_LEN = 20"

datatype ebpf_pattern = EPid u32 | EProcess bytes

datatype ebpf_action = ANone | AInclude ebpf_pattern | AExclude ebpf_pattern

text \<open>The "manual strcmp dance": the loop over the indices \<open>is\<close> of the two 16-byte arrays.\<close>

fun comm_loop :: "bytes \<Rightarrow> bytes \<Rightarrow> nat list \<Rightarrow> bool" where
  "comm_loop command process [] = True"
| "comm_loop command process (i # is) =
     (let curr = command ! i in
      if curr \<noteq> process ! i then False
      else if curr = 0 then True
      else comm_loop command process is)"

fun ebpf_pattern_matches :: "ebpf_pattern \<Rightarrow> bytes option \<Rightarrow> u32 \<Rightarrow> bool" where
  "ebpf_pattern_matches (EPid p) command pid \<longleftrightarrow> pid = p"
| "ebpf_pattern_matches (EProcess process) command pid =
     (case command of
        None \<Rightarrow> False
      | Some command \<Rightarrow> comm_loop command process [0..<16])"

definition ebpf_pattern_from :: "string \<Rightarrow> ebpf_pattern" where
  "ebpf_pattern_from s =
     (let value = trim s in
      case parse_u32 value of
        Some pid \<Rightarrow> EPid pid
      | None \<Rightarrow>
          let src = as_bytes value;
              len = min (TASK_COMM_LEN - 1) (length src)
          in EProcess (take len src @ replicate (TASK_COMM_LEN - len) 0))"

definition ebpf_action_from :: "string \<Rightarrow> ebpf_action" where
  "ebpf_action_from s =
     (let value = trim s in
      case strip_prefix (CHR ''!'') value of
        Some value \<Rightarrow> AExclude (ebpf_pattern_from value)
      | None \<Rightarrow> AInclude (ebpf_pattern_from value))"

subsection \<open>The eBPF program\<close>

record 'm bpf_array =
  bpf_get :: "'m \<Rightarrow> nat \<Rightarrow> ebpf_action option"
  bpf_set :: "nat \<Rightarrow> ebpf_action \<Rightarrow> 'm \<Rightarrow> 'm res"

text \<open>The loop \<^verbatim>\<open>for i in 0..INTERCEPT_CONF_LEN\<close>, which stops at the first entry that is no action.\<close>

fun ebpf_loop :: "('m, 'z) bpf_array_scheme \<Rightarrow> 'm \<Rightarrow> bytes option \<Rightarrow> u32 \<Rightarrow> nat list \<Rightarrow> bool \<Rightarrow> bool" where
  "ebpf_loop arr m command pid [] intercept = intercept"
| "ebpf_loop arr m command pid (i # is) intercept =
     (case bpf_get arr m i of
        Some (AInclude pattern) \<Rightarrow>
          ebpf_loop arr m command pid is (intercept \<or> ebpf_pattern_matches pattern command pid)
      | Some (AExclude pattern) \<Rightarrow>
          ebpf_loop arr m command pid is (intercept \<and> \<not> ebpf_pattern_matches pattern command pid)
      | _ \<Rightarrow> intercept)"

definition ebpf_should_intercept :: "('m, 'z) bpf_array_scheme \<Rightarrow> 'm \<Rightarrow> bytes option \<Rightarrow> u32 \<Rightarrow> bool" where
  "ebpf_should_intercept arr m command pid =
     ebpf_loop arr m command pid [0..<INTERCEPT_CONF_LEN]
       (case bpf_get arr m 0 of Some (AExclude _) \<Rightarrow> True | _ \<Rightarrow> False)"

text \<open>
  The program attached to socket creation: it binds the socket to the TUN device
  (\<open>bound_dev_if\<close>) if the process is intercepted and always lets the creation proceed.
\<close>

definition cgroup_sock_create ::
  "('m, 'z) bpf_array_scheme \<Rightarrow> 'm \<Rightarrow> u32 \<Rightarrow> bytes option \<Rightarrow> u32 \<Rightarrow> u32 \<Rightarrow> int \<times> u32" where
  "cgroup_sock_create arr m interface_id command pid bound_dev_if =
     (1, if ebpf_should_intercept arr m command pid then interface_id else bound_dev_if)"

subsection \<open>The daemon\<close>

text \<open>Writing the actions from index \<open>i\<close> on; the first error ends the update.\<close>

fun bpf_set_all ::
  "('m, 'z) bpf_array_scheme \<Rightarrow> nat \<Rightarrow> ebpf_action list \<Rightarrow> 'm \<Rightarrow> 'm \<times> fault option" where
  "bpf_set_all arr i [] m = (m, None)"
| "bpf_set_all arr i (a # as) m =
     (case bpf_set arr i a m of
        Inl e \<Rightarrow> (m, Some e)
      | Inr m' \<Rightarrow> bpf_set_all arr (Suc i) as m')"

definition update_intercept_conf ::
  "('m, 'z) bpf_array_scheme \<Rightarrow> string list \<Rightarrow> 'm \<Rightarrow> 'm \<times> fault option" where
  "update_intercept_conf arr actions m =
     bpf_set_all arr 0 (take INTERCEPT_CONF_LEN (map ebpf_action_from actions @ [ANone])) m"

datatype lin_input = LinIpcRecv "bytes res" | LinTunRead "bytes res"
datatype lin_output = LinDeviceSend bytes | LinIpcSend bytes
datatype lin_ctl = LinContinue | LinReturn fault | LinExit

text \<open>
  What the environment answers to the calls of one round: whether writing to the device and to
  the proxy succeed, and whether \<^verbatim>\<open>dev_buf\<close> can be reclaimed.
\<close>

record lin_env =
  device_send :: "bytes \<Rightarrow> unit res"
  ipc_send :: "bytes \<Rightarrow> unit res"
  try_reclaim :: bool

fun linux_step ::
  "ipc_codec \<Rightarrow> ('m, 'z) bpf_array_scheme \<Rightarrow> lin_env \<Rightarrow> lin_input \<Rightarrow> 'm \<Rightarrow> 'm \<times> lin_output list \<times> lin_ctl" where
  "linux_step k arr env (LinIpcRecv r) m =
     (case r of
        Inl e \<Rightarrow> (m, [], LinExit)
      | Inr buf \<Rightarrow>
          if 0 < length buf then
            (case dec_from_proxy k buf of
               Some (FromProxy (Some message)) \<Rightarrow>
                 (case message of
                    FromProxyPacket packet \<Rightarrow>
                      (case device_send env (ipc_packet_data packet) of
                         Inl e \<Rightarrow> (m, [], LinReturn e)
                       | Inr u \<Rightarrow> (m, [LinDeviceSend (ipc_packet_data packet)], LinContinue))
                  | FromProxyConf conf \<Rightarrow>
                      (case update_intercept_conf arr (ipc_actions conf) m of
                         (m', None) \<Rightarrow> (m', [], LinContinue)
                       | (m', Some e) \<Rightarrow> (m', [], LinReturn e)))
             | _ \<Rightarrow> (m, [], LinReturn (Failed ''Received invalid IPC message'')))
          else (m, [], LinExit))"
| "linux_step k arr env (LinTunRead r) m =
     (case r of
        Inl e \<Rightarrow> (m, [], LinReturn e)
      | Inr dev_buf \<Rightarrow>
          (case enc_packet k (PacketWithMeta dev_buf None) of
             Inl e \<Rightarrow> (m, [], LinReturn e)
           | Inr ipc_buf \<Rightarrow>
               (case ipc_send env ipc_buf of
                  Inl e \<Rightarrow> (m, [], LinReturn e)
                | Inr u \<Rightarrow>
                    if try_reclaim env then (m, [LinIpcSend ipc_buf], LinContinue)
                    else (m, [LinIpcSend ipc_buf], LinReturn (Panicked ''try_reclaim'')))))"

subsection \<open>The loop body as a decision step\<close>

definition ebpf_includes :: "ebpf_action \<Rightarrow> bool" where
  "ebpf_includes a \<longleftrightarrow> (case a of AInclude _ \<Rightarrow> True | _ \<Rightarrow> False)"

fun ebpf_hits :: "bytes option \<times> u32 \<Rightarrow> ebpf_action \<Rightarrow> bool" where
  "ebpf_hits (command, pid) ANone \<longleftrightarrow> False"
| "ebpf_hits (command, pid) (AInclude p) \<longleftrightarrow> ebpf_pattern_matches p command pid"
| "ebpf_hits (command, pid) (AExclude p) \<longleftrightarrow> ebpf_pattern_matches p command pid"

definition ebpf_step :: "bytes option \<times> u32 \<Rightarrow> bool \<Rightarrow> ebpf_action \<Rightarrow> bool" where
  "ebpf_step i b a =
     (case a of
        AInclude p \<Rightarrow> b \<or> ebpf_hits i a
      | AExclude p \<Rightarrow> b \<and> \<not> ebpf_hits i a
      | ANone \<Rightarrow> b)"

interpretation ebpf: last_match ebpf_includes ebpf_hits ebpf_step
proof unfold_locales
  fix a b and i :: "bytes option \<times> u32"
  obtain command pid where i: "i = (command, pid)" by (cases i)
  show "ebpf_includes a \<Longrightarrow> ebpf_step i b a \<longleftrightarrow> b \<or> ebpf_hits i a"
    by (cases a) (simp_all add: ebpf_includes_def ebpf_step_def)
  show "\<not> ebpf_includes a \<Longrightarrow> ebpf_step i b a \<longleftrightarrow> b \<and> \<not> ebpf_hits i a"
    by (cases a) (simp_all add: i ebpf_includes_def ebpf_step_def)
qed

lemma ebpf_step_simps [simp]:
  "ebpf_step (command, pid) b (AInclude p) \<longleftrightarrow> b \<or> ebpf_pattern_matches p command pid"
  "ebpf_step (command, pid) b (AExclude p) \<longleftrightarrow> b \<and> \<not> ebpf_pattern_matches p command pid"
  by (simp_all add: ebpf_step_def)

lemma ebpf_action_from_not_None: "ebpf_action_from s \<noteq> ANone"
  by (simp add: ebpf_action_from_def Let_def split: option.splits)

subsection \<open>The contract of the map\<close>

locale bpf_array_laws =
  fixes arr :: "'m bpf_array"
  assumes set_ok: "i < INTERCEPT_CONF_LEN \<Longrightarrow> \<exists>m'. bpf_set arr i a m = Inr m' \<and> bpf_get arr m' = (bpf_get arr m)(i \<mapsto> a)"
    and get_bounds: "bpf_get arr m i = None \<longleftrightarrow> INTERCEPT_CONF_LEN \<le> i"
begin

lemma set_all_ok:
  "i + length as \<le> INTERCEPT_CONF_LEN \<Longrightarrow>
     \<exists>m'. bpf_set_all arr i as m = (m', None) \<and>
       (\<forall>j. bpf_get arr m' j = (if i \<le> j \<and> j < i + length as then Some (as ! (j - i)) else bpf_get arr m j))"
proof (induction as arbitrary: i m)
  case (Cons a as)
  then obtain m1 where m1: "bpf_set arr i a m = Inr m1" "bpf_get arr m1 = (bpf_get arr m)(i \<mapsto> a)"
    using set_ok by (metis add_lessD1 le_eq_less_or_eq length_Cons less_add_Suc1 order_less_le_trans add_Suc_right)
  from Cons.prems obtain m2 where m2: "bpf_set_all arr (Suc i) as m1 = (m2, None)"
    and g: "\<And>j. bpf_get arr m2 j = (if Suc i \<le> j \<and> j < Suc i + length as then Some (as ! (j - Suc i)) else bpf_get arr m1 j)"
    using Cons.IH [of "Suc i" m1] by auto
  have "bpf_get arr m2 j = (if i \<le> j \<and> j < i + length (a # as) then Some ((a # as) ! (j - i)) else bpf_get arr m j)" for j
    using g [of j] m1(2) by (cases "j = i") (auto simp: nth_Cons' Suc_diff_Suc)
  with m1 m2 show ?case by auto
qed auto

lemma set_all_from_0:
  "length as \<le> INTERCEPT_CONF_LEN \<Longrightarrow>
     \<exists>m'. bpf_set_all arr 0 as m = (m', None) \<and>
       (\<forall>j. bpf_get arr m' j = (if j < length as then Some (as ! j) else bpf_get arr m j))"
  using set_all_ok [of 0 as m] by (simp only: add_0 diff_zero le0 simp_thms)

lemma loop_over:
  "\<lbrakk>i + length as \<le> INTERCEPT_CONF_LEN; \<And>j. j < length as \<Longrightarrow> bpf_get arr m (i + j) = Some (as ! j);
    ANone \<notin> set as; i + length as < INTERCEPT_CONF_LEN \<Longrightarrow> bpf_get arr m (i + length as) = Some ANone\<rbrakk>
   \<Longrightarrow> ebpf_loop arr m command pid [i..<INTERCEPT_CONF_LEN] b = foldl (ebpf_step (command, pid)) b as"
proof (induction as arbitrary: i b)
  case Nil
  then show ?case by (cases "i < INTERCEPT_CONF_LEN") (simp_all add: upt_conv_Cons)
next
  case (Cons a as)
  have "bpf_get arr m (Suc i + j) = Some (as ! j)" if "j < length as" for j
    using Cons.prems(2) [of "Suc j"] that by simp
  then have IH: "ebpf_loop arr m command pid [Suc i..<INTERCEPT_CONF_LEN] b' = foldl (ebpf_step (command, pid)) b' as" for b'
    using Cons.prems by (intro Cons.IH) simp_all
  have "bpf_get arr m i = Some a" using Cons.prems(2) [of 0] by simp
  moreover have "i < INTERCEPT_CONF_LEN" and "a \<noteq> ANone" using Cons.prems by auto
  ultimately show ?case
    by (cases a) (simp_all add: upt_conv_Cons IH)
qed

lemma update_then_decide:
  "\<exists>m'. update_intercept_conf arr actions m = (m', None) \<and>
     ebpf_should_intercept arr m' command pid =
       (let as = take INTERCEPT_CONF_LEN (map ebpf_action_from actions)
        in foldl (ebpf_step (command, pid)) (as \<noteq> [] \<and> \<not> ebpf_includes (hd as)) as)"
proof -
  let ?as = "take INTERCEPT_CONF_LEN (map ebpf_action_from actions)"
  let ?w = "take INTERCEPT_CONF_LEN (map ebpf_action_from actions @ [ANone])"
  obtain m' where m': "bpf_set_all arr 0 ?w m = (m', None)"
    and g: "\<And>j. bpf_get arr m' j = (if j < length ?w then Some (?w ! j) else bpf_get arr m j)"
    using set_all_from_0 [of ?w m] by (metis length_take min.cobounded2)
  have as: "bpf_get arr m' j = Some (?as ! j)" if "j < length ?as" for j
  proof -
    have "j < length ?w" and "?w ! j = ?as ! j" using that by (auto simp: nth_append)
    then show ?thesis using g by simp
  qed
  have none: "bpf_get arr m' (length ?as) = Some ANone" if "length ?as < INTERCEPT_CONF_LEN"
  proof -
    have "length ?as < length ?w" and "?w ! length ?as = ANone" using that by (auto simp: nth_append)
    then show ?thesis using g by simp
  qed
  have no: "ANone \<notin> set (take n (map ebpf_action_from actions))" for n
    by (metis (no_types, lifting) ebpf_action_from_not_None ex_map_conv in_set_takeD)
  have default: "(case bpf_get arr m' 0 of Some (AExclude _) \<Rightarrow> True | _ \<Rightarrow> False) \<longleftrightarrow> ?as \<noteq> [] \<and> \<not> ebpf_includes (hd ?as)"
  proof (cases ?as)
    case Nil
    then show ?thesis using none by (simp add: INTERCEPT_CONF_LEN_def)
  next
    case (Cons a as')
    then have "bpf_get arr m' 0 = Some a" using as [of 0] by simp
    moreover have "a \<noteq> ANone" using no [of INTERCEPT_CONF_LEN] Cons by auto
    ultimately show ?thesis using Cons by (cases a) (simp_all add: ebpf_includes_def)
  qed
  have "ebpf_should_intercept arr m' command pid = foldl (ebpf_step (command, pid)) (?as \<noteq> [] \<and> \<not> ebpf_includes (hd ?as)) ?as"
    unfolding ebpf_should_intercept_def default
    by (rule loop_over) (use as none no in simp_all)
  then show ?thesis using m' by (simp add: update_intercept_conf_def Let_def)
qed

end

text \<open>The map as the kernel provides it: an array of \<open>INTERCEPT_CONF_LEN\<close> entries.\<close>

definition kernel_array :: "(nat \<Rightarrow> ebpf_action) bpf_array" where
  "kernel_array =
     \<lparr>bpf_get = (\<lambda>m i. if i < INTERCEPT_CONF_LEN then Some (m i) else None),
      bpf_set = (\<lambda>i a m. if i < INTERCEPT_CONF_LEN then Inr (m(i := a)) else Inl (Failed ''out of bounds''))\<rparr>"

interpretation kernel: bpf_array_laws kernel_array
  by unfold_locales (auto simp: kernel_array_def)

subsection \<open>The decision taken in the kernel\<close>

text \<open>
  C16. After a configuration update, whatever the map held before, the eBPF program decides by the
  last of the first 20 actions that matches the process; if none does, it intercepts exactly when
  the first action excludes.  The update always succeeds, and actions beyond the 20th are ignored.
\<close>

theorem ebpf_last_match:
  assumes "bpf_array_laws arr"
  shows "\<exists>m'. update_intercept_conf arr actions m = (m', None) \<and>
     ebpf_should_intercept arr m' command pid =
       (let as = take INTERCEPT_CONF_LEN (map ebpf_action_from actions) in
        case find (ebpf_hits (command, pid)) (rev as) of
          Some a \<Rightarrow> ebpf_includes a
        | None \<Rightarrow> as \<noteq> [] \<and> \<not> ebpf_includes (hd as))"
  using bpf_array_laws.update_then_decide [OF assms, of actions m command pid]
  by (simp add: Let_def ebpf.decision)

theorem ebpf_last_match_witness:
  "\<exists>m'. update_intercept_conf kernel_array [''1234'', ''!99''] (\<lambda>i. AExclude (EPid 5)) = (m', None) \<and>
     \<not> ebpf_should_intercept kernel_array m' None 5"
  using ebpf_last_match [OF kernel.bpf_array_laws_axioms, of "[''1234'', ''!99'']" "\<lambda>i. AExclude (EPid 5)" None 5]
  by (simp add: INTERCEPT_CONF_LEN_def ebpf_action_from_def ebpf_pattern_from_def ebpf_includes_def Let_def
      trim_eval parse_u32_def parse_uint_def digit_val_def)

subsection \<open>Agreement with the user-space decision\<close>

lemma ebpf_action_from_pid:
  "ebpf_action_from (action_to_string (Include (Pid p))) = AInclude (EPid p)"
  "ebpf_action_from (action_to_string (Exclude (Pid p))) = AExclude (EPid p)"
proof -
  have t: "trim (show_u32 p) = show_u32 p" by (simp add: show_u32_def)
  then show "ebpf_action_from (action_to_string (Include (Pid p))) = AInclude (EPid p)"
    by (simp add: ebpf_action_from_def show_u32_no_bang ebpf_pattern_from_def parse_show_u32)
  have "trim (CHR ''!'' # show_u32 p) = CHR ''!'' # show_u32 p"
    by (intro trim_id trimmed_bang) (simp_all add: show_u32_def)
  then show "ebpf_action_from (action_to_string (Exclude (Pid p))) = AExclude (EPid p)"
    by (simp add: ebpf_action_from_def ebpf_pattern_from_def t parse_show_u32)
qed

lemma pid_action_cases:
  assumes "action_pattern a = Pid p"
  shows "ebpf_step (command, pi_pid info) b (ebpf_action_from (action_to_string a)) = intercept_step info b a"
    and "ebpf_includes (ebpf_action_from (action_to_string a)) = action_includes a"
  using assms
  by (cases a; simp add: ebpf_action_from_pid [simplified] ebpf_step_def intercept_step_def ebpf_includes_def)+

lemma pid_foldl:
  "(\<And>a. a \<in> set as \<Longrightarrow> \<exists>p. action_pattern a = Pid p) \<Longrightarrow>
   foldl (ebpf_step (command, pi_pid info)) b (map (\<lambda>a. ebpf_action_from (action_to_string a)) as)
     = foldl (intercept_step info) b as"
proof (induction as arbitrary: b)
  case (Cons a as)
  then obtain p where "action_pattern a = Pid p" by auto
  with Cons show ?case by (simp add: pid_action_cases(1))
qed simp

lemma pids_decided:
  assumes "bpf_array_laws arr" and "length as \<le> INTERCEPT_CONF_LEN"
    and "\<forall>a\<in>set as. \<exists>p. action_pattern a = Pid p"
  shows "\<exists>m'. update_intercept_conf arr (conf_action_strings (conf_new as)) m = (m', None) \<and>
     (\<forall>command info. ebpf_should_intercept arr m' command (pi_pid info) = should_intercept (conf_new as) info)"
proof -
  let ?f = "\<lambda>a. ebpf_action_from (action_to_string a)"
  let ?ss = "conf_action_strings (conf_new as)"
  have map: "take INTERCEPT_CONF_LEN (map ebpf_action_from ?ss) = map ?f as"
    using assms(2) by (simp add: conf_action_strings_def)
  have def: "conf_default (conf_new as) \<longleftrightarrow> map ?f as \<noteq> [] \<and> \<not> ebpf_includes (hd (map ?f as))"
  proof (cases as)
    case (Cons a as')
    then obtain p where "action_pattern a = Pid p" using assms(3) by auto
    with Cons show ?thesis
      by (cases a) (simp_all add: pid_action_cases(2) [of _ p, simplified] conf_new_def
          ebpf_action_from_pid [simplified] ebpf_includes_def)
  qed (simp add: conf_new_def)
  obtain m' where m': "update_intercept_conf arr ?ss m = (m', None)"
    using bpf_array_laws.update_then_decide [OF assms(1)] by blast
  have "ebpf_should_intercept arr m' command (pi_pid info) = should_intercept (conf_new as) info" for command info
    using bpf_array_laws.update_then_decide [OF assms(1), of ?ss m command "pi_pid info"] m' assms(3)
    by (simp only: Let_def map def [symmetric] pid_foldl should_intercept_def conf_actions_new) simp
  with m' show ?thesis by blast
qed

text \<open>
  A specification of at most 20 actions, all of them on process ids, is enforced in the kernel
  exactly as the proxy decides it in user space: after the printed actions have been written to the
  map, the eBPF program intercepts a process iff \<open>should_intercept\<close> does.
\<close>

theorem ebpf_agrees_on_pids:
  assumes "bpf_array_laws arr" and "length as \<le> INTERCEPT_CONF_LEN"
    and "\<forall>a\<in>set as. \<exists>p. action_pattern a = Pid p"
  shows "\<exists>m'. update_intercept_conf arr (conf_action_strings (conf_new as)) m = (m', None) \<and>
     ebpf_should_intercept arr m' command (pi_pid info) = should_intercept (conf_new as) info"
  using pids_decided [OF assms] by blast

theorem ebpf_agrees_on_pids_witness:
  "\<exists>m'. update_intercept_conf kernel_array (conf_action_strings (conf_new [Exclude (Pid 7)])) (\<lambda>i. ANone) = (m', None) \<and>
     ebpf_should_intercept kernel_array m' None 8"
  using ebpf_agrees_on_pids [OF kernel.bpf_array_laws_axioms, of "[Exclude (Pid 7)]" "\<lambda>i. ANone" None "\<lparr>pi_pid = 8, pi_process_name = None\<rparr>"]
  by (simp add: INTERCEPT_CONF_LEN_def should_intercept_def conf_new_def intercept_step_def)

subsection \<open>Process names in the kernel\<close>

lemma comm_loop_eq:
  assumes "length c = n" and "length p = n"
  shows "comm_loop c p [i..<n] \<longleftrightarrow> takeWhile (\<lambda>b. b \<noteq> 0) (drop i c) = takeWhile (\<lambda>b. b \<noteq> 0) (drop i p)"
proof (induction "n - i" arbitrary: i)
  case 0
  then show ?case using assms by simp
next
  case (Suc k)
  then have i: "i < n" by simp
  have "comm_loop c p [Suc i..<n] \<longleftrightarrow>
      takeWhile (\<lambda>b. b \<noteq> 0) (drop (Suc i) c) = takeWhile (\<lambda>b. b \<noteq> 0) (drop (Suc i) p)"
    using Suc.hyps(2) by (intro Suc.hyps(1)) simp
  then show ?case
    using i assms by (simp add: upt_conv_Cons Let_def Cons_nth_drop_Suc [symmetric])
qed

lemma takeWhile_pad: "0 \<notin> set xs \<Longrightarrow> 0 < n \<Longrightarrow> takeWhile (\<lambda>b. b \<noteq> 0) (xs @ replicate n 0) = (xs :: bytes)"
  by (subst takeWhile_append2) (auto simp: gr0_conv_Suc)

text \<open>
  In the kernel a name pattern matches a process exactly when the process's command name, the
  16-byte NUL-terminated \<^verbatim>\<open>comm\<close>, equals the first 15 bytes of the pattern; the pattern does
  not match as a substring, unlike in user space.
\<close>

theorem ebpf_process_pattern:
  assumes "length c = TASK_COMM_LEN" and "parse_u32 (trim s) = None" and "0 \<notin> set (as_bytes (trim s))"
  shows "ebpf_pattern_matches (ebpf_pattern_from s) (Some c) pid \<longleftrightarrow>
     takeWhile (\<lambda>b. b \<noteq> 0) c = take 15 (as_bytes (trim s))"
proof -
  let ?src = "as_bytes (trim s)"
  let ?len = "min (TASK_COMM_LEN - 1) (length ?src)"
  let ?val = "take ?len ?src @ replicate (TASK_COMM_LEN - ?len) 0"
  have "ebpf_pattern_from s = EProcess ?val"
    using assms(2) by (simp add: ebpf_pattern_from_def Let_def)
  moreover have "comm_loop c ?val [0..<16] \<longleftrightarrow> takeWhile (\<lambda>b. b \<noteq> 0) c = takeWhile (\<lambda>b. b \<noteq> 0) ?val"
    using comm_loop_eq [of c 16 ?val 0] assms(1) by (simp add: TASK_COMM_LEN_def)
  moreover have "takeWhile (\<lambda>b. b \<noteq> 0) ?val = take ?len ?src"
    using assms(3) by (intro takeWhile_pad) (auto simp: TASK_COMM_LEN_def dest: in_set_takeD)
  moreover have "take ?len ?src = take 15 ?src"
    by (simp add: TASK_COMM_LEN_def min_def)
  ultimately show ?thesis by simp
qed

theorem ebpf_process_pattern_witness:
  "ebpf_pattern_matches (ebpf_pattern_from ''curl'') (Some (as_bytes ''curl'' @ replicate 12 0)) 1 \<and>
   \<not> ebpf_pattern_matches (ebpf_pattern_from ''curl'') (Some (as_bytes ''xcurl'' @ replicate 11 0)) 1"
proof -
  have "parse_u32 (trim ''curl'') = None" and t: "trim ''curl'' = ''curl''"
    by (simp_all add: trim_eval parse_u32_def parse_uint_def digit_val_def)
  moreover have "0 \<notin> set (as_bytes (trim ''curl''))" unfolding t by (simp add: as_bytes_def)
  ultimately show ?thesis
    using ebpf_process_pattern [of "as_bytes ''curl'' @ replicate 12 0" "''curl''" 1]
      ebpf_process_pattern [of "as_bytes ''xcurl'' @ replicate 11 0" "''curl''" 1]
    unfolding t by (simp add: TASK_COMM_LEN_def as_bytes_def)
qed

end
