(* ===== verification/Windows_Redirector.thy ===== *)
theory Windows_Redirector
  imports Ipc Lru_Cache
begin

text \<open>
  The Windows redirector exists twice in the repository: as a separate process that talks to the
  proxy over a named pipe (\<^verbatim>\<open>mitmproxy-windows/redirector/src/main2.rs\<close>) and as a class of
  the Python module with callbacks (\<^verbatim>\<open>mitmproxy-rs/src/windows_redirector.rs\<close>).  Both decide
  for every packet WinDivert captures whether it is re-injected, handed to the proxy, or held until
  a socket event tells which process it belongs to.  The class has its handlers twice, for a channel
  and for a callback, so every handler is written three times in the code and here.  The policy they
  are meant to follow is stated once, for any treatment \<open>pp\<close> of a packet whose fate is known
  (\<open>insert_with\<close>, \<open>network_packet_with\<close>, \<open>socket_info_with\<close>), and each of the nine handlers is
  proved to follow it.  WinDivert, the packet parser, the process table and the cache are parameters.
\<close>

subsection \<open>Data\<close>

datatype win_conn_id = WinConnId (wc_proto: u8) (wc_src: socket_addr) (wc_dst: socket_addr)

datatype wd_event = SocketConnect | SocketAccept | SocketListen | SocketClose | SocketBind | ReflectOpen | OtherEvent

record wd_addr =
  wd_outbound :: bool
  wd_ip_checksum :: bool
  wd_tcp_checksum :: bool
  wd_udp_checksum :: bool

record wd_socket =
  ws_process_id :: u32
  ws_protocol :: u8
  ws_local_address :: ip_addr
  ws_local_port :: u16
  ws_remote_address :: ip_addr
  ws_remote_port :: u16
  ws_event :: wd_event

datatype connection_action = ActNone | ActIntercept process_info

datatype 'p win_conn_state = Known connection_action | Unknown "(wd_addr \<times> 'p) list"

text \<open>What leaves the redirector: a re-injected packet, a packet for the proxy, a callback.\<close>

datatype win_out =
    WInject wd_addr bytes
  | WIpc ipc_packet_with_meta
  | WCallback bytes "process_info option"
  | WConfCallback intercept_conf

record net_entry =
  en_pid :: u32
  en_protocol :: u8
  en_local_addr :: socket_addr
  en_remote_addr :: socket_addr

text \<open>\<open>'p\<close> is \<^verbatim>\<open>InternetPacket\<close>, \<open>'c\<close> the cache of connections.\<close>

record ('p, 'c) win_env =
  we_parse :: "bytes \<Rightarrow> 'p option"
  we_connection_id :: "'p \<Rightarrow> win_conn_id"
  we_src_ip :: "'p \<Rightarrow> ip_addr"
  we_dst_ip :: "'p \<Rightarrow> ip_addr"
  we_dst :: "'p \<Rightarrow> socket_addr"
  we_protocol :: "'p \<Rightarrow> u8"
  we_inner :: "'p \<Rightarrow> bytes"
  we_recalculate_ip :: "'p \<Rightarrow> 'p"
  we_recalculate_tcp :: "'p \<Rightarrow> 'p"
  we_recalculate_udp :: "'p \<Rightarrow> 'p"
  we_reverse :: "win_conn_id \<Rightarrow> win_conn_id"
  we_proto_try_from :: "u8 \<Rightarrow> u8 option"
  we_process_name :: "u32 \<Rightarrow> string option"
  we_inject :: "wd_addr \<Rightarrow> bytes \<Rightarrow> unit res"
  we_ipc_send :: "ipc_packet_with_meta \<Rightarrow> unit res"
  we_callback :: bool
  we_conf_callback :: bool
  we_network_table :: "net_entry list res"
  we_with_expiry :: "nat \<Rightarrow> (win_conn_id, 'p win_conn_state, 'c) lru"

text \<open>
  \<open>we_with_expiry\<close> is \<^verbatim>\<open>LruCache::with_expiry_duration\<close>, given a number of milliseconds.  Both
  programs ask for \<^verbatim>\<open>Duration::from_secs(60 * 10)\<close>.
\<close>

definition connection_expiry :: nat where
  "connection_expiry = 60 * 10 * 1000"

definition lib_connection_expiry :: nat where
  "lib_connection_expiry = 60 * 10 * 1000"

definition we_cache :: "('p, 'c) win_env \<Rightarrow> (win_conn_id, 'p win_conn_state, 'c) lru" where
  "we_cache W = we_with_expiry W connection_expiry"

definition lib_cache :: "('p, 'c) win_env \<Rightarrow> (win_conn_id, 'p win_conn_state, 'c) lru" where
  "lib_cache W = we_with_expiry W lib_connection_expiry"

type_synonym listeners = "socket_addr \<times> u8 \<rightharpoonup> process_info"

record 'c win_state =
  wst_conf :: intercept_conf
  wst_connections :: 'c
  wst_listeners :: listeners

subsection \<open>Listening sockets (\<^verbatim>\<open>main2.rs\<close>)\<close>

definition listeners_new :: listeners where
  "listeners_new = Map.empty"

definition unspecified_to_v4 :: "socket_addr \<Rightarrow> socket_addr" where
  "unspecified_to_v4 socket = (if sock_ip socket = IpV6 0 then set_ip (IpV4 0) socket else socket)"

definition listeners_insert :: "socket_addr \<Rightarrow> u8 \<Rightarrow> process_info \<Rightarrow> listeners \<Rightarrow> listeners" where
  "listeners_insert socket protocol info m =
     m((if sock_ip socket = IpV6 0 then set_ip (IpV4 0) socket else socket, protocol) \<mapsto> info)"

definition listeners_remove :: "socket_addr \<Rightarrow> u8 \<Rightarrow> listeners \<Rightarrow> listeners" where
  "listeners_remove socket protocol m =
     m((if sock_ip socket = IpV6 0 then set_ip (IpV4 0) socket else socket, protocol) := None)"

definition listeners_get :: "socket_addr \<Rightarrow> u8 \<Rightarrow> listeners \<Rightarrow> process_info option" where
  "listeners_get socket protocol m =
     (let socket = (if m (socket, protocol) = None then set_ip (IpV4 0) socket else socket)
      in m (socket, protocol))"

definition listeners_clear :: "listeners \<Rightarrow> listeners" where
  "listeners_clear m = Map.empty"

subsection \<open>Listening sockets (\<^verbatim>\<open>windows_redirector.rs\<close>)\<close>

definition lib_listeners_new :: listeners where
  "lib_listeners_new = Map.empty"

definition lib_listeners_insert :: "socket_addr \<Rightarrow> u8 \<Rightarrow> process_info \<Rightarrow> listeners \<Rightarrow> listeners" where
  "lib_listeners_insert socket protocol info m = m((unspecified_to_v4 socket, protocol) \<mapsto> info)"

definition lib_listeners_remove :: "socket_addr \<Rightarrow> u8 \<Rightarrow> listeners \<Rightarrow> listeners" where
  "lib_listeners_remove socket protocol m = m((unspecified_to_v4 socket, protocol) := None)"

definition lib_listeners_get :: "socket_addr \<Rightarrow> u8 \<Rightarrow> listeners \<Rightarrow> process_info option" where
  "lib_listeners_get socket protocol m =
     (if (socket, protocol) \<in> dom m then m (socket, protocol) else m (set_ip (IpV4 0) socket, protocol))"

definition lib_listeners_clear :: "listeners \<Rightarrow> listeners" where
  "lib_listeners_clear m = Map.empty"

subsection \<open>One packet whose fate is known\<close>

definition inject :: "('p, 'c) win_env \<Rightarrow> wd_addr \<Rightarrow> bytes \<Rightarrow> win_out list \<times> unit res" where
  "inject W address data =
     (case we_inject W address data of Inl e \<Rightarrow> ([], Inl e) | Inr u \<Rightarrow> ([WInject address data], Inr ()))"

type_synonym ('p, 'c) processor = "('p, 'c) win_env \<Rightarrow> wd_addr \<Rightarrow> 'p \<Rightarrow> connection_action \<Rightarrow> win_out list \<times> unit res"

text \<open>\<^verbatim>\<open>process_packet\<close> of \<^verbatim>\<open>main2.rs\<close>.\<close>

definition process_packet :: "('p, 'c) processor" where
  "process_packet W address packet action =
     (case action of
        ActNone \<Rightarrow> inject W address (we_inner W packet)
      | ActIntercept info \<Rightarrow>
          let packet = (if \<not> wd_ip_checksum address then we_recalculate_ip W packet else packet);
              packet = (if \<not> wd_tcp_checksum address then we_recalculate_tcp W packet else packet);
              packet = (if \<not> wd_udp_checksum address then we_recalculate_udp W packet else packet)
          in case we_ipc_send W (PacketWithMeta (we_inner W packet)
                    (Some (IpcTunnelInfo (Some (pi_pid info)) (pi_process_name info)))) of
               Inl e \<Rightarrow> ([], Inl e)
             | Inr u \<Rightarrow> ([WIpc (PacketWithMeta (we_inner W packet)
                    (Some (IpcTunnelInfo (Some (pi_pid info)) (pi_process_name info))))], Inr ()))"

text \<open>\<^verbatim>\<open>process_packet\<close> and \<^verbatim>\<open>process_packet_with_callback\<close> of \<^verbatim>\<open>windows_redirector.rs\<close>.\<close>

definition lib_process_packet :: "('p, 'c) processor" where
  "lib_process_packet W address packet action =
     (case action of
        ActNone \<Rightarrow> inject W address (we_inner W packet)
      | ActIntercept info \<Rightarrow>
          let packet = (if \<not> wd_ip_checksum address then we_recalculate_ip W packet else packet);
              packet = (if \<not> wd_tcp_checksum address then we_recalculate_tcp W packet else packet);
              packet = (if \<not> wd_udp_checksum address then we_recalculate_udp W packet else packet)
          in case we_ipc_send W (PacketWithMeta (we_inner W packet)
                    (Some (IpcTunnelInfo (Some (pi_pid info)) (pi_process_name info)))) of
               Inl e \<Rightarrow> ([], Inl e)
             | Inr u \<Rightarrow> ([WIpc (PacketWithMeta (we_inner W packet)
                    (Some (IpcTunnelInfo (Some (pi_pid info)) (pi_process_name info))))], Inr ()))"

definition process_packet_with_callback :: "('p, 'c) processor" where
  "process_packet_with_callback W address packet action =
     (case action of
        ActNone \<Rightarrow> inject W address (we_inner W packet)
      | ActIntercept info \<Rightarrow>
          let packet = (if \<not> wd_ip_checksum address then we_recalculate_ip W packet else packet);
              packet = (if \<not> wd_tcp_checksum address then we_recalculate_tcp W packet else packet);
              packet = (if \<not> wd_udp_checksum address then we_recalculate_udp W packet else packet)
          in if we_callback W then
               ([WCallback (we_inner W packet)
                   (Some \<lparr>pi_pid = pi_pid info, pi_process_name = pi_process_name info\<rparr>)], Inr ())
             else ([], Inr ()))"

text \<open>The loop \<^verbatim>\<open>for (a, p) in packets\<close> with a body that may return early.\<close>

fun process_held :: "('p, 'c) processor \<Rightarrow> ('p, 'c) win_env \<Rightarrow> connection_action \<Rightarrow> (wd_addr \<times> 'p) list \<Rightarrow> win_out list \<times> unit res" where
  "process_held pp W action [] = ([], Inr ())"
| "process_held pp W action ((a, p) # packets) =
     run_bind (pp W a p action) (\<lambda>u. process_held pp W action packets)"

subsection \<open>Remembering a decision\<close>

fun held_packets :: "'p win_conn_state option \<Rightarrow> (wd_addr \<times> 'p) list" where
  "held_packets (Some (Unknown packets)) = packets"
| "held_packets _ = []"

text \<open>Outputs, the new cache, and whether a send failed: the cache is changed even then.\<close>

type_synonym ('p, 'c) inserter = "('p, 'c) win_env \<Rightarrow> nat \<Rightarrow> win_conn_id \<Rightarrow> connection_action \<Rightarrow> 'c \<Rightarrow> (win_out list \<times> unit res) \<times> 'c"

definition insert_into_connections :: "('p, 'c) inserter" where
  "insert_into_connections W now connection_id action c =
     (let (existing1, c) = lru_insert (we_cache W) now (we_reverse W connection_id) (Known ActNone) c;
          (existing2, c) = lru_insert (we_cache W) now connection_id (Known action) c
      in (run_bind (process_held process_packet W ActNone (held_packets existing1))
            (\<lambda>u. process_held process_packet W action (held_packets existing2)), c))"

definition lib_insert_into_connections :: "('p, 'c) inserter" where
  "lib_insert_into_connections W now connection_id action c =
     (let (existing1, c) = lru_insert (lib_cache W) now (we_reverse W connection_id) (Known ActNone) c;
          (existing2, c) = lru_insert (lib_cache W) now connection_id (Known action) c
      in (run_bind (process_held lib_process_packet W ActNone (held_packets existing1))
            (\<lambda>u. process_held lib_process_packet W action (held_packets existing2)), c))"

definition insert_into_connections_with_callback :: "('p, 'c) inserter" where
  "insert_into_connections_with_callback W now connection_id action c =
     (let (existing1, c) = lru_insert (lib_cache W) now (we_reverse W connection_id) (Known ActNone) c;
          (existing2, c) = lru_insert (lib_cache W) now connection_id (Known action) c
      in (run_bind (process_held process_packet_with_callback W ActNone (held_packets existing1))
            (\<lambda>u. process_held process_packet_with_callback W action (held_packets existing2)), c))"

subsection \<open>A captured packet\<close>

type_synonym 'c win_result = "(win_out list \<times> unit res) \<times> 'c win_state"

definition win_network_packet :: "('p, 'c) win_env \<Rightarrow> nat \<Rightarrow> wd_addr \<Rightarrow> bytes \<Rightarrow> 'c win_state \<Rightarrow> 'c win_result" where
  "win_network_packet W now address data st =
     (case we_parse W data of
        None \<Rightarrow> (([], Inr ()), st)
      | Some packet \<Rightarrow>
          let is_multicast = (is_multicast (we_src_ip W packet) \<or> is_multicast (we_dst_ip W packet));
              is_loopback_only = (is_loopback (we_src_ip W packet) \<and> is_loopback (we_dst_ip W packet))
          in if is_multicast \<or> is_loopback_only then (inject W address (we_inner W packet), st)
             else case lru_get (we_cache W) now (we_connection_id W packet) (wst_connections st) of
               (Some (Known action), c) \<Rightarrow> (process_packet W address packet action, st\<lparr>wst_connections := c\<rparr>)
             | (Some (Unknown packets), c) \<Rightarrow>
                 (([], Inr ()), st\<lparr>wst_connections :=
                    lru_write (we_cache W) (we_connection_id W packet) (Unknown (packets @ [(address, packet)])) c\<rparr>)
             | (None, c) \<Rightarrow>
                 if wd_outbound address then
                   (([], Inr ()), st\<lparr>wst_connections :=
                      snd (lru_insert (we_cache W) now (we_connection_id W packet) (Unknown [(address, packet)]) c)\<rparr>)
                 else
                   let action =
                         (case listeners_get (we_dst W packet) (we_protocol W packet) (wst_listeners st) of
                            Some proc_info \<Rightarrow> if should_intercept (wst_conf st) proc_info then ActIntercept proc_info else ActNone
                          | None \<Rightarrow> ActNone);
                       (r, c) = insert_into_connections W now (we_connection_id W packet) action c
                   in (run_bind r (\<lambda>u. process_packet W address packet action), st\<lparr>wst_connections := c\<rparr>))"

definition handle_network_packet :: "('p, 'c) win_env \<Rightarrow> nat \<Rightarrow> wd_addr \<Rightarrow> bytes \<Rightarrow> 'c win_state \<Rightarrow> 'c win_result" where
  "handle_network_packet W now address data st =
     (case we_parse W data of
        None \<Rightarrow> (([], Inr ()), st)
      | Some packet \<Rightarrow>
          let is_multicast = (is_multicast (we_src_ip W packet) \<or> is_multicast (we_dst_ip W packet));
              is_loopback_only = (is_loopback (we_src_ip W packet) \<and> is_loopback (we_dst_ip W packet))
          in if is_multicast \<or> is_loopback_only then (inject W address (we_inner W packet), st)
             else case lru_get (lib_cache W) now (we_connection_id W packet) (wst_connections st) of
               (Some (Known action), c) \<Rightarrow> (lib_process_packet W address packet action, st\<lparr>wst_connections := c\<rparr>)
             | (Some (Unknown packets), c) \<Rightarrow>
                 (([], Inr ()), st\<lparr>wst_connections :=
                    lru_write (lib_cache W) (we_connection_id W packet) (Unknown (packets @ [(address, packet)])) c\<rparr>)
             | (None, c) \<Rightarrow>
                 if wd_outbound address then
                   (([], Inr ()), st\<lparr>wst_connections :=
                      snd (lru_insert (lib_cache W) now (we_connection_id W packet) (Unknown [(address, packet)]) c)\<rparr>)
                 else
                   let action =
                         (case lib_listeners_get (we_dst W packet) (we_protocol W packet) (wst_listeners st) of
                            Some proc_info \<Rightarrow> if should_intercept (wst_conf st) proc_info then ActIntercept proc_info else ActNone
                          | None \<Rightarrow> ActNone);
                       (r, c) = lib_insert_into_connections W now (we_connection_id W packet) action c
                   in (run_bind r (\<lambda>u. lib_process_packet W address packet action), st\<lparr>wst_connections := c\<rparr>))"

definition handle_network_packet_with_callback :: "('p, 'c) win_env \<Rightarrow> nat \<Rightarrow> wd_addr \<Rightarrow> bytes \<Rightarrow> 'c win_state \<Rightarrow> 'c win_result" where
  "handle_network_packet_with_callback W now address data st =
     (case we_parse W data of
        None \<Rightarrow> (([], Inr ()), st)
      | Some packet \<Rightarrow>
          let is_multicast = (is_multicast (we_src_ip W packet) \<or> is_multicast (we_dst_ip W packet));
              is_loopback_only = (is_loopback (we_src_ip W packet) \<and> is_loopback (we_dst_ip W packet))
          in if is_multicast \<or> is_loopback_only then (inject W address (we_inner W packet), st)
             else case lru_get (lib_cache W) now (we_connection_id W packet) (wst_connections st) of
               (Some (Known action), c) \<Rightarrow> (process_packet_with_callback W address packet action, st\<lparr>wst_connections := c\<rparr>)
             | (Some (Unknown packets), c) \<Rightarrow>
                 (([], Inr ()), st\<lparr>wst_connections :=
                    lru_write (lib_cache W) (we_connection_id W packet) (Unknown (packets @ [(address, packet)])) c\<rparr>)
             | (None, c) \<Rightarrow>
                 if wd_outbound address then
                   (([], Inr ()), st\<lparr>wst_connections :=
                      snd (lru_insert (lib_cache W) now (we_connection_id W packet) (Unknown [(address, packet)]) c)\<rparr>)
                 else
                   let action =
                         (case lib_listeners_get (we_dst W packet) (we_protocol W packet) (wst_listeners st) of
                            Some proc_info \<Rightarrow> if should_intercept (wst_conf st) proc_info then ActIntercept proc_info else ActNone
                          | None \<Rightarrow> ActNone);
                       (r, c) = insert_into_connections_with_callback W now (we_connection_id W packet) action c
                   in (run_bind r (\<lambda>u. process_packet_with_callback W address packet action), st\<lparr>wst_connections := c\<rparr>))"

subsection \<open>A socket event\<close>

definition win_socket_info :: "('p, 'c) win_env \<Rightarrow> nat \<Rightarrow> wd_socket \<Rightarrow> 'c win_state \<Rightarrow> 'c win_result" where
  "win_socket_info W now address st =
     (if ws_process_id address = 4 then (([], Inr ()), st)
      else case we_proto_try_from W (ws_protocol address) of
        None \<Rightarrow> (([], Inr ()), st)
      | Some proto \<Rightarrow>
          let src = sock_new (ws_local_address address) (ws_local_port address);
              dst = sock_new (ws_remote_address address) (ws_remote_port address)
          in if is_multicast (sock_ip src) \<or> is_multicast (sock_ip dst) then (([], Inr ()), st)
             else case ws_event address of
               SocketListen \<Rightarrow>
                 (([], Inr ()), st\<lparr>wst_listeners :=
                    listeners_insert src proto
                      \<lparr>pi_pid = ws_process_id address, pi_process_name = we_process_name W (ws_process_id address)\<rparr>
                      (wst_listeners st)\<rparr>)
             | SocketClose \<Rightarrow>
                 (let (found, c) = lru_get (we_cache W) now (WinConnId proto src dst) (wst_connections st);
                      c = (case found of Some (Unknown packets) \<Rightarrow> lru_write (we_cache W) (WinConnId proto src dst) (Unknown []) c | _ \<Rightarrow> c)
                  in (([], Inr ()), st\<lparr>wst_connections := c, wst_listeners := listeners_remove src proto (wst_listeners st)\<rparr>))
             | event \<Rightarrow>
                 if event = SocketConnect \<or> event = SocketAccept then
                   (let (found, c) = lru_get (we_cache W) now (WinConnId proto src dst) (wst_connections st);
                        make_entry = (case found of None \<Rightarrow> True | Some (Unknown packets) \<Rightarrow> True | Some (Known action) \<Rightarrow> False)
                    in if \<not> make_entry then (([], Inr ()), st\<lparr>wst_connections := c\<rparr>)
                       else
                         let proc_info = \<lparr>pi_pid = ws_process_id address, pi_process_name = we_process_name W (ws_process_id address)\<rparr>;
                             action = (if should_intercept (wst_conf st) proc_info then ActIntercept proc_info else ActNone);
                             (r, c) = insert_into_connections W now (WinConnId proto src dst) action c
                         in (r, st\<lparr>wst_connections := c\<rparr>))
                 else (([], Inr ()), st))"

definition handle_socket_info :: "('p, 'c) win_env \<Rightarrow> nat \<Rightarrow> wd_socket \<Rightarrow> 'c win_state \<Rightarrow> 'c win_result" where
  "handle_socket_info W now address st =
     (if ws_process_id address = 4 then (([], Inr ()), st)
      else case we_proto_try_from W (ws_protocol address) of
        None \<Rightarrow> (([], Inr ()), st)
      | Some proto \<Rightarrow>
          let src = sock_new (ws_local_address address) (ws_local_port address);
              dst = sock_new (ws_remote_address address) (ws_remote_port address)
          in if is_multicast (sock_ip src) \<or> is_multicast (sock_ip dst) then (([], Inr ()), st)
             else case ws_event address of
               SocketListen \<Rightarrow>
                 (([], Inr ()), st\<lparr>wst_listeners :=
                    lib_listeners_insert src proto
                      \<lparr>pi_pid = ws_process_id address, pi_process_name = we_process_name W (ws_process_id address)\<rparr>
                      (wst_listeners st)\<rparr>)
             | SocketClose \<Rightarrow>
                 (let (found, c) = lru_get (lib_cache W) now (WinConnId proto src dst) (wst_connections st);
                      c = (case found of Some (Unknown packets) \<Rightarrow> lru_write (lib_cache W) (WinConnId proto src dst) (Unknown []) c | _ \<Rightarrow> c)
                  in (([], Inr ()), st\<lparr>wst_connections := c, wst_listeners := lib_listeners_remove src proto (wst_listeners st)\<rparr>))
             | event \<Rightarrow>
                 if event = SocketConnect \<or> event = SocketAccept then
                   (let (found, c) = lru_get (lib_cache W) now (WinConnId proto src dst) (wst_connections st);
                        make_entry = (case found of None \<Rightarrow> True | Some (Unknown packets) \<Rightarrow> True | Some (Known action) \<Rightarrow> False)
                    in if \<not> make_entry then (([], Inr ()), st\<lparr>wst_connections := c\<rparr>)
                       else
                         let proc_info = \<lparr>pi_pid = ws_process_id address, pi_process_name = we_process_name W (ws_process_id address)\<rparr>;
                             action = (if should_intercept (wst_conf st) proc_info then ActIntercept proc_info else ActNone);
                             (r, c) = lib_insert_into_connections W now (WinConnId proto src dst) action c
                         in (r, st\<lparr>wst_connections := c\<rparr>))
                 else (([], Inr ()), st))"

definition handle_socket_info_with_callback :: "('p, 'c) win_env \<Rightarrow> nat \<Rightarrow> wd_socket \<Rightarrow> 'c win_state \<Rightarrow> 'c win_result" where
  "handle_socket_info_with_callback W now address st =
     (if ws_process_id address = 4 then (([], Inr ()), st)
      else case we_proto_try_from W (ws_protocol address) of
        None \<Rightarrow> (([], Inr ()), st)
      | Some proto \<Rightarrow>
          let src = sock_new (ws_local_address address) (ws_local_port address);
              dst = sock_new (ws_remote_address address) (ws_remote_port address)
          in if is_multicast (sock_ip src) \<or> is_multicast (sock_ip dst) then (([], Inr ()), st)
             else case ws_event address of
               SocketListen \<Rightarrow>
                 (([], Inr ()), st\<lparr>wst_listeners :=
                    lib_listeners_insert src proto
                      \<lparr>pi_pid = ws_process_id address, pi_process_name = we_process_name W (ws_process_id address)\<rparr>
                      (wst_listeners st)\<rparr>)
             | SocketClose \<Rightarrow>
                 (let (found, c) = lru_get (lib_cache W) now (WinConnId proto src dst) (wst_connections st);
                      c = (case found of Some (Unknown packets) \<Rightarrow> lru_write (lib_cache W) (WinConnId proto src dst) (Unknown []) c | _ \<Rightarrow> c)
                  in (([], Inr ()), st\<lparr>wst_connections := c, wst_listeners := lib_listeners_remove src proto (wst_listeners st)\<rparr>))
             | event \<Rightarrow>
                 if event = SocketConnect \<or> event = SocketAccept then
                   (let (found, c) = lru_get (lib_cache W) now (WinConnId proto src dst) (wst_connections st);
                        make_entry = (case found of None \<Rightarrow> True | Some (Unknown packets) \<Rightarrow> True | Some (Known action) \<Rightarrow> False)
                    in if \<not> make_entry then (([], Inr ()), st\<lparr>wst_connections := c\<rparr>)
                       else
                         let proc_info = \<lparr>pi_pid = ws_process_id address, pi_process_name = we_process_name W (ws_process_id address)\<rparr>;
                             action = (if should_intercept (wst_conf st) proc_info then ActIntercept proc_info else ActNone);
                             (r, c) = insert_into_connections_with_callback W now (WinConnId proto src dst) action c
                         in (r, st\<lparr>wst_connections := c\<rparr>))
                 else (([], Inr ()), st))"

subsection \<open>The policy\<close>

text \<open>The same for any treatment \<open>pp\<close> of a packet and any operations on the listeners.\<close>

definition fix_checksums :: "('p, 'c) win_env \<Rightarrow> wd_addr \<Rightarrow> 'p \<Rightarrow> 'p" where
  "fix_checksums W address packet =
     (let packet = (if \<not> wd_ip_checksum address then we_recalculate_ip W packet else packet);
          packet = (if \<not> wd_tcp_checksum address then we_recalculate_tcp W packet else packet)
      in if \<not> wd_udp_checksum address then we_recalculate_udp W packet else packet)"

definition insert_with :: "('p, 'c) processor \<Rightarrow> ('p, 'c) win_env \<Rightarrow> nat \<Rightarrow> win_conn_id \<Rightarrow> connection_action \<Rightarrow> 'c \<Rightarrow>
    (win_out list \<times> unit res) \<times> 'c" where
  "insert_with pp W now connection_id action c =
     (let (existing1, c) = lru_insert (we_cache W) now (we_reverse W connection_id) (Known ActNone) c;
          (existing2, c) = lru_insert (we_cache W) now connection_id (Known action) c
      in (run_bind (process_held pp W ActNone (held_packets existing1))
            (\<lambda>u. process_held pp W action (held_packets existing2)), c))"

definition action_for :: "intercept_conf \<Rightarrow> process_info \<Rightarrow> connection_action" where
  "action_for conf info = (if should_intercept conf info then ActIntercept info else ActNone)"

definition inbound_action :: "intercept_conf \<Rightarrow> process_info option \<Rightarrow> connection_action" where
  "inbound_action conf found =
     (case found of Some proc_info \<Rightarrow> action_for conf proc_info | None \<Rightarrow> ActNone)"

definition network_packet_with ::
  "('p, 'c) processor \<Rightarrow> (socket_addr \<Rightarrow> u8 \<Rightarrow> listeners \<Rightarrow> process_info option) \<Rightarrow> ('p, 'c) win_env \<Rightarrow> nat \<Rightarrow> wd_addr \<Rightarrow> bytes \<Rightarrow>
   'c win_state \<Rightarrow> 'c win_result" where
  "network_packet_with pp get W now address data st =
     (case we_parse W data of
        None \<Rightarrow> (([], Inr ()), st)
      | Some packet \<Rightarrow>
          let is_multicast = (is_multicast (we_src_ip W packet) \<or> is_multicast (we_dst_ip W packet));
              is_loopback_only = (is_loopback (we_src_ip W packet) \<and> is_loopback (we_dst_ip W packet))
          in if is_multicast \<or> is_loopback_only then (inject W address (we_inner W packet), st)
             else
               let cid = we_connection_id W packet;
                   (found, c) = lru_get (we_cache W) now cid (wst_connections st);
                   st = st\<lparr>wst_connections := c\<rparr>
               in case found of
                    Some (Known action) \<Rightarrow> (pp W address packet action, st)
                  | Some (Unknown packets) \<Rightarrow>
                      (([], Inr ()), st\<lparr>wst_connections := lru_write (we_cache W) cid (Unknown (packets @ [(address, packet)])) c\<rparr>)
                  | None \<Rightarrow>
                      if wd_outbound address then
                        (([], Inr ()), st\<lparr>wst_connections := snd (lru_insert (we_cache W) now cid (Unknown [(address, packet)]) c)\<rparr>)
                      else
                        let action = inbound_action (wst_conf st) (get (we_dst W packet) (we_protocol W packet) (wst_listeners st));
                            (r, c) = insert_with pp W now cid action c
                        in (run_bind r (\<lambda>u. pp W address packet action), st\<lparr>wst_connections := c\<rparr>))"

definition proc_info_of :: "('p, 'c) win_env \<Rightarrow> u32 \<Rightarrow> process_info" where
  "proc_info_of W pid = \<lparr>pi_pid = pid, pi_process_name = we_process_name W pid\<rparr>"

definition socket_info_with ::
  "('p, 'c) processor \<Rightarrow> (socket_addr \<Rightarrow> u8 \<Rightarrow> process_info \<Rightarrow> listeners \<Rightarrow> listeners) \<Rightarrow>
   (socket_addr \<Rightarrow> u8 \<Rightarrow> listeners \<Rightarrow> listeners) \<Rightarrow> ('p, 'c) win_env \<Rightarrow> nat \<Rightarrow> wd_socket \<Rightarrow> 'c win_state \<Rightarrow> 'c win_result" where
  "socket_info_with pp ins rem W now address st =
     (if ws_process_id address = 4 then (([], Inr ()), st)
      else case we_proto_try_from W (ws_protocol address) of
        None \<Rightarrow> (([], Inr ()), st)
      | Some proto \<Rightarrow>
          let src = sock_new (ws_local_address address) (ws_local_port address);
              dst = sock_new (ws_remote_address address) (ws_remote_port address);
              cid = WinConnId proto src dst
          in if is_multicast (sock_ip src) \<or> is_multicast (sock_ip dst) then (([], Inr ()), st)
             else if ws_event address \<in> {SocketConnect, SocketAccept} then
               (let (found, c) = lru_get (we_cache W) now cid (wst_connections st);
                    make_entry = (case found of None \<Rightarrow> True | Some (Unknown packets) \<Rightarrow> True | Some (Known action) \<Rightarrow> False)
                in if \<not> make_entry then (([], Inr ()), st\<lparr>wst_connections := c\<rparr>)
                   else
                     let action = action_for (wst_conf st) (proc_info_of W (ws_process_id address));
                         (r, c) = insert_with pp W now cid action c
                     in (r, st\<lparr>wst_connections := c\<rparr>))
             else if ws_event address = SocketListen then
               (([], Inr ()), st\<lparr>wst_listeners := ins src proto (proc_info_of W (ws_process_id address)) (wst_listeners st)\<rparr>)
             else if ws_event address = SocketClose then
               (let (found, c) = lru_get (we_cache W) now cid (wst_connections st);
                    c = (case found of Some (Unknown packets) \<Rightarrow> lru_write (we_cache W) cid (Unknown []) c | _ \<Rightarrow> c)
                in (([], Inr ()), st\<lparr>wst_connections := c, wst_listeners := rem src proto (wst_listeners st)\<rparr>))
             else (([], Inr ()), st))"

lemma lib_cache_eq: "lib_cache = we_cache"
  by (simp add: fun_eq_iff lib_cache_def we_cache_def lib_connection_expiry_def connection_expiry_def)

lemma process_packet_eq:
  "process_packet W address packet action =
     (case action of
        ActNone \<Rightarrow> inject W address (we_inner W packet)
      | ActIntercept info \<Rightarrow>
          let m = PacketWithMeta (we_inner W (fix_checksums W address packet))
                    (Some (IpcTunnelInfo (Some (pi_pid info)) (pi_process_name info)))
          in case we_ipc_send W m of Inl e \<Rightarrow> ([], Inl e) | Inr u \<Rightarrow> ([WIpc m], Inr ()))"
  by (simp add: process_packet_def fix_checksums_def Let_def split: connection_action.split)

lemma insert_follows:
  "insert_into_connections = insert_with process_packet"
  "lib_insert_into_connections = insert_with lib_process_packet"
  "insert_into_connections_with_callback = insert_with process_packet_with_callback"
  by (simp_all add: fun_eq_iff insert_into_connections_def lib_insert_into_connections_def
      insert_into_connections_with_callback_def insert_with_def lib_cache_eq)

lemmas network_packet_policy = network_packet_with_def insert_follows inbound_action_def action_for_def
  lib_cache_eq Let_def case_prod_beta

lemma network_packet_follows:
  "win_network_packet = network_packet_with process_packet listeners_get"
  "handle_network_packet = network_packet_with lib_process_packet lib_listeners_get"
  "handle_network_packet_with_callback = network_packet_with process_packet_with_callback lib_listeners_get"
  by (simp_all add: fun_eq_iff network_packet_policy win_network_packet_def handle_network_packet_def
      handle_network_packet_with_callback_def split: option.split win_conn_state.split prod.split)

lemmas socket_info_policy = socket_info_with_def insert_follows proc_info_of_def action_for_def
  lib_cache_eq Let_def case_prod_beta

lemma socket_info_follows:
  "win_socket_info = socket_info_with process_packet listeners_insert listeners_remove"
  "handle_socket_info = socket_info_with lib_process_packet lib_listeners_insert lib_listeners_remove"
  "handle_socket_info_with_callback =
     socket_info_with process_packet_with_callback lib_listeners_insert lib_listeners_remove"
  by (simp_all add: fun_eq_iff socket_info_policy win_socket_info_def handle_socket_info_def
      handle_socket_info_with_callback_def split: option.split wd_event.split win_conn_state.split)

subsection \<open>Packets from the proxy and new configurations\<close>

definition injected_address :: wd_addr where
  "injected_address = \<lparr>wd_outbound = True, wd_ip_checksum = False, wd_tcp_checksum = False, wd_udp_checksum = False\<rparr>"

definition win_ipc_packet :: "('p, 'c) win_env \<Rightarrow> bytes \<Rightarrow> win_out list \<times> unit res" where
  "win_ipc_packet W buf =
     (case we_parse W buf of
        None \<Rightarrow> ([], Inr ())
      | Some packet \<Rightarrow> inject W injected_address (we_inner W packet))"

definition handle_packet_injection :: "('p, 'c) win_env \<Rightarrow> bytes \<Rightarrow> win_out list \<times> unit res" where
  "handle_packet_injection W buf =
     (case we_parse W buf of
        None \<Rightarrow> ([], Inr ())
      | Some packet \<Rightarrow>
          inject W \<lparr>wd_outbound = True, wd_ip_checksum = False, wd_tcp_checksum = False, wd_udp_checksum = False\<rparr>
            (we_inner W packet))"

text \<open>The loop over the system's table of sockets in \<^verbatim>\<open>main2.rs\<close>: the first error ends it.\<close>

fun win_preexisting :: "('p, 'c) win_env \<Rightarrow> nat \<Rightarrow> net_entry list \<Rightarrow> 'c win_state \<Rightarrow> 'c win_result" where
  "win_preexisting W now [] st = (([], Inr ()), st)"
| "win_preexisting W now (e # es) st =
     (case we_proto_try_from W (en_protocol e) of
        None \<Rightarrow> (([], Inl (Failed ''unknown transport protocol'')), st)
      | Some proto \<Rightarrow>
          if is_unspecified (sock_ip (en_remote_addr e)) then
            win_preexisting W now es
              (st\<lparr>wst_listeners := listeners_insert (en_local_addr e) proto (proc_info_of W (en_pid e)) (wst_listeners st)\<rparr>)
          else
            let cid = WinConnId proto (en_local_addr e) (en_remote_addr e);
                action = action_for (wst_conf st) (proc_info_of W (en_pid e));
                (r, c) = insert_into_connections W now cid action (wst_connections st);
                st = st\<lparr>wst_connections := c\<rparr>
            in case r of
                 (out, Inl err) \<Rightarrow> ((out, Inl err), st)
               | (out, Inr u) \<Rightarrow>
                   let ((out', r'), st') = win_preexisting W now es st in ((out @ out', r'), st'))"

text \<open>The same loop in \<^verbatim>\<open>windows_redirector.rs\<close>: unknown protocols are skipped, errors logged.\<close>

fun lib_preexisting :: "('p, 'c) win_env \<Rightarrow> nat \<Rightarrow> net_entry list \<Rightarrow> 'c win_state \<Rightarrow> win_out list \<times> 'c win_state" where
  "lib_preexisting W now [] st = ([], st)"
| "lib_preexisting W now (e # es) st =
     (case we_proto_try_from W (en_protocol e) of
        None \<Rightarrow> lib_preexisting W now es st
      | Some proto \<Rightarrow>
          if is_unspecified (sock_ip (en_remote_addr e)) then
            lib_preexisting W now es
              (st\<lparr>wst_listeners := lib_listeners_insert (en_local_addr e) proto (proc_info_of W (en_pid e)) (wst_listeners st)\<rparr>)
          else
            let cid = WinConnId proto (en_local_addr e) (en_remote_addr e);
                action = action_for (wst_conf st) (proc_info_of W (en_pid e));
                (r, c) = insert_into_connections_with_callback W now cid action (wst_connections st);
                (out', st') = lib_preexisting W now es (st\<lparr>wst_connections := c\<rparr>)
            in (fst r @ out', st'))"

subsection \<open>The two event loops\<close>

datatype win_event =
    WinNetworkPacket wd_addr bytes
  | WinSocketInfo wd_socket
  | WinIpc from_proxy_message

definition win_start :: "('p, 'c) win_env \<Rightarrow> 'c win_state" where
  "win_start W = \<lparr>wst_conf = conf_disabled, wst_connections = lru_new (we_cache W), wst_listeners = listeners_new\<rparr>"

text \<open>One round of the loop of \<^verbatim>\<open>main2.rs\<close>; an \<open>Inl\<close> ends the process.\<close>

fun win_step :: "('p, 'c) win_env \<Rightarrow> nat \<Rightarrow> win_event \<Rightarrow> 'c win_state \<Rightarrow> 'c win_result" where
  "win_step W now (WinNetworkPacket address data) st = win_network_packet W now address data st"
| "win_step W now (WinSocketInfo address) st = win_socket_info W now address st"
| "win_step W now (WinIpc (FromProxyPacket packet)) st = (win_ipc_packet W (ipc_packet_data packet), st)"
| "win_step W now (WinIpc (FromProxyConf conf)) st =
     (case conf_try_from_ipc conf of
        Inl e \<Rightarrow> (([], Inl e), st)
      | Inr c \<Rightarrow>
          let st = st\<lparr>wst_conf := c, wst_connections := lru_clear (we_cache W) (wst_connections st),
                      wst_listeners := listeners_clear (wst_listeners st)\<rparr>
          in case we_network_table W of
               Inl e \<Rightarrow> (([], Inl e), st)
             | Inr entries \<Rightarrow> win_preexisting W now entries st)"

text \<open>The loop: the events with the times at which they are handled; the first error ends it.\<close>

fun win_run :: "('p, 'c) win_env \<Rightarrow> (nat \<times> win_event) list \<Rightarrow> 'c win_state \<Rightarrow> 'c win_result" where
  "win_run W [] st = (([], Inr ()), st)"
| "win_run W ((now, ev) # evs) st =
     (case win_step W now ev st of
        ((out, Inl e), st') \<Rightarrow> ((out, Inl e), st')
      | ((out, Inr u), st') \<Rightarrow> let ((out', r), st'') = win_run W evs st' in ((out @ out', r), st''))"

datatype lib_event =
    LibNetworkPacket wd_addr bytes
  | LibSocketInfo wd_socket
  | LibInterceptConf intercept_conf
  | LibPacketToInject bytes

text \<open>The object holds whether the callbacks are set, the sender of events, and a flag.\<close>

record lib_redirector =
  lr_packet_callback :: bool
  lr_conf_callback :: bool
  lr_has_event_tx :: bool
  lr_running :: bool

definition lib_new :: lib_redirector where
  "lib_new = \<lparr>lr_packet_callback = False, lr_conf_callback = False, lr_has_event_tx = False, lr_running = False\<rparr>"

definition set_packet_callback :: "lib_redirector \<Rightarrow> lib_redirector" where
  "set_packet_callback r = r\<lparr>lr_packet_callback := True\<rparr>"

definition set_intercept_conf_callback :: "lib_redirector \<Rightarrow> lib_redirector" where
  "set_intercept_conf_callback r = r\<lparr>lr_conf_callback := True\<rparr>"

text \<open>
  \<open>lib_start\<close>: what \<^verbatim>\<open>start\<close> does to the object (opening the three handles is \<open>handles\<close>), and
  what the loop it spawns is given: the two callbacks, taken out of the object, and its first event.
\<close>

definition lib_start :: "unit res \<Rightarrow> lib_redirector \<Rightarrow> lib_redirector \<times> (bool \<times> bool \<times> lib_event list) res" where
  "lib_start handles r =
     (if lr_running r then (r, Inl (Failed ''Windows redirector is already running''))
      else
        let r = r\<lparr>lr_has_event_tx := True\<rparr> in
        case handles of
          Inl e \<Rightarrow> (r, Inl e)
        | Inr u \<Rightarrow>
            (r\<lparr>lr_running := True, lr_packet_callback := False, lr_conf_callback := False\<rparr>,
             Inr (lr_packet_callback r, lr_conf_callback r, [LibInterceptConf conf_disabled])))"

definition lib_stop :: "lib_redirector \<Rightarrow> lib_redirector" where
  "lib_stop r = r\<lparr>lr_running := False, lr_has_event_tx := False\<rparr>"

definition lib_is_running :: "lib_redirector \<Rightarrow> bool" where
  "lib_is_running r = lr_running r"

text \<open>One round of the loop of \<^verbatim>\<open>windows_redirector.rs\<close>: errors are logged and the loop goes on.\<close>

fun lib_step :: "('p, 'c) win_env \<Rightarrow> nat \<Rightarrow> lib_event \<Rightarrow> 'c win_state \<Rightarrow> win_out list \<times> 'c win_state" where
  "lib_step W now (LibNetworkPacket address data) st =
     (let (r, st') = handle_network_packet_with_callback W now address data st in (fst r, st'))"
| "lib_step W now (LibSocketInfo address) st =
     (let (r, st') = handle_socket_info_with_callback W now address st in (fst r, st'))"
| "lib_step W now (LibPacketToInject data) st = (fst (handle_packet_injection W data), st)"
| "lib_step W now (LibInterceptConf conf) st =
     (let st = st\<lparr>wst_conf := conf, wst_connections := lru_clear (lib_cache W) (wst_connections st),
                  wst_listeners := lib_listeners_clear (wst_listeners st)\<rparr>;
          out = (if we_conf_callback W then [WConfCallback conf] else [])
      in case we_network_table W of
           Inl e \<Rightarrow> (out, st)
         | Inr entries \<Rightarrow> let (out', st') = lib_preexisting W now entries st in (out @ out', st'))"

fun lib_run :: "('p, 'c) win_env \<Rightarrow> (nat \<times> lib_event) list \<Rightarrow> 'c win_state \<Rightarrow> win_out list \<times> 'c win_state" where
  "lib_run W [] st = ([], st)"
| "lib_run W ((now, ev) # evs) st =
     (let (out, st') = lib_step W now ev st; (out', st'') = lib_run W evs st' in (out @ out', st''))"

subsection \<open>The pipe\<close>

text \<open>
  \<^verbatim>\<open>handle_ipc\<close>, one round.  \<open>buf_size\<close> is the length of its buffer: a read takes at most that
  many bytes of the message that waits in the pipe, and a packet whose encoding is longer is not
  written.  Decoding has to consume all that was read, else the task panics.
\<close>

datatype pipe_input = PipeRead "bytes res" | PipePacket ipc_packet_with_meta
datatype pipe_result = PipeEvent win_event | PipeWrite bytes | PipeFail fault | PipeExit | PipePanic

fun handle_ipc :: "ipc_codec \<Rightarrow> nat \<Rightarrow> (bytes \<Rightarrow> unit res) \<Rightarrow> pipe_input \<Rightarrow> pipe_result" where
  "handle_ipc k buf_size write_all (PipeRead r) =
     (case r of
        Inl e \<Rightarrow> PipeExit
      | Inr waiting \<Rightarrow>
          let buf = take buf_size waiting in
          if 0 < length buf then
            (case dec_from_proxy k buf of
               Some (FromProxy (Some message)) \<Rightarrow>
                 if pos_from_proxy k buf = length buf then PipeEvent (WinIpc message) else PipePanic
             | _ \<Rightarrow> PipeFail (Failed ''Received invalid IPC message''))
          else PipeExit)"
| "handle_ipc k buf_size write_all (PipePacket packet) =
     (case enc_packet k packet of
        Inl e \<Rightarrow> PipeFail e
      | Inr buf \<Rightarrow>
          if length buf \<le> buf_size then
            (case write_all buf of Inl e \<Rightarrow> PipeFail e | Inr u \<Rightarrow> PipeWrite buf)
          else PipeFail (Failed ''insufficient capacity''))"

subsection \<open>The relay threads\<close>

text \<open>
  One round of \<^verbatim>\<open>relay_socket_events\<close> or \<^verbatim>\<open>relay_network_events\<close>: every packet
  received becomes an event, until the receiver of events is gone (\<open>alive\<close> answers each send); an
  error of WinDivert ends the process.
\<close>

datatype relay_ctl = RelayContinue | RelayReturn | RelayExit nat

fun relay_packets :: "('e \<Rightarrow> bool) \<Rightarrow> 'e list \<Rightarrow> 'e list \<times> relay_ctl" where
  "relay_packets alive [] = ([], RelayContinue)"
| "relay_packets alive (e # es) =
     (if alive e then (let (sent, ctl) = relay_packets alive es in (e # sent, ctl)) else ([], RelayReturn))"

definition relay_socket_events :: "(win_event \<Rightarrow> bool) \<Rightarrow> wd_socket list res \<Rightarrow> win_event list \<times> relay_ctl" where
  "relay_socket_events alive packets =
     (case packets of
        Inr ps \<Rightarrow> relay_packets alive (map WinSocketInfo ps)
      | Inl err \<Rightarrow> ([], RelayExit 74))"

definition relay_network_events :: "(win_event \<Rightarrow> bool) \<Rightarrow> (wd_addr \<times> bytes) list res \<Rightarrow> win_event list \<times> relay_ctl" where
  "relay_network_events alive packets =
     (case packets of
        Inr ps \<Rightarrow> relay_packets alive (map (\<lambda>(a, d). WinNetworkPacket a d) ps)
      | Inl err \<Rightarrow> ([], RelayExit 74))"

text \<open>The relays of the class: an error of WinDivert only ends the thread.\<close>

definition lib_relay_socket_events :: "(lib_event \<Rightarrow> bool) \<Rightarrow> wd_socket list res \<Rightarrow> lib_event list \<times> relay_ctl" where
  "lib_relay_socket_events alive packets =
     (case packets of
        Inr ps \<Rightarrow> relay_packets alive (map LibSocketInfo ps)
      | Inl err \<Rightarrow> ([], RelayReturn))"

definition lib_relay_network_events :: "(lib_event \<Rightarrow> bool) \<Rightarrow> (wd_addr \<times> bytes) list res \<Rightarrow> lib_event list \<times> relay_ctl" where
  "lib_relay_network_events alive packets =
     (case packets of
        Inr ps \<Rightarrow> relay_packets alive (map (\<lambda>(a, d). LibNetworkPacket a d) ps)
      | Inl err \<Rightarrow> ([], RelayReturn))"

subsection \<open>The Python class\<close>

text \<open>\<open>rt\<close> is whether a runtime could be created; the two placeholders do nothing.\<close>

definition py_win_start :: "unit res \<Rightarrow> unit res \<Rightarrow> lib_redirector \<Rightarrow> lib_redirector \<times> unit res" where
  "py_win_start rt handles r =
     (case rt of
        Inl e \<Rightarrow> (r, Inl e)
      | Inr u \<Rightarrow>
          (case lib_start handles r of
             (r', Inl e) \<Rightarrow> (r', Inl (Failed ''Failed to start Windows redirector''))
           | (r', Inr evs) \<Rightarrow> (r', Inr ())))"

definition py_win_inject_packet :: "bytes \<Rightarrow> lib_redirector \<Rightarrow> win_out list \<times> unit res" where
  "py_win_inject_packet packet_data r = ([], Inr ())"

definition py_win_update_intercept_conf :: "intercept_conf \<Rightarrow> lib_redirector \<Rightarrow> win_out list \<times> unit res" where
  "py_win_update_intercept_conf conf r = ([], Inr ())"

definition stub_start :: "unit res" where
  "stub_start = Inl (Failed ''Windows redirector only works on Windows'')"

subsection \<open>What happens to a packet\<close>

datatype packet_fate = Reinjected wd_addr bytes | ToProxy bytes process_info

fun fate :: "win_out \<Rightarrow> packet_fate option" where
  "fate (WInject a d) = Some (Reinjected a d)"
| "fate (WIpc (PacketWithMeta d (Some (IpcTunnelInfo (Some pid) name)))) = Some (ToProxy d \<lparr>pi_pid = pid, pi_process_name = name\<rparr>)"
| "fate (WCallback d (Some info)) = Some (ToProxy d info)"
| "fate _ = None"

fun fate_of :: "('p, 'c) win_env \<Rightarrow> connection_action \<Rightarrow> wd_addr \<times> 'p \<Rightarrow> packet_fate" where
  "fate_of W ActNone (a, p) = Reinjected a (we_inner W p)"
| "fate_of W (ActIntercept info) (a, p) = ToProxy (we_inner W (fix_checksums W a p)) info"

abbreviation fates :: "win_out list \<Rightarrow> packet_fate option list" where
  "fates os \<equiv> map fate os"

definition inject_works :: "('p, 'c) win_env \<Rightarrow> bool" where
  "inject_works W \<longleftrightarrow> (\<forall>a d. we_inject W a d = Inr ())"

definition ipc_works :: "('p, 'c) win_env \<Rightarrow> bool" where
  "ipc_works W \<longleftrightarrow> inject_works W \<and> (\<forall>m. we_ipc_send W m = Inr ())"

definition callback_works :: "('p, 'c) win_env \<Rightarrow> bool" where
  "callback_works W \<longleftrightarrow> inject_works W \<and> we_callback W"

text \<open>
  The contract of the three processors: when the environment works, a packet leaves exactly once,
  and where to is what its action says.
\<close>

locale packet_processor =
  fixes pp :: "('p, 'c) processor" and works :: "('p, 'c) win_env \<Rightarrow> bool"
  assumes one_out: "works W \<Longrightarrow> \<exists>out. pp W a p action = ([out], Inr ()) \<and> fate out = Some (fate_of W action (a, p))"
begin

lemma held_out:
  "works W \<Longrightarrow> \<exists>outs. process_held pp W action ps = (outs, Inr ()) \<and> fates outs = map (\<lambda>x. Some (fate_of W action x)) ps"
proof (induction ps)
  case (Cons x ps)
  obtain a p where x: "x = (a, p)" by (cases x)
  obtain out where "pp W a p action = ([out], Inr ())" "fate out = Some (fate_of W action (a, p))"
    using one_out [OF Cons.prems] by blast
  with Cons x show ?case by auto
qed simp

lemma insert_succeeds: "works W \<Longrightarrow> insert_with pp W now cid action c = (r, c') \<Longrightarrow> \<exists>outs. r = (outs, Inr ())"
proof -
  assume W: "works W" and i: "insert_with pp W now cid action c = (r, c')"
  obtain e1 e2 where r: "r = run_bind (process_held pp W ActNone e1) (\<lambda>u. process_held pp W action e2)"
    using i by (auto simp: insert_with_def split: prod.splits)
  show ?thesis using held_out [OF W, of ActNone e1] held_out [OF W, of action e2] r by auto
qed

lemma insert_out:
  assumes "works W" and "lru_laws (we_cache W) ttl content"
    and "insert_with pp W now cid action c = (r, c')" and "we_reverse W cid \<noteq> cid"
  shows "\<exists>outs. r = (outs, Inr ()) \<and>
     fates outs = map (\<lambda>x. Some (fate_of W ActNone x)) (held_packets (content now c (we_reverse W cid))) @
                  map (\<lambda>x. Some (fate_of W action x)) (held_packets (content now c cid)) \<and>
     content now c' = (content now c)(we_reverse W cid \<mapsto> Known ActNone, cid \<mapsto> Known action)"
proof -
  obtain e1 c1 where 1: "lru_insert (we_cache W) now (we_reverse W cid) (Known ActNone) c = (e1, c1)" by (metis surj_pair)
  obtain e2 c2 where 2: "lru_insert (we_cache W) now cid (Known action) c1 = (e2, c2)" by (metis surj_pair)
  from lru_laws.insert_pair [OF assms(2) 1] lru_laws.insert_pair [OF assms(2) 2] assms(4)
  have e: "e1 = content now c (we_reverse W cid)" "e2 = content now c cid"
    "content now c2 = (content now c)(we_reverse W cid \<mapsto> Known ActNone, cid \<mapsto> Known action)" by auto
  obtain o1 where o1: "process_held pp W ActNone (held_packets e1) = (o1, Inr ())"
    "fates o1 = map (\<lambda>x. Some (fate_of W ActNone x)) (held_packets e1)" using held_out [OF assms(1)] by blast
  obtain o2 where o2: "process_held pp W action (held_packets e2) = (o2, Inr ())"
    "fates o2 = map (\<lambda>x. Some (fate_of W action x)) (held_packets e2)" using held_out [OF assms(1)] by blast
  have "r = (o1 @ o2, Inr ())" and "c' = c2"
    using assms(3) 1 2 o1(1) o2(1) by (auto simp: insert_with_def)
  then show ?thesis using e o1(2) o2(2) by simp
qed

end

lemma inject_out: "inject_works W \<Longrightarrow> inject W a d = ([WInject a d], Inr ())"
  by (simp add: inject_works_def inject_def)

interpretation exe: packet_processor process_packet ipc_works
proof
  fix W :: "('p, 'c) win_env" and a p action
  show "ipc_works W \<Longrightarrow> \<exists>out. process_packet W a p action = ([out], Inr ()) \<and> fate out = Some (fate_of W action (a, p))"
    by (cases action) (auto simp: process_packet_eq ipc_works_def inject_out Let_def)
qed

interpretation lib: packet_processor lib_process_packet ipc_works
proof
  fix W :: "('p, 'c) win_env" and a p action
  show "ipc_works W \<Longrightarrow> \<exists>out. lib_process_packet W a p action = ([out], Inr ()) \<and> fate out = Some (fate_of W action (a, p))"
    by (cases action) (auto simp: lib_process_packet_def fix_checksums_def ipc_works_def inject_out Let_def)
qed

interpretation callback: packet_processor process_packet_with_callback callback_works
proof
  fix W :: "('p, 'c) win_env" and a p action
  show "callback_works W \<Longrightarrow> \<exists>out. process_packet_with_callback W a p action = ([out], Inr ()) \<and> fate out = Some (fate_of W action (a, p))"
    by (cases action) (auto simp: process_packet_with_callback_def fix_checksums_def callback_works_def inject_out Let_def)
qed

subsection \<open>An environment to evaluate the redirector in\<close>

text \<open>IPv4 packets without options, ports at the start of the payload, a ten-minute cache.\<close>

definition basic_win :: "(bytes, (win_conn_id, bytes win_conn_state) timed) win_env" where
  "basic_win =
     \<lparr>we_parse = (\<lambda>b. if 24 \<le> length b then Some b else None),
      we_connection_id = (\<lambda>b. WinConnId (b ! 9)
         (SockV4 (be_word (take 4 (drop 12 b))) (be_word (take 2 (drop 20 b))))
         (SockV4 (be_word (take 4 (drop 16 b))) (be_word (take 2 (drop 22 b))))),
      we_src_ip = (\<lambda>b. IpV4 (be_word (take 4 (drop 12 b)))),
      we_dst_ip = (\<lambda>b. IpV4 (be_word (take 4 (drop 16 b)))),
      we_dst = (\<lambda>b. SockV4 (be_word (take 4 (drop 16 b))) (be_word (take 2 (drop 22 b)))),
      we_protocol = (\<lambda>b. b ! 9),
      we_inner = (\<lambda>b. b),
      we_recalculate_ip = (\<lambda>b. b[10 := 7]),
      we_recalculate_tcp = (\<lambda>b. b),
      we_recalculate_udp = (\<lambda>b. b),
      we_reverse = (\<lambda>c. WinConnId (wc_proto c) (wc_dst c) (wc_src c)),
      we_proto_try_from = (\<lambda>b. if b = 6 \<or> b = 17 then Some b else None),
      we_process_name = (\<lambda>pid. if pid = 77 then Some ''curl.exe'' else None),
      we_inject = (\<lambda>a d. Inr ()),
      we_ipc_send = (\<lambda>m. Inr ()),
      we_callback = True,
      we_conf_callback = False,
      we_network_table = Inr [],
      we_with_expiry = timed_lru\<rparr>"

definition ex_packet :: bytes where
  "ex_packet = [0x45,0,0,24, 0,0,0,0, 64,6,0,0, 10,0,0,1, 93,184,216,34, 4,210, 0,80]"

definition ex_wd_addr :: wd_addr where
  "ex_wd_addr = \<lparr>wd_outbound = True, wd_ip_checksum = False, wd_tcp_checksum = True, wd_udp_checksum = True\<rparr>"

definition ex_socket :: wd_socket where
  "ex_socket = \<lparr>ws_process_id = 77, ws_protocol = 6, ws_local_address = IpV4 0x0A000001, ws_local_port = 1234,
     ws_remote_address = IpV4 0x5DB8D822, ws_remote_port = 80, ws_event = SocketConnect\<rparr>"

definition ex_conf :: intercept_conf where
  "ex_conf = conf_new [Include (Process ''curl'')]"

text \<open>The redirector after it has captured \<open>ex_packet\<close> under \<open>ex_conf\<close>.\<close>

definition ex_held :: "(win_conn_id, bytes win_conn_state) timed win_state" where
  "ex_held = snd (win_step basic_win 5 (WinNetworkPacket ex_wd_addr ex_packet) ((win_start basic_win)\<lparr>wst_conf := ex_conf\<rparr>))"

lemma basic_win_works [simp]: "ipc_works basic_win" "callback_works basic_win"
  by (simp_all add: ipc_works_def callback_works_def inject_works_def basic_win_def)

lemma basic_win_cache: "lru_laws (we_cache basic_win) 600000 (timed_content 600000)"
  using timed.lru_laws_axioms [of 600000] by (simp add: basic_win_def we_cache_def connection_expiry_def)

subsection \<open>Properties\<close>

lemma insert_with_lives:
  assumes "lru_laws (we_cache W) ttl content" and "insert_with pp W now cid action c = (r, c')"
    and "we_reverse W cid \<noteq> cid" and "now \<le> t" and "t \<le> now + ttl"
  shows "content t c' cid = Some (Known action) \<and> content t c' (we_reverse W cid) = Some (Known ActNone)"
proof -
  obtain e1 c1 where 1: "lru_insert (we_cache W) now (we_reverse W cid) (Known ActNone) c = (e1, c1)" by (metis surj_pair)
  obtain e2 c2 where 2: "lru_insert (we_cache W) now cid (Known action) c1 = (e2, c2)" by (metis surj_pair)
  have "c' = c2" using assms(2) 1 2 by (simp add: insert_with_def)
  moreover have "content t c2 cid = Some (Known action)"
    using lru_laws.insert_lives [OF assms(1,5,4), of cid "Known action" c1] 2 by simp
  moreover have "content t c2 (we_reverse W cid) = content t c1 (we_reverse W cid)"
    using lru_laws.insert_other [OF assms(1,4,3), of "Known action" c1] 2 by simp
  moreover have "content t c1 (we_reverse W cid) = Some (Known ActNone)"
    using lru_laws.insert_lives [OF assms(1,5,4), of "we_reverse W cid" "Known ActNone" c] 1 by simp
  ultimately show ?thesis by simp
qed

text \<open>The connection a socket event is about.\<close>

definition socket_conn_id :: "u8 \<Rightarrow> wd_socket \<Rightarrow> win_conn_id" where
  "socket_conn_id proto s =
     WinConnId proto (sock_new (ws_local_address s) (ws_local_port s)) (sock_new (ws_remote_address s) (ws_remote_port s))"

text \<open>A socket event that makes the redirector decide.\<close>

definition decisive :: "('p, 'c) win_env \<Rightarrow> u8 \<Rightarrow> wd_socket \<Rightarrow> bool" where
  "decisive W proto s \<longleftrightarrow>
     ws_process_id s \<noteq> 4 \<and> we_proto_try_from W (ws_protocol s) = Some proto \<and>
     \<not> is_multicast (ws_local_address s) \<and> \<not> is_multicast (ws_remote_address s) \<and>
     ws_event s \<in> {SocketConnect, SocketAccept}"

definition ex_cid :: win_conn_id where
  "ex_cid = WinConnId 6 (SockV4 0x0A000001 1234) (SockV4 0x5DB8D822 80)"

lemma ex_packet_parsed:
  "we_parse basic_win ex_packet = Some ex_packet" "we_connection_id basic_win ex_packet = ex_cid"
  "we_src_ip basic_win ex_packet = IpV4 0x0A000001" "we_dst_ip basic_win ex_packet = IpV4 0x5DB8D822"
  by (simp_all add: basic_win_def ex_packet_def ex_cid_def be_word_def)

lemma ex_held_eq:
  "ex_held = \<lparr>wst_conf = ex_conf, wst_connections = [(ex_cid, Unknown [(ex_wd_addr, ex_packet)], 5)], wst_listeners = listeners_new\<rparr>"
  by (simp add: ex_held_def network_packet_follows network_packet_with_def ex_packet_parsed win_start_def)
    (simp add: basic_win_def we_cache_def timed_lru_def timed_get_def ex_wd_addr_def)

lemma ex_held_content: "timed_content 600000 9 (wst_connections ex_held) ex_cid = Some (Unknown [(ex_wd_addr, ex_packet)])"
  by (simp add: ex_held_eq timed_content_Cons)

lemma ex_decision:
  "decisive basic_win 6 ex_socket" "ex_cid = socket_conn_id 6 ex_socket" "we_reverse basic_win ex_cid \<noteq> ex_cid"
  "ActIntercept \<lparr>pi_pid = 77, pi_process_name = Some ''curl.exe''\<rparr> =
     action_for (wst_conf ex_held) (proc_info_of basic_win (ws_process_id ex_socket))"
  by (simp_all add: decisive_def basic_win_def ex_socket_def ex_cid_def socket_conn_id_def ex_held_eq ex_conf_def
      proc_info_of_def action_for_def should_intercept_def conf_new_def intercept_step_def starts_with_def)

lemma socket_event_inserts:
  assumes "decisive W proto s" and "lru_laws (we_cache W) ttl content"
    and "\<forall>a. content now (wst_connections st) (socket_conn_id proto s) \<noteq> Some (Known a)"
  shows "\<exists>c. content now c = content now (wst_connections st) \<and>
     socket_info_with pp ins rem W now s st =
       (let (r, c') = insert_with pp W now (socket_conn_id proto s)
              (action_for (wst_conf st) (proc_info_of W (ws_process_id s))) c
        in (r, st\<lparr>wst_connections := c'\<rparr>))"
proof -
  obtain found c where g: "lru_get (we_cache W) now (socket_conn_id proto s) (wst_connections st) = (found, c)"
    by (metis surj_pair)
  from lru_laws.get_pair [OF assms(2) g] have "found = content now (wst_connections st) (socket_conn_id proto s)"
    and c: "content now c = content now (wst_connections st)" by auto
  with assms(3) have "(case found of None \<Rightarrow> True | Some (Unknown packets) \<Rightarrow> True | Some (Known action) \<Rightarrow> False)"
    by (auto split: option.splits win_conn_state.splits)
  then show ?thesis
    using assms(1) g c by (auto simp: socket_info_with_def decisive_def socket_conn_id_def Let_def split: prod.splits)
qed

text \<open>
  C4. When a socket event names the process behind a connection that is not decided yet, every packet
  held for it leaves exactly once and in order, to the proxy if the process is intercepted and back
  onto the network otherwise; packets held for the opposite direction are re-injected; and the
  decision is remembered for both directions.
\<close>

theorem socket_event_flushes:
  assumes "lru_laws (we_cache W) ttl content" and "ipc_works W" and "decisive W proto s"
    and "cid = socket_conn_id proto s" and "we_reverse W cid \<noteq> cid"
    and "\<forall>a. content now (wst_connections st) cid \<noteq> Some (Known a)"
    and "action = action_for (wst_conf st) (proc_info_of W (ws_process_id s))"
  shows "\<exists>outs st'. win_step W now (WinSocketInfo s) st = ((outs, Inr ()), st') \<and>
     fates outs = map (\<lambda>x. Some (fate_of W ActNone x)) (held_packets (content now (wst_connections st) (we_reverse W cid))) @
                  map (\<lambda>x. Some (fate_of W action x)) (held_packets (content now (wst_connections st) cid)) \<and>
     content now (wst_connections st') =
       (content now (wst_connections st))(we_reverse W cid \<mapsto> Known ActNone, cid \<mapsto> Known action)"
proof -
  obtain c where c: "content now c = content now (wst_connections st)"
    and run: "win_step W now (WinSocketInfo s) st =
      (let (r, c') = insert_with process_packet W now cid action c in (r, st\<lparr>wst_connections := c'\<rparr>))"
    using socket_event_inserts [OF assms(3,1), of now st process_packet listeners_insert listeners_remove] assms(4,6,7)
    by (auto simp: socket_info_follows)
  obtain r c' where i: "insert_with process_packet W now cid action c = (r, c')" by (metis surj_pair)
  from exe.insert_out [OF assms(2,1) i assms(5)] c run i show ?thesis by auto
qed

theorem socket_event_flushes_witness:
  "\<exists>outs st'. win_step basic_win 9 (WinSocketInfo ex_socket) ex_held = ((outs, Inr ()), st') \<and>
     fates outs = [Some (ToProxy (ex_packet[10 := 7]) \<lparr>pi_pid = 77, pi_process_name = Some ''curl.exe''\<rparr>)] \<and>
     timed_content 600000 9 (wst_connections st') ex_cid =
       Some (Known (ActIntercept \<lparr>pi_pid = 77, pi_process_name = Some ''curl.exe''\<rparr>))"
proof -
  have "held_packets (timed_content 600000 9 (wst_connections ex_held) (we_reverse basic_win ex_cid)) = []"
    using ex_decision(3) by (simp add: ex_held_eq timed_content_Cons)
  moreover have "fate_of basic_win (ActIntercept \<lparr>pi_pid = 77, pi_process_name = Some ''curl.exe''\<rparr>) (ex_wd_addr, ex_packet) =
     ToProxy (ex_packet[10 := 7]) \<lparr>pi_pid = 77, pi_process_name = Some ''curl.exe''\<rparr>"
    by (simp add: fix_checksums_def basic_win_def ex_wd_addr_def)
  ultimately show ?thesis
    using socket_event_flushes [OF basic_win_cache basic_win_works(1) ex_decision(1,2,3) _ ex_decision(4), of 9]
    by (fastforce simp: ex_held_content)
qed

text \<open>Packets the redirector never touches.\<close>

definition bypass :: "('p, 'c) win_env \<Rightarrow> 'p \<Rightarrow> bool" where
  "bypass W p \<longleftrightarrow> is_multicast (we_src_ip W p) \<or> is_multicast (we_dst_ip W p) \<or>
     (is_loopback (we_src_ip W p) \<and> is_loopback (we_dst_ip W p))"

lemma network_packet_bypass:
  assumes "we_parse W data = Some p" and "bypass W p"
  shows "network_packet_with pp get W now a data st = (inject W a (we_inner W p), st)"
  using assms by (simp add: network_packet_with_def bypass_def)

lemma network_packet_examined:
  assumes "we_parse W data = Some p" and "\<not> bypass W p"
    and "lru_get (we_cache W) now (we_connection_id W p) (wst_connections st) = (found, c)"
  shows "found = Some (Known act) \<Longrightarrow>
      network_packet_with pp get W now a data st = (pp W a p act, st\<lparr>wst_connections := c\<rparr>)"
    and "found = Some (Unknown ps) \<Longrightarrow> network_packet_with pp get W now a data st =
      (([], Inr ()), st\<lparr>wst_connections := lru_write (we_cache W) (we_connection_id W p) (Unknown (ps @ [(a, p)])) c\<rparr>)"
    and "found = None \<Longrightarrow> wd_outbound a \<Longrightarrow> network_packet_with pp get W now a data st =
      (([], Inr ()), st\<lparr>wst_connections := snd (lru_insert (we_cache W) now (we_connection_id W p) (Unknown [(a, p)]) c)\<rparr>)"
    and "found = None \<Longrightarrow> \<not> wd_outbound a \<Longrightarrow>
      act = inbound_action (wst_conf st) (get (we_dst W p) (we_protocol W p) (wst_listeners st)) \<Longrightarrow>
      insert_with pp W now (we_connection_id W p) act c = (r, c') \<Longrightarrow>
      network_packet_with pp get W now a data st = (run_bind r (\<lambda>u. pp W a p act), st\<lparr>wst_connections := c'\<rparr>)"
  using assms by (simp_all add: network_packet_with_def bypass_def) blast+

subsection \<open>A decision during a run\<close>

text \<open>The connections of \<open>D\<close> are decided in the cache \<open>c\<close>, and will be at time \<open>t\<close>.\<close>

definition decided :: "(nat \<Rightarrow> 'c \<Rightarrow> win_conn_id \<rightharpoonup> 'p win_conn_state) \<Rightarrow> nat \<Rightarrow> (win_conn_id \<rightharpoonup> connection_action) \<Rightarrow> 'c \<Rightarrow> bool" where
  "decided content t D c \<longleftrightarrow> (\<forall>k a. D k = Some a \<longrightarrow> content t c k = Some (Known a))"

lemma decidedD: "decided content t D c \<Longrightarrow> D k = Some a \<Longrightarrow> content t c k = Some (Known a)"
  by (simp add: decided_def)

lemma decided_get:
  assumes "lru_frame L ttl content" and "lru_get L now k c = (found, c')" and "decided content t D c" and "now \<le> t"
  shows "decided content t D c'" and "D k = Some a \<Longrightarrow> found = Some (Known a)"
proof -
  show "decided content t D c'"
    using assms(3) lru_frame.get_pair_keeps [OF assms(1,2) _ assms(4)] by (simp add: decided_def)
  assume "D k = Some a"
  then have "content now c k = Some (Known a)"
    using lru_laws.expiryD [OF lru_frame.axioms(1) [OF assms(1)] decidedD [OF assms(3)] assms(4)] by blast
  then show "found = Some (Known a)"
    using lru_laws.get_pair [OF lru_frame.axioms(1) [OF assms(1)] assms(2)] by simp
qed

lemma decided_change:
  assumes "lru_frame L ttl content" and "decided content t D c" and "now \<le> t" and "D k = None"
  shows "decided content t D (snd (lru_insert L now k v c))" and "decided content t D (lru_write L k v c)"
proof -
  have "k' \<noteq> k" if "D k' = Some a" for k' a using assms(4) that by auto
  then show "decided content t D (snd (lru_insert L now k v c))" and "decided content t D (lru_write L k v c)"
    using assms(2) lru_laws.insert_other [OF lru_frame.axioms(1) [OF assms(1)] assms(3)] lru_frame.write_other [OF assms(1)]
    by (simp_all add: decided_def)
qed

lemma decided_insert_with:
  assumes "lru_frame (we_cache W) ttl content" and "decided content t D c" and "now \<le> t"
    and "D k = None" and "D (we_reverse W k) = None" and "insert_with pp W now k action c = (r, c')"
  shows "decided content t D c'"
proof -
  obtain e1 c1 where 1: "lru_insert (we_cache W) now (we_reverse W k) (Known ActNone) c = (e1, c1)" by (metis surj_pair)
  obtain e2 c2 where 2: "lru_insert (we_cache W) now k (Known action) c1 = (e2, c2)" by (metis surj_pair)
  have "decided content t D c1" using decided_change(1) [OF assms(1-3,5), of "Known ActNone"] 1 by simp
  from decided_change(1) [OF assms(1) this assms(3,4), of "Known action"] 2 have "decided content t D c2" by simp
  moreover have "c' = c2" using assms(6) 1 2 by (simp add: insert_with_def)
  ultimately show ?thesis by simp
qed

text \<open>What one captured packet or one socket event can do to the cache.\<close>

inductive cache_effect :: "('p, 'c) win_env \<Rightarrow> nat \<Rightarrow> 'c \<Rightarrow> 'c \<Rightarrow> bool" for W now where
  Kept: "cache_effect W now c c"
| Got: "lru_get (we_cache W) now k c = (found, c') \<Longrightarrow> cache_effect W now c c'"
| Held: "lru_get (we_cache W) now k c = (Some (Unknown ps), c') \<Longrightarrow>
    cache_effect W now c (lru_write (we_cache W) k (Unknown qs) c')"
| New: "lru_get (we_cache W) now k c = (None, c') \<Longrightarrow>
    cache_effect W now c (snd (lru_insert (we_cache W) now k (Unknown qs) c'))"
| Decision: "lru_get (we_cache W) now k c = (found, c') \<Longrightarrow> \<forall>a. found \<noteq> Some (Known a) \<Longrightarrow>
    insert_with pp W now k action c' = (r, c'') \<Longrightarrow> cache_effect W now c c''"

lemma decided_effect:
  assumes "cache_effect W now c c'" and "lru_frame (we_cache W) ttl content" and "decided content t D c" and "now \<le> t"
    and "\<And>k. D k = None \<Longrightarrow> D (we_reverse W k) = None"
  shows "decided content t D c'"
  using assms(1)
proof cases
  case (Got k found)
  then show ?thesis using decided_get(1) [OF assms(2) _ assms(3,4)] by blast
next
  case (Held k ps c1 qs)
  note got = decided_get [OF assms(2) Held(2) assms(3,4)]
  then have "D k = None" by (cases "D k") auto
  then show ?thesis using decided_change(2) [OF assms(2) got(1) assms(4)] Held(1) by simp
next
  case (New k c1 qs)
  note got = decided_get [OF assms(2) New(2) assms(3,4)]
  then have "D k = None" by (cases "D k") auto
  then show ?thesis using decided_change(1) [OF assms(2) got(1) assms(4)] New(1) by simp
next
  case (Decision k found c1 pp action r)
  note got = decided_get [OF assms(2) Decision(1) assms(3,4)]
  have k: "D k = None" using got(2) Decision(2) by (metis not_None_eq)
  show ?thesis by (rule decided_insert_with [OF assms(2) got(1) assms(4) k assms(5) [OF k] Decision(3)])
qed (use assms(3) in simp)

lemma network_packet_effect:
  assumes "ipc_works W" and "win_network_packet W now a data st = (r, st')"
  shows "snd r = Inr () \<and> cache_effect W now (wst_connections st) (wst_connections st')"
proof (cases "we_parse W data")
  case None
  then show ?thesis using assms(2) by (auto simp: network_packet_follows network_packet_with_def intro: Kept)
next
  case (Some p)
  show ?thesis
  proof (cases "bypass W p")
    case True
    from network_packet_bypass [OF Some True, of process_packet listeners_get now a st] assms
    show ?thesis by (auto simp: network_packet_follows inject_out ipc_works_def intro: Kept)
  next
    case False
    obtain found c where g: "lru_get (we_cache W) now (we_connection_id W p) (wst_connections st) = (found, c)" by (metis surj_pair)
    note step = network_packet_examined [OF Some False g, where pp = process_packet and get = listeners_get and a = a, folded network_packet_follows]
    consider act where "found = Some (Known act)" | ps where "found = Some (Unknown ps)"
      | "found = None" "wd_outbound a" | "found = None" "\<not> wd_outbound a"
      by (metis option.exhaust win_conn_state.exhaust)
    then show ?thesis
    proof cases
      case 1
      then show ?thesis using step(1) [OF 1] assms(2) exe.one_out [OF assms(1), of a p act] Got [OF g] by auto
    next
      case 2
      then show ?thesis using step(2) [OF 2] assms(2) Held [of W now _ _ ps c] g by auto
    next
      case 3
      then show ?thesis using step(3) [OF 3] assms(2) New [of W now _ _ c] g by auto
    next
      case 4
      let ?act = "inbound_action (wst_conf st) (listeners_get (we_dst W p) (we_protocol W p) (wst_listeners st))"
      obtain r' c' where i: "insert_with process_packet W now (we_connection_id W p) ?act c = (r', c')" by (metis surj_pair)
      obtain outs where "r' = (outs, Inr ())" using exe.insert_succeeds [OF assms(1) i] by blast
      moreover obtain out where "process_packet W a p ?act = ([out], Inr ())"
        using exe.one_out [OF assms(1), of a p ?act] by blast
      ultimately show ?thesis using step(4) [OF 4 refl i] assms(2) Decision [OF g _ i] 4(1) by auto
    qed
  qed
qed

lemma socket_info_effect:
  assumes "ipc_works W" and "win_socket_info W now s st = (r, st')"
  shows "snd r = Inr () \<and> cache_effect W now (wst_connections st) (wst_connections st')"
proof -
  let ?proto = "the (we_proto_try_from W (ws_protocol s))"
  obtain found c where g: "lru_get (we_cache W) now (socket_conn_id ?proto s) (wst_connections st) = (found, c)" by (metis surj_pair)
  obtain r' c' where i: "insert_with process_packet W now (socket_conn_id ?proto s)
      (action_for (wst_conf st) (proc_info_of W (ws_process_id s))) c = (r', c')" by (metis surj_pair)
  obtain outs where "r' = (outs, Inr ())" using exe.insert_succeeds [OF assms(1) i] by blast
  note r' = this
  consider "wst_connections st' = wst_connections st" "r = ([], Inr ())"
    | "wst_connections st' = c" "r = ([], Inr ())"
    | "\<forall>a. found \<noteq> Some (Known a)" "wst_connections st' = c'" "r = r'"
    | ps where "found = Some (Unknown ps)" "wst_connections st' = lru_write (we_cache W) (socket_conn_id ?proto s) (Unknown []) c" "r = ([], Inr ())"
    using assms(2) g i
    by (auto simp: socket_info_follows socket_info_with_def socket_conn_id_def Let_def
        split: option.splits if_splits win_conn_state.splits)
  then show ?thesis
  proof cases
    case 1 then show ?thesis by (simp add: Kept)
  next
    case 2 then show ?thesis using Got [OF g] by simp
  next
    case 3 then show ?thesis using Decision [OF g _ i] r' by simp
  next
    case 4 then show ?thesis using Held [of W now _ _ ps c] g by simp
  qed
qed

text \<open>Events other than a new configuration.\<close>

fun keeps_conf :: "win_event \<Rightarrow> bool" where
  "keeps_conf (WinIpc (FromProxyConf conf)) \<longleftrightarrow> False"
| "keeps_conf _ \<longleftrightarrow> True"

lemma step_decided:
  assumes "ipc_works W" and "keeps_conf ev" and "lru_frame (we_cache W) ttl content"
    and "decided content t D (wst_connections st)" and "now \<le> t" and "\<And>k. D k = None \<Longrightarrow> D (we_reverse W k) = None"
  shows "\<exists>outs st'. win_step W now ev st = ((outs, Inr ()), st') \<and> decided content t D (wst_connections st')"
proof -
  obtain outs res st' where step: "win_step W now ev st = ((outs, res), st')" by (metis surj_pair)
  have "res = Inr () \<and> cache_effect W now (wst_connections st) (wst_connections st')"
  proof (cases ev)
    case (WinNetworkPacket a data)
    then show ?thesis using network_packet_effect [OF assms(1), of now a data st "(outs, res)" st'] step by simp
  next
    case (WinSocketInfo s)
    then show ?thesis using socket_info_effect [OF assms(1), of now s st "(outs, res)" st'] step by simp
  next
    case (WinIpc msg)
    then obtain packet where "ev = WinIpc (FromProxyPacket packet)" using assms(2) by (cases msg) simp_all
    then show ?thesis using assms(1) step
      by (auto simp: win_ipc_packet_def inject_out ipc_works_def split: option.splits intro: Kept)
  qed
  then show ?thesis using decided_effect [OF _ assms(3-6)] step by blast
qed

lemma run_decided:
  assumes "ipc_works W" and "lru_frame (we_cache W) ttl content" and "\<And>k. D k = None \<Longrightarrow> D (we_reverse W k) = None"
  shows "decided content t D (wst_connections st) \<Longrightarrow> \<forall>(now, ev)\<in>set evs. now \<le> t \<and> keeps_conf ev \<Longrightarrow>
     \<exists>outs st'. win_run W evs st = ((outs, Inr ()), st') \<and> decided content t D (wst_connections st')"
proof (induction evs arbitrary: st)
  case (Cons x evs)
  obtain now ev where x: "x = (now, ev)" by (cases x)
  from Cons.prems x have "keeps_conf ev" "now \<le> t" by auto
  from step_decided [OF assms(1) this(1) assms(2) Cons.prems(1) this(2) assms(3)]
  obtain outs st1 where 1: "win_step W now ev st = ((outs, Inr ()), st1)" "decided content t D (wst_connections st1)" by blast
  from Cons.IH [OF 1(2)] Cons.prems(2) 1(1) x show ?case by fastforce
qed simp

text \<open>
  C20. A decision holds for ten minutes, during any run: after the socket event that makes the
  redirector decide, whatever packets, socket events and packets of the proxy it handles in the
  following ten minutes (only a new configuration is excluded, because it makes all decisions anew), it
  handles them without an error, and a packet of the connection captured in that time is treated by
  the decision and one of the opposite direction is re-injected unchanged, exactly once each.  This is
  under the condition that WinDivert and the channel to the proxy accept what is sent.
\<close>

theorem decision_applies:
  assumes "\<forall>d. lru_frame (we_with_expiry W d) d (content d)" and "ipc_works W" and "\<forall>k. we_reverse W (we_reverse W k) = k"
    and "decisive W proto s" and "cid = socket_conn_id proto s" and "we_reverse W cid \<noteq> cid"
    and "\<forall>a. content connection_expiry now (wst_connections st) cid \<noteq> Some (Known a)"
    and "action = action_for (wst_conf st) (proc_info_of W (ws_process_id s))"
    and "now \<le> t" and "t \<le> now + 10 * 60 * 1000"
    and "\<forall>(t', ev)\<in>set evs. t' \<le> t \<and> keeps_conf ev"
    and "we_parse W data = Some p" and "\<not> bypass W p"
    and "(we_connection_id W p = cid \<and> act = action) \<or> (we_connection_id W p = we_reverse W cid \<and> act = ActNone)"
  shows "\<exists>outs st' out st''. win_run W ((now, WinSocketInfo s) # evs) st = ((outs, Inr ()), st') \<and>
     win_step W t (WinNetworkPacket a data) st' = (([out], Inr ()), st'') \<and> fate out = Some (fate_of W act (a, p))"
proof -
  let ?D = "[we_reverse W cid \<mapsto> ActNone, cid \<mapsto> action]"
  have frame: "lru_frame (we_cache W) connection_expiry (content connection_expiry)" using assms(1) by (simp add: we_cache_def)
  note laws = lru_frame.axioms(1) [OF this]
  obtain c where run: "win_step W now (WinSocketInfo s) st =
      (let (r, c') = insert_with process_packet W now cid action c in (r, st\<lparr>wst_connections := c'\<rparr>))"
    using socket_event_inserts [OF assms(4) laws, of now st process_packet listeners_insert listeners_remove] assms(5,7,8)
    by (auto simp: socket_info_follows)
  obtain r1 c1 where i: "insert_with process_packet W now cid action c = (r1, c1)" by (metis surj_pair)
  obtain outs1 where r1: "r1 = (outs1, Inr ())" using exe.insert_succeeds [OF assms(2) i] by blast
  have "t \<le> now + connection_expiry" using assms(10) by (simp add: connection_expiry_def)
  from insert_with_lives [OF laws i assms(6,9) this] assms(6)
  have d: "decided (content connection_expiry) t ?D c1" by (auto simp: decided_def split: if_splits)
  have closed: "?D k = None \<Longrightarrow> ?D (we_reverse W k) = None" for k
    using assms(3) by (metis fun_upd_apply option.distinct(1))
  obtain outs2 st' where run2: "win_run W evs (st\<lparr>wst_connections := c1\<rparr>) = ((outs2, Inr ()), st')"
    and d': "decided (content connection_expiry) t ?D (wst_connections st')"
    using run_decided [where D = ?D, OF assms(2) frame closed _ assms(11), of "st\<lparr>wst_connections := c1\<rparr>"] d by auto
  obtain found c'' where g: "lru_get (we_cache W) t (we_connection_id W p) (wst_connections st') = (found, c'')" by (metis surj_pair)
  have "?D (we_connection_id W p) = Some act" using assms(6,14) by auto
  from decided_get(2) [OF frame g d' order.refl this] have "found = Some (Known act)" .
  then have "win_step W t (WinNetworkPacket a data) st' = (process_packet W a p act, st'\<lparr>wst_connections := c''\<rparr>)"
    using network_packet_examined(1) [OF assms(12,13) g, where pp = process_packet and get = listeners_get]
    by (simp add: network_packet_follows)
  moreover have "win_run W ((now, WinSocketInfo s) # evs) st = ((outs1 @ outs2, Inr ()), st')"
    using run i r1 run2 by simp
  ultimately show ?thesis using exe.one_out [OF assms(2), of a p act] by fastforce
qed

theorem decision_applies_witness:
  "\<exists>outs st' out st''. win_run basic_win
       [(9, WinSocketInfo ex_socket), (10, WinNetworkPacket ex_wd_addr ex_packet), (20, WinSocketInfo ex_socket)] ex_held =
         ((outs, Inr ()), st') \<and>
     win_step basic_win 599999 (WinNetworkPacket ex_wd_addr ex_packet) st' = (([out], Inr ()), st'') \<and>
     fate out = Some (fate_of basic_win (ActIntercept \<lparr>pi_pid = 77, pi_process_name = Some ''curl.exe''\<rparr>) (ex_wd_addr, ex_packet))"
proof (rule decision_applies [OF _ basic_win_works(1) _ ex_decision(1,2,3) _ ex_decision(4)])
  show "\<forall>d. lru_frame (we_with_expiry basic_win d) d (timed_content d)"
    by (auto simp: basic_win_def intro: timed.lru_frame_axioms)
  show "\<forall>k. we_reverse basic_win (we_reverse basic_win k) = k" by (simp add: basic_win_def)
  show "we_parse basic_win ex_packet = Some ex_packet" by (rule ex_packet_parsed)
  show "\<not> bypass basic_win ex_packet" by (simp add: bypass_def ex_packet_parsed)
  show "we_connection_id basic_win ex_packet = ex_cid \<and>
      ActIntercept \<lparr>pi_pid = 77, pi_process_name = Some ''curl.exe''\<rparr> = ActIntercept \<lparr>pi_pid = 77, pi_process_name = Some ''curl.exe''\<rparr> \<or>
      we_connection_id basic_win ex_packet = we_reverse basic_win ex_cid \<and>
      ActIntercept \<lparr>pi_pid = 77, pi_process_name = Some ''curl.exe''\<rparr> = ActNone"
    by (simp add: ex_packet_parsed)
qed (simp_all add: ex_held_content connection_expiry_def)

subsection \<open>Where a captured packet goes\<close>

text \<open>
  C21. As long as WinDivert and the channel to the proxy accept what is sent, handling a captured
  packet that parses succeeds and neither loses nor duplicates a packet, be it this one or one that is
  held: it leaves at once and alone, re-injected with the address it was captured with or by the
  decision known for its connection, and the cache is as before; or nothing leaves and it is appended
  to the packets held for its connection, the other connections being as before; or, if it is inbound
  and its connection is new, what leaves is every packet held for the opposite direction, re-injected
  in order, and then the packet itself by the decision for the process that listens on its
  destination, and both directions are decided.
\<close>

theorem captured_packet_accounted:
  assumes "lru_laws (we_cache W) ttl content" and "ipc_works W" and "we_parse W data = Some p"
    and "cid = we_connection_id W p" and "we_reverse W cid \<noteq> cid"
    and "m = content now (wst_connections st)"
  shows "\<exists>outs st'. win_step W now (WinNetworkPacket a data) st = ((outs, Inr ()), st') \<and>
     wst_conf st' = wst_conf st \<and> wst_listeners st' = wst_listeners st \<and>
     (if bypass W p then fates outs = [Some (Reinjected a (we_inner W p))] \<and> content now (wst_connections st') = m
      else case m cid of
        Some (Known act) \<Rightarrow> fates outs = [Some (fate_of W act (a, p))] \<and> content now (wst_connections st') = m
      | Some (Unknown ps) \<Rightarrow> outs = [] \<and> content now (wst_connections st') = m(cid \<mapsto> Unknown (ps @ [(a, p)]))
      | None \<Rightarrow>
          if wd_outbound a then outs = [] \<and> content now (wst_connections st') = m(cid \<mapsto> Unknown [(a, p)])
          else
            let act = inbound_action (wst_conf st) (listeners_get (we_dst W p) (we_protocol W p) (wst_listeners st))
            in fates outs = map (\<lambda>x. Some (fate_of W ActNone x)) (held_packets (m (we_reverse W cid))) @
                 [Some (fate_of W act (a, p))] \<and>
               content now (wst_connections st') = m(we_reverse W cid \<mapsto> Known ActNone, cid \<mapsto> Known act))"
proof (cases "bypass W p")
  case True
  have "win_step W now (WinNetworkPacket a data) st = (inject W a (we_inner W p), st)"
    using network_packet_bypass [OF assms(3) True] by (simp add: network_packet_follows)
  then show ?thesis using True assms(2,6) by (simp add: ipc_works_def inject_out)
next
  case False
  obtain found c where g: "lru_get (we_cache W) now cid (wst_connections st) = (found, c)" by (metis surj_pair)
  from lru_laws.get_pair [OF assms(1) g]
  have found: "found = m cid" and c: "content now c = m" using assms(6) by auto
  note step = network_packet_examined [OF assms(3) False g [unfolded assms(4)], where pp = process_packet and get = listeners_get and a = a,
      folded network_packet_follows assms(4)]
  consider act where "found = Some (Known act)" | ps where "found = Some (Unknown ps)"
    | "found = None" "wd_outbound a" | "found = None" "\<not> wd_outbound a"
    by (metis option.exhaust win_conn_state.exhaust)
  then show ?thesis
  proof cases
    case 1
    have "m cid = Some (Known act)" using found 1 by simp
    then show ?thesis using step(1) [OF 1] exe.one_out [OF assms(2), of a p act] False c by auto
  next
    case 2
    have "m cid = Some (Unknown ps)" using found 2 by simp
    then show ?thesis
      using step(2) [OF 2] lru_laws.write_content [OF assms(1), of now c cid _ "Unknown (ps @ [(a, p)])"] False c by simp
  next
    case 3
    have "m cid = None" using found 3(1) by simp
    then show ?thesis using step(3) [OF 3] False c 3(2) by (simp add: lru_laws.insert_content [OF assms(1)])
  next
    case 4
    let ?act = "inbound_action (wst_conf st) (listeners_get (we_dst W p) (we_protocol W p) (wst_listeners st))"
    obtain r c' where i: "insert_with process_packet W now cid ?act c = (r, c')" by (metis surj_pair)
    obtain outs where outs: "r = (outs, Inr ())"
      "fates outs = map (\<lambda>x. Some (fate_of W ActNone x)) (held_packets (m (we_reverse W cid)))"
      "content now c' = m(we_reverse W cid \<mapsto> Known ActNone, cid \<mapsto> Known ?act)"
      using exe.insert_out [OF assms(2,1) i assms(5)] found 4(1) c by auto
    obtain out where out: "process_packet W a p ?act = ([out], Inr ())" "fate out = Some (fate_of W ?act (a, p))"
      using exe.one_out [OF assms(2), of a p ?act] by blast
    have "win_step W now (WinNetworkPacket a data) st = ((outs @ [out], Inr ()), st\<lparr>wst_connections := c'\<rparr>)"
      using step(4) [OF 4 refl i] outs(1) out(1) by simp
    moreover have "m cid = None" using found 4(1) by simp
    ultimately show ?thesis using outs(2,3) out(2) 4(2) False by (simp add: Let_def)
  qed
qed

theorem captured_packet_accounted_witness:
  "\<exists>st'. win_step basic_win 9 (WinNetworkPacket ex_wd_addr ex_packet) ex_held = (([], Inr ()), st') \<and>
     timed_content 600000 9 (wst_connections st') =
       (timed_content 600000 9 (wst_connections ex_held))
         (ex_cid \<mapsto> Unknown [(ex_wd_addr, ex_packet), (ex_wd_addr, ex_packet)])"
proof -
  have "\<not> bypass basic_win ex_packet" by (simp add: bypass_def ex_packet_parsed)
  then show ?thesis
    using captured_packet_accounted [OF basic_win_cache basic_win_works(1) ex_packet_parsed(1) ex_packet_parsed(2) [symmetric] ex_decision(3) refl,
        where now = 9 and st = ex_held and a = ex_wd_addr]
    by (auto simp: ex_held_content)
qed

subsection \<open>The implementations agree\<close>

lemma lib_listeners_eq:
  "lib_listeners_insert = listeners_insert" "lib_listeners_remove = listeners_remove"
  "lib_listeners_get = listeners_get" "lib_listeners_clear = listeners_clear"
  by (auto simp: fun_eq_iff lib_listeners_insert_def listeners_insert_def lib_listeners_remove_def
      listeners_remove_def unspecified_to_v4_def lib_listeners_get_def listeners_get_def domIff Let_def
      lib_listeners_clear_def listeners_clear_def)

lemma lib_process_packet_eq: "lib_process_packet = process_packet"
  by (simp add: fun_eq_iff lib_process_packet_def process_packet_def)

definition both_work :: "('p, 'c) win_env \<Rightarrow> bool" where
  "both_work W \<longleftrightarrow> ipc_works W \<and> callback_works W"

lemma process_same:
  assumes "both_work W"
  shows "fates (fst (process_packet W a p act)) = fates (fst (process_packet_with_callback W a p act))"
    and "snd (process_packet W a p act) = Inr ()" and "snd (process_packet_with_callback W a p act) = Inr ()"
  using exe.one_out [of W a p act] callback.one_out [of W a p act] assms by (auto simp: both_work_def)

lemma process_held_same:
  assumes "both_work W"
  shows "fates (fst (process_held process_packet W act ps)) = fates (fst (process_held process_packet_with_callback W act ps))"
    and "snd (process_held process_packet W act ps) = Inr ()"
    and "snd (process_held process_packet_with_callback W act ps) = Inr ()"
  using exe.held_out [of W act ps] callback.held_out [of W act ps] assms by (auto simp: both_work_def)

lemma run_bind_same:
  assumes "fates (fst r) = fates (fst r')" and "snd r = Inr ()" and "snd r' = Inr ()"
    and "fates (fst (f ())) = fates (fst (f' ()))" and "snd (f ()) = Inr ()" and "snd (f' ()) = Inr ()"
  shows "fates (fst (run_bind r f)) = fates (fst (run_bind r' f')) \<and>
     snd (run_bind r f) = Inr () \<and> snd (run_bind r' f') = Inr ()"
  using assms by (cases r; cases r'; cases "f ()"; cases "f' ()") auto

lemma insert_with_same:
  assumes "both_work W"
  shows "fates (fst (fst (insert_with process_packet W now cid act c))) =
      fates (fst (fst (insert_with process_packet_with_callback W now cid act c)))"
    and "snd (fst (insert_with process_packet W now cid act c)) = Inr ()"
    and "snd (fst (insert_with process_packet_with_callback W now cid act c)) = Inr ()"
    and "snd (insert_with process_packet W now cid act c) = snd (insert_with process_packet_with_callback W now cid act c)"
proof -
  have "fates (fst (run_bind (process_held process_packet W ActNone ps) (\<lambda>u. process_held process_packet W act qs))) =
      fates (fst (run_bind (process_held process_packet_with_callback W ActNone ps) (\<lambda>u. process_held process_packet_with_callback W act qs))) \<and>
    snd (run_bind (process_held process_packet W ActNone ps) (\<lambda>u. process_held process_packet W act qs)) = Inr () \<and>
    snd (run_bind (process_held process_packet_with_callback W ActNone ps) (\<lambda>u. process_held process_packet_with_callback W act qs)) = Inr ()"
    for ps qs
    by (rule run_bind_same) (simp_all only: process_held_same [OF assms])
  note * = conjunct1 [OF this] conjunct1 [OF conjunct2 [OF this]] conjunct2 [OF conjunct2 [OF this]]
  show "fates (fst (fst (insert_with process_packet W now cid act c))) =
      fates (fst (fst (insert_with process_packet_with_callback W now cid act c)))"
    and "snd (fst (insert_with process_packet W now cid act c)) = Inr ()"
    and "snd (fst (insert_with process_packet_with_callback W now cid act c)) = Inr ()"
    and "snd (insert_with process_packet W now cid act c) = snd (insert_with process_packet_with_callback W now cid act c)"
    by (simp_all add: insert_with_def case_prod_beta Let_def *)
qed

text \<open>Two results that the proxy and the network cannot tell apart; both are successful.\<close>

definition same_result :: "'c win_result \<Rightarrow> 'c win_result \<Rightarrow> bool" where
  "same_result x y \<longleftrightarrow> fates (fst (fst x)) = fates (fst (fst y)) \<and> snd (fst x) = Inr () \<and> snd (fst y) = Inr () \<and> snd x = snd y"

lemma network_packet_same:
  assumes "both_work W"
  shows "same_result (win_network_packet W now a data st) (handle_network_packet_with_callback W now a data st)"
proof -
  note same = insert_with_same [OF assms] process_same [OF assms]
  have bind: "fates (fst (run_bind (fst (insert_with process_packet W now cid act c)) (\<lambda>u. process_packet W a p act))) =
        fates (fst (run_bind (fst (insert_with process_packet_with_callback W now cid act c)) (\<lambda>u. process_packet_with_callback W a p act))) \<and>
      snd (run_bind (fst (insert_with process_packet W now cid act c)) (\<lambda>u. process_packet W a p act)) = Inr () \<and>
      snd (run_bind (fst (insert_with process_packet_with_callback W now cid act c)) (\<lambda>u. process_packet_with_callback W a p act)) = Inr ()"
    for cid act c p
    by (rule run_bind_same) (simp_all add: same)
  have "inject_works W" using assms by (simp add: both_work_def ipc_works_def)
  then show ?thesis
    using bind same
    by (auto simp: same_result_def network_packet_follows inject_out
        network_packet_with_def Let_def case_prod_beta lib_listeners_eq split: option.split win_conn_state.split)
qed

lemma socket_info_same:
  assumes "both_work W"
  shows "same_result (win_socket_info W now s st) (handle_socket_info_with_callback W now s st)"
  using insert_with_same [OF assms]
  by (auto simp: same_result_def socket_info_follows
      socket_info_with_def Let_def case_prod_beta lib_listeners_eq split: option.split)

lemma packet_injection_same: "win_ipc_packet W data = handle_packet_injection W data"
  by (simp add: win_ipc_packet_def handle_packet_injection_def injected_address_def split: option.split)

lemma preexisting_same:
  assumes "both_work W"
  shows "\<forall>e\<in>set es. we_proto_try_from W (en_protocol e) \<noteq> None \<Longrightarrow>
     \<exists>outs louts st'. win_preexisting W now es st = ((outs, Inr ()), st') \<and> lib_preexisting W now es st = (louts, st') \<and>
       fates outs = fates louts"
proof (induction es arbitrary: st)
  case (Cons e es)
  obtain proto where proto: "we_proto_try_from W (en_protocol e) = Some proto" using Cons.prems by auto
  show ?case
  proof (cases "is_unspecified (sock_ip (en_remote_addr e))")
    case True
    with Cons proto show ?thesis by (simp add: lib_listeners_eq)
  next
    case False
    let ?cid = "WinConnId proto (en_local_addr e) (en_remote_addr e)"
    let ?act = "action_for (wst_conf st) (proc_info_of W (en_pid e))"
    obtain outs louts c where i: "insert_with process_packet W now ?cid ?act (wst_connections st) = ((outs, Inr ()), c)"
      "insert_with process_packet_with_callback W now ?cid ?act (wst_connections st) = ((louts, Inr ()), c)"
      and f: "fates outs = fates louts"
      using insert_with_same [OF assms, of now ?cid ?act "wst_connections st"] by (metis prod.collapse)
    obtain outs' louts' st' where IH: "win_preexisting W now es (st\<lparr>wst_connections := c\<rparr>) = ((outs', Inr ()), st')"
      "lib_preexisting W now es (st\<lparr>wst_connections := c\<rparr>) = (louts', st')" "fates outs' = fates louts'"
      using Cons.IH [of "st\<lparr>wst_connections := c\<rparr>"] Cons.prems by auto
    show ?thesis using False proto i f IH by (simp add: insert_follows)
  qed
qed simp

text \<open>Events that say the same to both programs, and what the network and the proxy see of a run.\<close>

fun same_event :: "win_event \<Rightarrow> lib_event \<Rightarrow> bool" where
  "same_event (WinNetworkPacket a d) (LibNetworkPacket a' d') \<longleftrightarrow> a = a' \<and> d = d'"
| "same_event (WinSocketInfo s) (LibSocketInfo s') \<longleftrightarrow> s = s'"
| "same_event (WinIpc (FromProxyPacket packet)) (LibPacketToInject d) \<longleftrightarrow> ipc_packet_data packet = d"
| "same_event (WinIpc (FromProxyConf conf)) (LibInterceptConf c) \<longleftrightarrow> conf_try_from_ipc conf = Inr c"
| "same_event _ _ \<longleftrightarrow> False"

definition packet_fates :: "win_out list \<Rightarrow> packet_fate list" where
  "packet_fates outs = concat (map (\<lambda>f. case f of Some x \<Rightarrow> [x] | None \<Rightarrow> []) (fates outs))"

lemma packet_fates_append [simp]: "packet_fates (xs @ ys) = packet_fates xs @ packet_fates ys"
  by (simp add: packet_fates_def)

lemma packet_fates_cong: "fates xs = fates ys \<Longrightarrow> packet_fates xs = packet_fates ys"
  by (simp add: packet_fates_def)

lemma same_resultD:
  assumes "same_result x y"
  shows "\<exists>outs louts st'. x = ((outs, Inr ()), st') \<and> y = ((louts, Inr ()), st') \<and> packet_fates outs = packet_fates louts"
  using assms by (cases x; cases y) (auto simp: same_result_def intro: packet_fates_cong)

lemma step_same:
  assumes "both_work W" and "we_network_table W = Inr es" and "\<forall>e\<in>set es. we_proto_try_from W (en_protocol e) \<noteq> None"
    and "same_event ev lev"
  shows "\<exists>outs louts st'. win_step W now ev st = ((outs, Inr ()), st') \<and> lib_step W now lev st = (louts, st') \<and>
     packet_fates outs = packet_fates louts"
  using assms(4)
proof (cases "(ev, lev)" rule: same_event.cases)
  case (1 a d a' d')
  then show ?thesis using assms(4) same_resultD [OF network_packet_same [OF assms(1), of now a d st]] by auto
next
  case (2 s s')
  then show ?thesis using assms(4) same_resultD [OF socket_info_same [OF assms(1), of now s st]] by auto
next
  case (3 packet d)
  have "inject_works W" using assms(1) by (simp add: both_work_def ipc_works_def)
  with 3 assms(4) show ?thesis
    by (auto simp: handle_packet_injection_def inject_out packet_injection_same split: option.split)
next
  case (4 conf c)
  let ?st = "st\<lparr>wst_conf := c, wst_connections := lru_clear (we_cache W) (wst_connections st),
    wst_listeners := listeners_clear (wst_listeners st)\<rparr>"
  obtain outs louts st' where run: "win_preexisting W now es ?st = ((outs, Inr ()), st')"
    "lib_preexisting W now es ?st = (louts, st')" "packet_fates outs = packet_fates louts"
    using preexisting_same [OF assms(1,3), of now ?st] packet_fates_cong by blast
  have "packet_fates (if we_conf_callback W then [WConfCallback c] else []) = []" by (simp add: packet_fates_def)
  with 4 assms(2,4) run show ?thesis by (simp add: lib_cache_eq lib_listeners_eq)
qed simp_all

text \<open>
  C22. The three copies of the redirector implement one policy.  The class's handlers for a channel
  are the handlers of the stand-alone program.  And the two event loops agree: fed with the same
  sequence of packets, socket events, packets to inject and configurations at the same times, the
  stand-alone program and the class with a callback re-inject the same packets with the same addresses
  and hand the same packets with the same processes to the proxy, in the same order, and end in the
  same state, as long as sending works, the table of sockets can be read and all its protocols are known:
  on a failure of these the stand-alone program ends, while the class logs it and goes on.
\<close>

theorem redirectors_agree:
  assumes "both_work W" and "we_network_table W = Inr es" and "\<forall>e\<in>set es. we_proto_try_from W (en_protocol e) \<noteq> None"
    and "list_all2 (\<lambda>(now, ev) (now', lev). now = now' \<and> same_event ev lev) evs levs"
  shows "handle_network_packet W now a data st = win_network_packet W now a data st \<and>
     handle_socket_info W now s st = win_socket_info W now s st \<and>
     (\<exists>outs louts st'. win_run W evs st = ((outs, Inr ()), st') \<and> lib_run W levs st = (louts, st') \<and>
       packet_fates outs = packet_fates louts)"
proof (intro conjI)
  show "handle_network_packet W now a data st = win_network_packet W now a data st"
    "handle_socket_info W now s st = win_socket_info W now s st"
    by (simp_all add: network_packet_follows socket_info_follows lib_listeners_eq lib_process_packet_eq)
  show "\<exists>outs louts st'. win_run W evs st = ((outs, Inr ()), st') \<and> lib_run W levs st = (louts, st') \<and>
       packet_fates outs = packet_fates louts"
    using assms(4)
  proof (induction arbitrary: st rule: list_all2_induct)
    case (Cons x evs y levs)
    obtain now ev lev where xy: "x = (now, ev)" "y = (now, lev)" "same_event ev lev" using Cons.hyps(1) by auto
    obtain outs louts st1 where 1: "win_step W now ev st = ((outs, Inr ()), st1)" "lib_step W now lev st = (louts, st1)"
      "packet_fates outs = packet_fates louts" using step_same [OF assms(1-3) xy(3), of now st] by blast
    obtain outs' louts' st2 where 2: "win_run W evs st1 = ((outs', Inr ()), st2)" "lib_run W levs st1 = (louts', st2)"
      "packet_fates outs' = packet_fates louts'" using Cons.IH [of st1] by blast
    from 1 2 xy show ?case by simp
  qed (simp add: packet_fates_def)
qed

theorem redirectors_agree_witness:
  "\<exists>outs louts st'.
     win_run basic_win [(9, WinSocketInfo ex_socket), (10, WinNetworkPacket ex_wd_addr ex_packet)] ex_held = ((outs, Inr ()), st') \<and>
     lib_run basic_win [(9, LibSocketInfo ex_socket), (10, LibNetworkPacket ex_wd_addr ex_packet)] ex_held = (louts, st') \<and>
     packet_fates outs = packet_fates louts"
proof -
  have "we_network_table basic_win = Inr []" by (simp add: basic_win_def)
  from redirectors_agree [OF _ this, of "[(9, WinSocketInfo ex_socket), (10, WinNetworkPacket ex_wd_addr ex_packet)]"
      "[(9, LibSocketInfo ex_socket), (10, LibNetworkPacket ex_wd_addr ex_packet)]" 9 ex_wd_addr ex_packet ex_held ex_socket]
  show ?thesis by (simp add: both_work_def del: win_run.simps lib_run.simps)
qed

text \<open>
  A socket that listens on the unspecified address, IPv4 or IPv6, owns its port on every address
  of the machine: a lookup for any address with that port finds it, until the socket is closed.  Other
  ports and protocols are not affected.
\<close>

theorem listeners_dual_stack:
  assumes "is_unspecified (sock_ip l)" and "sock_port s = sock_port l"
    and "m (s, proto) = None \<or> s = unspecified_to_v4 l"
    and "sock_port s' \<noteq> sock_port l \<or> proto' \<noteq> proto"
  shows "listeners_get s proto (listeners_insert l proto info m) = Some info \<and>
    listeners_get s' proto' (listeners_insert l proto info m) = listeners_get s' proto' m \<and>
    listeners_get s proto (listeners_remove l proto (listeners_insert l proto info m)) = None"
proof -
  from assms(1) have u: "unspecified_to_v4 l = SockV4 0 (sock_port l)"
    by (cases l) (auto simp: unspecified_to_v4_def)
  have t: "set_ip (IpV4 0) s'' = SockV4 0 (sock_port s'')" for s''
    by (cases s'') auto
  note defs = lib_listeners_insert_def lib_listeners_get_def lib_listeners_remove_def u t domIff
  have "lib_listeners_get s proto (lib_listeners_insert l proto info m) = Some info"
    using assms(2,3) by (auto simp: defs)
  moreover have "lib_listeners_get s' proto' (lib_listeners_insert l proto info m) = lib_listeners_get s' proto' m"
    using assms(4) by (auto simp: defs)
  moreover have "lib_listeners_get s proto (lib_listeners_remove l proto (lib_listeners_insert l proto info m)) = None"
    using assms(2,3) by (auto simp: defs)
  ultimately show ?thesis by (simp add: lib_listeners_eq)
qed

theorem listeners_dual_stack_witness:
  "listeners_get (SockV4 0x0A000001 80) 6
     (listeners_insert (SockV6 0 80 0 0) 6 \<lparr>pi_pid = 4242, pi_process_name = None\<rparr> listeners_new) =
       Some \<lparr>pi_pid = 4242, pi_process_name = None\<rparr>"
  using listeners_dual_stack [of "SockV6 0 80 0 0" "SockV4 0x0A000001 80" listeners_new 6 "SockV4 0 81" 6]
  by (simp add: listeners_new_def)

end
