(* ===== verification/Network_Table.thy ===== *)
theory Network_Table
  imports Windows_Redirector
begin

text \<open>
  The table of the system's sockets on Windows (\<^verbatim>\<open>src/windows/network.rs\<close>), from which the redirector
  learns about connections and listeners older than itself.  \<^verbatim>\<open>GetExtendedTcpTable\<close> and
  \<^verbatim>\<open>GetExtendedUdpTable\<close> are parameters; the buffer they write to, the four tables and the byte order
  of addresses and ports are modelled.  The target is little-endian, as Windows is.
\<close>

subsection \<open>Rows\<close>

record tcp4_row =
  t4_local_addr :: u32
  t4_local_port :: u32
  t4_remote_addr :: u32
  t4_remote_port :: u32
  t4_owning_pid :: u32

record tcp6_row =
  t6_local_addr :: bytes
  t6_local_port :: u32
  t6_remote_addr :: bytes
  t6_remote_port :: u32
  t6_owning_pid :: u32

record udp4_row =
  u4_local_addr :: u32
  u4_local_port :: u32
  u4_owning_pid :: u32

record udp6_row =
  u6_local_addr :: bytes
  u6_local_port :: u32
  u6_owning_pid :: u32

text \<open>\<^verbatim>\<open>to_be\<close> on a little-endian target: the bytes in the other order.\<close>

definition to_be32 :: "u32 \<Rightarrow> u32" where
  "to_be32 w = be_word (rev (be_bytes 4 w))"

definition to_be16 :: "u16 \<Rightarrow> u16" where
  "to_be16 w = be_word (rev (be_bytes 2 w))"

definition tcp4_entry :: "tcp4_row \<Rightarrow> net_entry" where
  "tcp4_entry row =
     \<lparr>en_pid = t4_owning_pid row, en_protocol = 0x06,
      en_local_addr = sock_new (IpV4 (to_be32 (t4_local_addr row))) (to_be16 (ucast (t4_local_port row))),
      en_remote_addr = sock_new (IpV4 (to_be32 (t4_remote_addr row))) (to_be16 (ucast (t4_remote_port row)))\<rparr>"

definition tcp6_entry :: "tcp6_row \<Rightarrow> net_entry" where
  "tcp6_entry row =
     \<lparr>en_pid = t6_owning_pid row, en_protocol = 0x06,
      en_local_addr = sock_new (IpV6 (be_word (t6_local_addr row))) (to_be16 (ucast (t6_local_port row))),
      en_remote_addr = sock_new (IpV6 (be_word (t6_remote_addr row))) (to_be16 (ucast (t6_remote_port row)))\<rparr>"

definition udp4_entry :: "udp4_row \<Rightarrow> net_entry" where
  "udp4_entry row =
     \<lparr>en_pid = u4_owning_pid row, en_protocol = 0x11,
      en_local_addr = sock_new (IpV4 (to_be32 (u4_local_addr row))) (to_be16 (ucast (u4_local_port row))),
      en_remote_addr = sock_new (IpV4 0) 0\<rparr>"

definition udp6_entry :: "udp6_row \<Rightarrow> net_entry" where
  "udp6_entry row =
     \<lparr>en_pid = u6_owning_pid row, en_protocol = 0x11,
      en_local_addr = sock_new (IpV6 (be_word (u6_local_addr row))) (to_be16 (ucast (u6_local_port row))),
      en_remote_addr = sock_new (IpV6 0) 0\<rparr>"

subsection \<open>The buffer\<close>

text \<open>
  A call is told the size of the buffer; it answers with a status, the size it leaves in \<^verbatim>\<open>buf_size\<close>, and
  the rows it wrote.  The number of the call stands for the time.
\<close>

datatype table_status = NoError | InsufficientBuffer | OtherStatus

type_synonym 'r table_call = "nat \<Rightarrow> u32 \<Rightarrow> table_status \<times> u32 \<times> 'r list"

record table_api4 =
  ta_tcp4 :: "tcp4_row table_call"
  ta_tcp6 :: "tcp6_row table_call"
  ta_udp4 :: "udp4_row table_call"
  ta_udp6 :: "udp6_row table_call"

text \<open>
  The capacity of the (empty) vector, the variable \<^verbatim>\<open>buf_size\<close>, and for each call so far the size it was
  told and the capacity there was.
\<close>

record table_buf =
  tb_capacity :: nat
  tb_size :: u32
  tb_calls :: "(u32 \<times> nat) list"

text \<open>\<^verbatim>\<open>Vec::reserve\<close> on an empty vector of bytes: at least doubles when it has to grow.\<close>

definition vec_reserve :: "nat \<Rightarrow> nat \<Rightarrow> nat" where
  "vec_reserve capacity additional = (if capacity < additional then max (2 * capacity) additional else capacity)"

fun table_loop :: "nat \<Rightarrow> 'r table_call \<Rightarrow> string \<Rightarrow> table_buf \<Rightarrow> (table_buf \<times> 'r list res) option" where
  "table_loop 0 call err buf = None"
| "table_loop (Suc fuel) call err buf =
     (let (res, size', rows) = call (length (tb_calls buf)) (tb_size buf);
          buf = buf\<lparr>tb_size := size', tb_calls := tb_calls buf @ [(tb_size buf, tb_capacity buf)]\<rparr> in
      case res of
        InsufficientBuffer \<Rightarrow>
          table_loop fuel call err
            (buf\<lparr>tb_capacity := vec_reserve (tb_capacity buf) (tb_capacity buf + unat (tb_size buf))\<rparr>)
      | NoError \<Rightarrow> Some (buf, Inr rows)
      | OtherStatus \<Rightarrow> Some (buf, Inl (Failed err)))"

text \<open>One table after the other; an error ends the function.  \<open>None\<close> is a loop without an end.\<close>

definition table_then ::
  "(table_buf \<times> 'r list res) option \<Rightarrow> ('r \<Rightarrow> net_entry) \<Rightarrow>
     (table_buf \<Rightarrow> (table_buf \<times> net_entry list res) option) \<Rightarrow> (table_buf \<times> net_entry list res) option" where
  "table_then r entry rest =
     (case r of
        None \<Rightarrow> None
      | Some (buf, Inl e) \<Rightarrow> Some (buf, Inl e)
      | Some (buf, Inr rows) \<Rightarrow>
          (case rest buf of
             None \<Rightarrow> None
           | Some (buf', Inl e) \<Rightarrow> Some (buf', Inl e)
           | Some (buf', Inr entries) \<Rightarrow> Some (buf', Inr (map entry rows @ entries))))"

definition table_buf_new :: table_buf where
  "table_buf_new = \<lparr>tb_capacity = 16384, tb_size = 0, tb_calls = []\<rparr>"

definition network_table :: "table_api4 \<Rightarrow> nat \<Rightarrow> (table_buf \<times> net_entry list res) option" where
  "network_table api fuel =
     table_then (table_loop fuel (ta_tcp4 api) ''failed to get tcp table'' table_buf_new) tcp4_entry (\<lambda>buf.
     table_then (table_loop fuel (ta_tcp6 api) ''failed to get tcp6 table'' buf) tcp6_entry (\<lambda>buf.
     table_then (table_loop fuel (ta_udp4 api) ''failed to get udp table'' buf) udp4_entry (\<lambda>buf.
     table_then (table_loop fuel (ta_udp6 api) ''failed to get udp6 table'' buf) udp6_entry (\<lambda>buf.
     Some (buf, Inr [])))))"

section \<open>The table is complete\<close>

subsection \<open>Byte order\<close>

lemma push_or: "push_bit 8 w + ucast (b :: u8) = (push_bit 8 w OR ucast b :: 'a :: len word)"
  by (rule disjunctive_add) (auto simp: bit_simps dest: bit_imp_le_length)

lemma be_bytes_push:
  assumes "8 * Suc n \<le> LENGTH('a :: len)" and "be_bytes n (w :: 'a word) = bs" and "unat w < 2 ^ (8 * n)"
  shows "be_bytes (Suc n) (push_bit 8 w + ucast (b :: u8)) = bs @ [b]"
proof -
  have "ucast (push_bit 8 w OR ucast b :: 'a word) = b"
    using assms(1) by (intro bit_word_eqI) (auto simp: bit_simps)
  moreover have "drop_bit 8 (push_bit 8 w OR ucast b :: 'a word) = w"
  proof (rule bit_word_eqI)
    fix i assume i: "i < LENGTH('a)"
    have "\<not> bit w i" if "\<not> i + 8 < LENGTH('a)"
    proof -
      have "8 * n \<le> i" using that assms(1) by simp
      moreover have "w = take_bit (8 * n) w"
        using assms(3) by (simp add: unsigned_take_bit_eq take_bit_nat_eq_self word_unat_eq_iff)
      ultimately show ?thesis by (metis bit_take_bit_iff leD)
    qed
    then show "bit (drop_bit 8 (push_bit 8 w OR ucast b)) i = bit w i"
      using i by (auto simp: bit_simps add.commute dest: bit_imp_le_length)
  qed
  ultimately show ?thesis using assms(2) by (simp add: push_or)
qed


lemma be_word_bound: "8 * length bs \<le> LENGTH('a :: len) \<Longrightarrow> unat (be_word bs :: 'a word) < 2 ^ (8 * length bs)"
proof (induction bs rule: rev_induct)
  case Nil
  show ?case by (simp add: be_word_def)
next
  case (snoc b bs)
  let ?w = "be_word bs :: 'a word"
  have "unat ?w < 2 ^ (8 * length bs)" using snoc by simp
  then have small: "unat ?w * 2 ^ 8 + unat b < 2 ^ (8 * length bs) * 2 ^ 8"
  proof -
    have "unat b < 2 ^ 8" using unsigned_less [of b] by simp
    moreover have "Suc (unat ?w) * 2 ^ 8 \<le> 2 ^ (8 * length bs) * 2 ^ 8"
      using \<open>unat ?w < _\<close> by (intro mult_le_mono1) simp
    ultimately show ?thesis by simp
  qed
  have "be_word (bs @ [b]) = (word_of_nat (unat ?w * 2 ^ 8 + unat b) :: 'a word)"
    by (simp add: be_word_snoc push_bit_eq_mult mult.commute)
  then have "unat (be_word (bs @ [b]) :: 'a word) \<le> unat ?w * 2 ^ 8 + unat b"
    by (simp only: unat_of_nat take_bit_nat_def mod_less_eq_dividend)
  with small show ?case by (simp add: power_add)
qed

lemma be_bytes_be_word: "8 * length bs \<le> LENGTH('a :: len) \<Longrightarrow> be_bytes (length bs) (be_word bs :: 'a word) = bs"
proof (induction bs rule: rev_induct)
  case (snoc b bs)
  then have "be_bytes (Suc (length bs)) (push_bit 8 (be_word bs :: 'a word) + ucast b) = bs @ [b]"
    using be_word_bound [of bs, where 'a = 'a] by (intro be_bytes_push) simp_all
  then show ?case by (simp add: be_word_snoc)
qed simp

text \<open>The word a little-endian machine reads where the bytes of \<open>a\<close> are in network order.\<close>

definition read_le32 :: "bytes \<Rightarrow> u32" where
  "read_le32 bs = be_word (rev bs)"

lemma to_be32_network: "to_be32 (read_le32 (be_bytes 4 a)) = a"
  using be_bytes_be_word [of "rev (be_bytes 4 a)", where 'a = 32]
  by (simp add: to_be32_def read_le32_def)

lemma to_be16_network: "to_be16 (ucast (read_le32 (be_bytes 2 p @ [0, 0]))) = p"
proof -
  obtain h l where hl: "be_bytes 2 p = [h, l]" by (simp add: numeral_2_eq_2)
  have "(ucast (read_le32 [h, l, 0, 0]) :: u16) = be_word [l, h]"
    unfolding read_le32_def be_word_def foldl.simps rev.simps append.simps push_or
    by (rule bit_word_eqI) (auto simp: bit_simps)
  then have "to_be16 (ucast (read_le32 (be_bytes 2 p @ [0, 0]))) = be_word (rev (be_bytes 2 (be_word [l, h] :: u16)))"
    by (simp add: hl to_be16_def)
  also have "be_bytes 2 (be_word [l, h] :: u16) = [l, h]"
    using be_bytes_be_word [of "[l, h]", where 'a = 16] by (simp add: numeral_2_eq_2)
  also have "be_word (rev [l, h]) = p"
    using be_word_be_bytes_id [of 2 p] hl by simp
  finally show ?thesis .
qed


text \<open>The rows of connections and sockets, as the system stores them.\<close>

type_synonym tcp4_conn = "(u32 \<times> u16) \<times> (u32 \<times> u16) \<times> u32"
type_synonym tcp6_conn = "(128 word \<times> u16) \<times> (128 word \<times> u16) \<times> u32"

definition port_dword :: "u16 \<Rightarrow> u32" where
  "port_dword p = read_le32 (be_bytes 2 p @ [0, 0])"

definition tcp4_row_of :: "tcp4_conn \<Rightarrow> tcp4_row" where
  "tcp4_row_of = (\<lambda>((la, lp), (ra, rp), pid).
     \<lparr>t4_local_addr = read_le32 (be_bytes 4 la), t4_local_port = port_dword lp,
      t4_remote_addr = read_le32 (be_bytes 4 ra), t4_remote_port = port_dword rp, t4_owning_pid = pid\<rparr>)"

definition tcp6_row_of :: "tcp6_conn \<Rightarrow> tcp6_row" where
  "tcp6_row_of = (\<lambda>((la, lp), (ra, rp), pid).
     \<lparr>t6_local_addr = be_bytes 16 la, t6_local_port = port_dword lp,
      t6_remote_addr = be_bytes 16 ra, t6_remote_port = port_dword rp, t6_owning_pid = pid\<rparr>)"

definition udp4_row_of :: "(u32 \<times> u16) \<times> u32 \<Rightarrow> udp4_row" where
  "udp4_row_of = (\<lambda>((la, lp), pid).
     \<lparr>u4_local_addr = read_le32 (be_bytes 4 la), u4_local_port = port_dword lp, u4_owning_pid = pid\<rparr>)"

definition udp6_row_of :: "(128 word \<times> u16) \<times> u32 \<Rightarrow> udp6_row" where
  "udp6_row_of = (\<lambda>((la, lp), pid).
     \<lparr>u6_local_addr = be_bytes 16 la, u6_local_port = port_dword lp, u6_owning_pid = pid\<rparr>)"

lemma row_entries:
  "tcp4_entry (tcp4_row_of ((la, lp), (ra, rp), pid)) =
     \<lparr>en_pid = pid, en_protocol = 6, en_local_addr = SockV4 la lp, en_remote_addr = SockV4 ra rp\<rparr>"
  "tcp6_entry (tcp6_row_of ((la6, lp), (ra6, rp), pid)) =
     \<lparr>en_pid = pid, en_protocol = 6, en_local_addr = SockV6 la6 lp 0 0, en_remote_addr = SockV6 ra6 rp 0 0\<rparr>"
  "udp4_entry (udp4_row_of ((la, lp), pid)) =
     \<lparr>en_pid = pid, en_protocol = 17, en_local_addr = SockV4 la lp, en_remote_addr = SockV4 0 0\<rparr>"
  "udp6_entry (udp6_row_of ((la6, lp), pid)) =
     \<lparr>en_pid = pid, en_protocol = 17, en_local_addr = SockV6 la6 lp 0 0, en_remote_addr = SockV6 0 0 0 0\<rparr>"
  by (simp_all add: tcp4_entry_def tcp4_row_of_def tcp6_entry_def tcp6_row_of_def udp4_entry_def udp4_row_of_def
      udp6_entry_def udp6_row_of_def to_be32_network to_be16_network port_dword_def)

subsection \<open>The loops\<close>

text \<open>
  What the system promises: a call whose buffer is too small reports the size it needs; a call with enough
  space writes the rows and leaves no bigger size.
\<close>

locale table_source =
  fixes call :: "'r table_call"
    and need :: u32
    and rows :: "'r list"
  assumes too_small: "s < need \<Longrightarrow> \<exists>junk. call n s = (InsufficientBuffer, need, junk)"
    and enough: "need \<le> s \<Longrightarrow> \<exists>s'. s' \<le> s \<and> call n s = (NoError, s', rows)"

definition calls_fit :: "table_buf \<Rightarrow> bool" where
  "calls_fit buf \<longleftrightarrow> unat (tb_size buf) \<le> tb_capacity buf \<and> (\<forall>(s, c)\<in>set (tb_calls buf). unat s \<le> c)"

lemma vec_reserve_ge: "additional \<le> vec_reserve capacity additional" "capacity \<le> vec_reserve capacity additional"
  by (auto simp: vec_reserve_def)

context table_source
begin

lemma loop_enough:
  assumes "calls_fit buf" and "need \<le> tb_size buf"
  shows "\<exists>buf'. table_loop (Suc fuel) call err buf = Some (buf', Inr rows) \<and> calls_fit buf'"
proof -
  obtain s' where s': "s' \<le> tb_size buf" "call (length (tb_calls buf)) (tb_size buf) = (NoError, s', rows)"
    using enough [OF assms(2)] by blast
  then have "unat s' \<le> unat (tb_size buf)" by (simp add: word_le_nat_alt)
  with s' assms(1) show ?thesis by (auto simp: calls_fit_def Let_def)
qed

lemma loop_complete:
  assumes "calls_fit buf" and "2 \<le> fuel"
  shows "\<exists>buf'. table_loop fuel call err buf = Some (buf', Inr rows) \<and> calls_fit buf'"
proof -
  obtain n where fuel: "fuel = Suc (Suc n)" using assms(2) by (cases fuel; cases "fuel - 1") auto
  show ?thesis
  proof (cases "need \<le> tb_size buf")
    case True
    then show ?thesis using loop_enough [OF assms(1)] fuel by blast
  next
    case False
    then obtain junk where junk: "call (length (tb_calls buf)) (tb_size buf) = (InsufficientBuffer, need, junk)"
      using too_small [of "tb_size buf" "length (tb_calls buf)"] by (auto simp: not_le)
    let ?buf = "buf\<lparr>tb_size := need, tb_calls := tb_calls buf @ [(tb_size buf, tb_capacity buf)],
        tb_capacity := vec_reserve (tb_capacity buf) (tb_capacity buf + unat need)\<rparr>"
    have "calls_fit ?buf"
      using assms(1) vec_reserve_ge(1) [of "tb_capacity buf + unat need" "tb_capacity buf"]
      by (auto simp: calls_fit_def)
    then obtain buf' where "table_loop (Suc n) call err ?buf = Some (buf', Inr rows)" "calls_fit buf'"
      using loop_enough [of ?buf n err] by auto
    with junk fuel show ?thesis by (simp add: Let_def)
  qed
qed

end


lemma table_result:
  assumes "table_source (ta_tcp4 api) n1 (map tcp4_row_of tcp4)" and "table_source (ta_tcp6 api) n2 (map tcp6_row_of tcp6)"
    and "table_source (ta_udp4 api) n3 (map udp4_row_of udp4)" and "table_source (ta_udp6 api) n4 (map udp6_row_of udp6)"
    and "2 \<le> fuel"
  shows "\<exists>buf. network_table api fuel =
      Some (buf, Inr (map (tcp4_entry \<circ> tcp4_row_of) tcp4 @ map (tcp6_entry \<circ> tcp6_row_of) tcp6 @
        map (udp4_entry \<circ> udp4_row_of) udp4 @ map (udp6_entry \<circ> udp6_row_of) udp6)) \<and> calls_fit buf"
proof -
  have new: "calls_fit table_buf_new" by (simp add: calls_fit_def table_buf_new_def)
  obtain b1 where b1: "table_loop fuel (ta_tcp4 api) ''failed to get tcp table'' table_buf_new =
      Some (b1, Inr (map tcp4_row_of tcp4))" "calls_fit b1"
    using table_source.loop_complete [OF assms(1) new assms(5)] by blast
  obtain b2 where b2: "table_loop fuel (ta_tcp6 api) ''failed to get tcp6 table'' b1 =
      Some (b2, Inr (map tcp6_row_of tcp6))" "calls_fit b2"
    using table_source.loop_complete [OF assms(2) b1(2) assms(5)] by blast
  obtain b3 where b3: "table_loop fuel (ta_udp4 api) ''failed to get udp table'' b2 =
      Some (b3, Inr (map udp4_row_of udp4))" "calls_fit b3"
    using table_source.loop_complete [OF assms(3) b2(2) assms(5)] by blast
  obtain b4 where b4: "table_loop fuel (ta_udp6 api) ''failed to get udp6 table'' b3 =
      Some (b4, Inr (map udp6_row_of udp6))" "calls_fit b4"
    using table_source.loop_complete [OF assms(4) b3(2) assms(5)] by blast
  have "network_table api fuel =
      Some (b4, Inr (map (tcp4_entry \<circ> tcp4_row_of) tcp4 @ map (tcp6_entry \<circ> tcp6_row_of) tcp6 @
        map (udp4_entry \<circ> udp4_row_of) udp4 @ map (udp6_entry \<circ> udp6_row_of) udp6))"
    by (simp add: network_table_def table_then_def b1 b2 b3 b4)
  with b4(2) show ?thesis by blast
qed

text \<open>
  The table of sockets is complete and its reads stay inside the buffer.  When the system keeps its
  promise, two rounds of each loop are enough; the result has every TCP connection and every UDP socket of
  both IP versions, in order, with the addresses and ports as they are on the network; and no call was told
  a size beyond the capacity of the buffer.
\<close>

theorem network_table_complete:
  assumes "table_source (ta_tcp4 api) n1 (map tcp4_row_of tcp4)" and "table_source (ta_tcp6 api) n2 (map tcp6_row_of tcp6)"
    and "table_source (ta_udp4 api) n3 (map udp4_row_of udp4)" and "table_source (ta_udp6 api) n4 (map udp6_row_of udp6)"
    and "2 \<le> fuel"
  shows "\<exists>buf. network_table api fuel = Some (buf, Inr (
      map (\<lambda>((la, lp), (ra, rp), pid). \<lparr>en_pid = pid, en_protocol = 6, en_local_addr = SockV4 la lp, en_remote_addr = SockV4 ra rp\<rparr>) tcp4 @
      map (\<lambda>((la, lp), (ra, rp), pid). \<lparr>en_pid = pid, en_protocol = 6, en_local_addr = SockV6 la lp 0 0, en_remote_addr = SockV6 ra rp 0 0\<rparr>) tcp6 @
      map (\<lambda>((la, lp), pid). \<lparr>en_pid = pid, en_protocol = 17, en_local_addr = SockV4 la lp, en_remote_addr = SockV4 0 0\<rparr>) udp4 @
      map (\<lambda>((la, lp), pid). \<lparr>en_pid = pid, en_protocol = 17, en_local_addr = SockV6 la lp 0 0, en_remote_addr = SockV6 0 0 0 0\<rparr>) udp6)) \<and>
    (\<forall>(s, c)\<in>set (tb_calls buf). unat s \<le> c)"
  using table_result [OF assms] by (auto simp: calls_fit_def row_entries split: prod.splits)

text \<open>A system that holds these rows.\<close>

definition held_table :: "'r list \<Rightarrow> 'r table_call" where
  "held_table rows n s =
     (let need = 4 + 24 * of_nat (length rows) in if s < need then (InsufficientBuffer, need, []) else (NoError, need, rows))"

interpretation held: table_source "held_table rows" "4 + 24 * of_nat (length rows)" rows for rows
  by unfold_locales (auto simp: held_table_def Let_def)

definition held_tables :: "tcp4_conn list \<Rightarrow> tcp6_conn list \<Rightarrow> ((u32 \<times> u16) \<times> u32) list \<Rightarrow> ((128 word \<times> u16) \<times> u32) list \<Rightarrow> table_api4" where
  "held_tables tcp4 tcp6 udp4 udp6 =
     \<lparr>ta_tcp4 = held_table (map tcp4_row_of tcp4), ta_tcp6 = held_table (map tcp6_row_of tcp6),
      ta_udp4 = held_table (map udp4_row_of udp4), ta_udp6 = held_table (map udp6_row_of udp6)\<rparr>"

theorem network_table_complete_witness:
  "\<exists>buf. network_table (held_tables [((0x7F000001, 80), (0x7F000001, 5000), 42)] [] [((0, 53), 7)] []) 2 =
    Some (buf, Inr [\<lparr>en_pid = 42, en_protocol = 6, en_local_addr = SockV4 0x7F000001 80, en_remote_addr = SockV4 0x7F000001 5000\<rparr>,
      \<lparr>en_pid = 7, en_protocol = 17, en_local_addr = SockV4 0 53, en_remote_addr = SockV4 0 0\<rparr>])"
proof -
  let ?api = "held_tables [((0x7F000001, 80), (0x7F000001, 5000), 42)] [] [((0, 53), 7)] []"
  have "table_source (ta_tcp4 ?api) 28 (map tcp4_row_of [((0x7F000001, 80), (0x7F000001, 5000), 42)])"
    "table_source (ta_tcp6 ?api) 4 (map tcp6_row_of [])"
    "table_source (ta_udp4 ?api) 28 (map udp4_row_of [((0, 53), 7)])"
    "table_source (ta_udp6 ?api) 4 (map udp6_row_of [])"
    using held.table_source_axioms [of "map tcp4_row_of [((0x7F000001, 80), (0x7F000001, 5000), 42)]"]
      held.table_source_axioms [of "map tcp6_row_of []"] held.table_source_axioms [of "map udp4_row_of [((0, 53), 7)]"]
      held.table_source_axioms [of "map udp6_row_of []"]
    by (simp_all add: held_tables_def)
  from network_table_complete [OF this, of 2] show ?thesis by auto
qed

end
