(* ===== verification/Windows_State.thy ===== *)
theory Windows_State
  imports Network_Table
begin

text \<open>
  The states of the Windows redirector that its event loop reaches
  (\<^verbatim>\<open>mitmproxy-windows/redirector/src/main2.rs\<close>): they are well formed, and after a new configuration
  they know the sockets that the table of \<open>Network_Table\<close> lists.
\<close>

section \<open>Reachable states\<close>

inductive win_reachable :: "('p, 'c) win_env \<Rightarrow> 'c win_state \<Rightarrow> bool" for W where
  Start: "win_reachable W (win_start W)"
| Step: "win_reachable W st \<Longrightarrow> win_step W now ev st = (r, st') \<Longrightarrow> win_reachable W st'"

text \<open>
  A well-formed state: the configuration is one that parsing gives, and the listeners are filed under
  normalised addresses, never under the unspecified IPv6 address.
\<close>

definition listeners_wf :: "listeners \<Rightarrow> bool" where
  "listeners_wf m \<longleftrightarrow> (\<forall>s proto. m (s, proto) \<noteq> None \<longrightarrow> sock_ip s \<noteq> IpV6 0)"

definition win_state_wf :: "'c win_state \<Rightarrow> bool" where
  "win_state_wf st \<longleftrightarrow> wf_conf (wst_conf st) \<and> listeners_wf (wst_listeners st)"

lemma sock_ip_set_v4 [simp]: "sock_ip (set_ip (IpV4 a) s) = IpV4 a"
  by (cases s) simp_all

lemma listeners_wf_ops [simp]:
  "listeners_wf m \<Longrightarrow> listeners_wf (listeners_insert s proto info m)"
  "listeners_wf m \<Longrightarrow> listeners_wf (listeners_remove s proto m)"
  "listeners_wf (listeners_clear m)"
  "listeners_wf listeners_new"
  by (auto simp: listeners_wf_def listeners_insert_def listeners_remove_def listeners_clear_def listeners_new_def)

lemma network_packet_state:
  "win_network_packet W now address data st = (r, st') \<Longrightarrow>
     wst_conf st' = wst_conf st \<and> wst_listeners st' = wst_listeners st"
  unfolding network_packet_follows network_packet_with_def
  by (auto simp: Let_def split: option.splits if_splits prod.splits win_conn_state.splits)

lemma socket_info_state:
  "win_socket_info W now address st = (r, st') \<Longrightarrow>
     wst_conf st' = wst_conf st \<and> (listeners_wf (wst_listeners st) \<longrightarrow> listeners_wf (wst_listeners st'))"
  unfolding socket_info_follows socket_info_with_def
  by (auto simp: Let_def split: option.splits if_splits prod.splits win_conn_state.splits)

lemma preexisting_state:
  "win_preexisting W now es st = (r, st') \<Longrightarrow>
     wst_conf st' = wst_conf st \<and> (listeners_wf (wst_listeners st) \<longrightarrow> listeners_wf (wst_listeners st'))"
proof (induction es arbitrary: r st st')
  case (Cons e es)
  from Cons.prems show ?case
    by (fastforce simp: Let_def split: option.splits if_splits prod.splits sum.splits dest: Cons.IH)
qed simp

lemma preexisting_succeeds:
  assumes "ipc_works W"
  shows "\<forall>e\<in>set es. we_proto_try_from W (en_protocol e) \<noteq> None \<Longrightarrow>
     \<exists>outs st'. win_preexisting W now es st = ((outs, Inr ()), st') \<and> wst_conf st' = wst_conf st"
proof (induction es arbitrary: st)
  case (Cons e es)
  obtain proto where proto: "we_proto_try_from W (en_protocol e) = Some proto" using Cons.prems by auto
  let ?l = "st\<lparr>wst_listeners := listeners_insert (en_local_addr e) proto (proc_info_of W (en_pid e)) (wst_listeners st)\<rparr>"
  obtain r c where i: "insert_with process_packet W now (WinConnId proto (en_local_addr e) (en_remote_addr e))
      (action_for (wst_conf st) (proc_info_of W (en_pid e))) (wst_connections st) = (r, c)" by (metis surj_pair)
  obtain outs where "r = (outs, Inr ())" using exe.insert_succeeds [OF assms i] by blast
  with Cons.IH [of ?l] Cons.IH [of "st\<lparr>wst_connections := c\<rparr>"] Cons.prems proto i show ?case
    by (auto simp: insert_follows)
qed simp

lemma win_step_wf:
  assumes "win_state_wf st" and "win_step W now ev st = (r, st')"
  shows "win_state_wf st'"
proof (cases ev)
  case (WinNetworkPacket address data)
  with assms show ?thesis using network_packet_state [of W now address data st r st'] by (simp add: win_state_wf_def)
next
  case (WinSocketInfo address)
  with assms show ?thesis using socket_info_state [of W now address st r st'] by (simp add: win_state_wf_def)
next
  case (WinIpc msg)
  show ?thesis
  proof (cases msg)
    case (FromProxyPacket packet)
    with assms WinIpc show ?thesis by simp
  next
    case (FromProxyConf conf)
    show ?thesis
    proof (cases "conf_try_from_ipc conf")
      case (Inl e)
      with assms WinIpc FromProxyConf show ?thesis by simp
    next
      case (Inr c)
      then have c: "wf_conf c" unfolding conf_try_from_ipc_def by (rule conf_try_from_vec_wf)
      let ?st = "st\<lparr>wst_conf := c, wst_connections := lru_clear (we_cache W) (wst_connections st),
        wst_listeners := listeners_clear (wst_listeners st)\<rparr>"
      have wf: "win_state_wf ?st" using c by (simp add: win_state_wf_def)
      show ?thesis
      proof (cases "we_network_table W")
        case (Inl e)
        with assms WinIpc FromProxyConf Inr have "st' = ?st" by (auto simp: Let_def)
        with wf show ?thesis by blast
      next
        fix entries assume "we_network_table W = Inr entries"
        with assms WinIpc FromProxyConf Inr have "win_preexisting W now entries ?st = (r, st')"
          by (simp add: Let_def)
        from preexisting_state [OF this] wf show ?thesis by (simp add: win_state_wf_def)
      qed
    qed
  qed
qed

text \<open>
  C13. Every state the Windows redirector reaches is well formed, whatever packets, socket events and
  messages arrive and whatever the system answers: its configuration is one that parsing a specification
  gives, so its printed form reads back as itself, and every listener is filed under a normalised address.
\<close>

theorem reachable_state_wf:
  assumes "win_reachable W st"
  shows "conf_try_from_vec (conf_action_strings (wst_conf st)) = Inr (wst_conf st) \<and>
     (\<forall>s proto. wst_listeners st (s, proto) \<noteq> None \<longrightarrow> sock_ip s \<noteq> IpV6 0)"
proof -
  from assms have "win_state_wf st"
  proof induction
    case Start
    show ?case by (simp add: win_state_wf_def win_start_def conf_disabled_def wf_conf_def conf_new_def)
  next
    case (Step st now ev r st')
    then show ?case using win_step_wf by blast
  qed
  then show ?thesis by (auto simp: win_state_wf_def listeners_wf_def conf_vec_roundtrip)
qed

theorem reachable_state_wf_witness:
  "conf_try_from_vec (conf_action_strings (wst_conf (snd (win_step basic_win 3 (WinNetworkPacket ex_wd_addr ex_packet)
     (win_start basic_win))))) = Inr conf_disabled"
proof -
  let ?s = "win_step basic_win 3 (WinNetworkPacket ex_wd_addr ex_packet) (win_start basic_win)"
  have r: "win_reachable basic_win (snd ?s)"
    by (rule Step [OF Start surjective_pairing])
  have "wst_conf (snd ?s) = conf_disabled"
    using network_packet_state [of basic_win 3 ex_wd_addr ex_packet "win_start basic_win" "fst ?s" "snd ?s"]
    by (simp add: win_start_def)
  then show ?thesis using reachable_state_wf [OF r] by simp
qed

section \<open>The sockets that were open before\<close>

lemma dom_listeners_insert: "dom m \<subseteq> dom (listeners_insert s proto info m)"
  by (auto simp: listeners_insert_def)

lemma preexisting_mono:
  "win_preexisting W now es st = (r, st') \<Longrightarrow> dom (wst_listeners st) \<subseteq> dom (wst_listeners st')"
proof (induction es arbitrary: r st st')
  case (Cons e es)
  show ?case
  proof (cases "we_proto_try_from W (en_protocol e)")
    case None
    with Cons.prems show ?thesis by simp
  next
    case (Some proto)
    show ?thesis
    proof (cases "is_unspecified (sock_ip (en_remote_addr e))")
      case True
      let ?l = "listeners_insert (en_local_addr e) proto (proc_info_of W (en_pid e)) (wst_listeners st)"
      have "dom ?l \<subseteq> dom (wst_listeners st')"
        using Cons.prems Some True Cons.IH [of "st\<lparr>wst_listeners := ?l\<rparr>" r st'] by simp
      with dom_listeners_insert show ?thesis by (rule subset_trans)
    next
      case False
      with Cons.prems Some show ?thesis
        by (auto simp: Let_def dom_def subset_iff split: prod.splits sum.splits dest!: Cons.IH)
    qed
  qed
qed simp

lemma preexisting_listens:
  assumes "win_preexisting W now es st = ((out, Inr u), st')" and "e \<in> set es"
    and "is_unspecified (sock_ip (en_remote_addr e))" and "we_proto_try_from W (en_protocol e) = Some proto"
  shows "wst_listeners st' (unspecified_to_v4 (en_local_addr e), proto) \<noteq> None"
  using assms(1,2)
proof (induction es arbitrary: st out u)
  case (Cons x es)
  show ?case
  proof (cases "x = e")
    case True
    let ?st = "st\<lparr>wst_listeners := listeners_insert (en_local_addr e) proto (proc_info_of W (en_pid e)) (wst_listeners st)\<rparr>"
    have "win_preexisting W now es ?st = ((out, Inr u), st')"
      using Cons.prems(1) True assms(3,4) by simp
    moreover have "(unspecified_to_v4 (en_local_addr e), proto) \<in> dom (wst_listeners ?st)"
      by (simp add: listeners_insert_def unspecified_to_v4_def)
    ultimately show ?thesis using preexisting_mono by blast
  next
    case False
    then have "e \<in> set es" using Cons.prems(2) by simp
    then show ?thesis
      using Cons.prems(1) Cons.IH
      by (auto simp: Let_def split: option.splits if_splits prod.splits sum.splits)
  qed
qed simp

lemma listed_entries:
  assumes "table_source (ta_tcp4 api) n1 (map tcp4_row_of tcp4)" and "table_source (ta_tcp6 api) n2 (map tcp6_row_of tcp6)"
    and "table_source (ta_udp4 api) n3 (map udp4_row_of udp4)" and "table_source (ta_udp6 api) n4 (map udp6_row_of udp6)"
    and "2 \<le> fuel" and "network_table api fuel = Some (buf, table)"
  shows "\<exists>entries. table = Inr entries \<and>
     (\<forall>la lp ra rp pid. ((la, lp), (ra, rp), pid) \<in> set tcp4 \<longrightarrow>
      \<lparr>en_pid = pid, en_protocol = 6, en_local_addr = SockV4 la lp, en_remote_addr = SockV4 ra rp\<rparr> \<in> set entries) \<and>
     (\<forall>la lp ra rp pid. ((la, lp), (ra, rp), pid) \<in> set tcp6 \<longrightarrow>
      \<lparr>en_pid = pid, en_protocol = 6, en_local_addr = SockV6 la lp 0 0, en_remote_addr = SockV6 ra rp 0 0\<rparr> \<in> set entries) \<and>
     (\<forall>la lp pid. ((la, lp), pid) \<in> set udp4 \<longrightarrow>
      \<lparr>en_pid = pid, en_protocol = 17, en_local_addr = SockV4 la lp, en_remote_addr = SockV4 0 0\<rparr> \<in> set entries) \<and>
     (\<forall>la lp pid. ((la, lp), pid) \<in> set udp6 \<longrightarrow>
      \<lparr>en_pid = pid, en_protocol = 17, en_local_addr = SockV6 la lp 0 0, en_remote_addr = SockV6 0 0 0 0\<rparr> \<in> set entries)"
  using table_result [OF assms(1-5)] assms(6)
  by (auto simp: row_entries [symmetric] simp del: row_entries intro!: image_eqI)

lemma listeners_get_normalised:
  "m (unspecified_to_v4 s, proto) \<noteq> None \<Longrightarrow> listeners_get s proto m \<noteq> None"
  by (cases s) (auto simp: listeners_get_def unspecified_to_v4_def Let_def split: if_splits)


text \<open>
  C12. Sockets that are older than the configuration are known.  When the redirector takes in a
  configuration and reports no error, every listener that the system lists, for TCP a row without a remote
  address, for UDP every row, of both IP versions, is afterwards found under its address and port.
\<close>

theorem open_sockets_known:
  assumes "table_source (ta_tcp4 api) n1 (map tcp4_row_of tcp4)" and "table_source (ta_tcp6 api) n2 (map tcp6_row_of tcp6)"
    and "table_source (ta_udp4 api) n3 (map udp4_row_of udp4)" and "table_source (ta_udp6 api) n4 (map udp6_row_of udp6)"
    and "2 \<le> fuel" and "network_table api fuel = Some (buf, we_network_table W)"
    and "we_proto_try_from W 6 = Some 6" and "we_proto_try_from W 17 = Some 17"
    and "win_step W now (WinIpc (FromProxyConf conf)) st = ((out, Inr u), st')"
  shows "(\<forall>la lp rp pid. ((la, lp), (0, rp), pid) \<in> set tcp4 \<longrightarrow> listeners_get (SockV4 la lp) 6 (wst_listeners st') \<noteq> None) \<and>
     (\<forall>la lp rp pid. ((la, lp), (0, rp), pid) \<in> set tcp6 \<longrightarrow> listeners_get (SockV6 la lp 0 0) 6 (wst_listeners st') \<noteq> None) \<and>
     (\<forall>la lp pid. ((la, lp), pid) \<in> set udp4 \<longrightarrow> listeners_get (SockV4 la lp) 17 (wst_listeners st') \<noteq> None) \<and>
     (\<forall>la lp pid. ((la, lp), pid) \<in> set udp6 \<longrightarrow> listeners_get (SockV6 la lp 0 0) 17 (wst_listeners st') \<noteq> None)"
proof -
  obtain entries where entries: "we_network_table W = Inr entries"
    and tcp4: "\<And>la lp ra rp pid. ((la, lp), (ra, rp), pid) \<in> set tcp4 \<Longrightarrow>
      \<lparr>en_pid = pid, en_protocol = 6, en_local_addr = SockV4 la lp, en_remote_addr = SockV4 ra rp\<rparr> \<in> set entries"
    and tcp6: "\<And>la lp ra rp pid. ((la, lp), (ra, rp), pid) \<in> set tcp6 \<Longrightarrow>
      \<lparr>en_pid = pid, en_protocol = 6, en_local_addr = SockV6 la lp 0 0, en_remote_addr = SockV6 ra rp 0 0\<rparr> \<in> set entries"
    and udp4: "\<And>la lp pid. ((la, lp), pid) \<in> set udp4 \<Longrightarrow>
      \<lparr>en_pid = pid, en_protocol = 17, en_local_addr = SockV4 la lp, en_remote_addr = SockV4 0 0\<rparr> \<in> set entries"
    and udp6: "\<And>la lp pid. ((la, lp), pid) \<in> set udp6 \<Longrightarrow>
      \<lparr>en_pid = pid, en_protocol = 17, en_local_addr = SockV6 la lp 0 0, en_remote_addr = SockV6 0 0 0 0\<rparr> \<in> set entries"
    using listed_entries [OF assms(1-6)] by blast
  obtain c where "conf_try_from_ipc conf = Inr c"
    using assms(9) by (cases "conf_try_from_ipc conf") simp_all
  with assms(9) entries obtain st1 where run: "win_preexisting W now entries st1 = ((out, Inr u), st')"
    by (auto simp: Let_def)
  have known: "listeners_get (en_local_addr e) proto (wst_listeners st') \<noteq> None"
    if "e \<in> set entries" "is_unspecified (sock_ip (en_remote_addr e))" "we_proto_try_from W (en_protocol e) = Some proto"
    for e proto
    by (rule listeners_get_normalised, rule preexisting_listens [OF run that])
  show ?thesis
    using known [OF tcp4] known [OF tcp6] known [OF udp4] known [OF udp6] assms(7,8) by auto
qed


text \<open>A redirector on a system with one UDP socket.\<close>

definition dns_host :: table_api4 where
  "dns_host = held_tables [] [] [((0, 53), 7)] []"

definition dns_win :: "(bytes, (win_conn_id, bytes win_conn_state) timed) win_env" where
  "dns_win = basic_win\<lparr>we_network_table := Inr [\<lparr>en_pid = 7, en_protocol = 17, en_local_addr = SockV4 0 53, en_remote_addr = SockV4 0 0\<rparr>]\<rparr>"

lemma dns_host_sources:
  "table_source (ta_tcp4 dns_host) 4 (map tcp4_row_of [])"
  "table_source (ta_tcp6 dns_host) 4 (map tcp6_row_of [])"
  "table_source (ta_udp4 dns_host) 28 (map udp4_row_of [((0, 53), 7)])"
  "table_source (ta_udp6 dns_host) 4 (map udp6_row_of [])"
  using held.table_source_axioms [of "[] :: tcp4_row list"] held.table_source_axioms [of "[] :: tcp6_row list"]
    held.table_source_axioms [of "map udp4_row_of [((0, 53), 7)]"] held.table_source_axioms [of "[] :: udp6_row list"]
  by (simp_all add: dns_host_def held_tables_def)

theorem open_sockets_known_witness:
  "listeners_get (SockV4 0 53) 17
     (wst_listeners (snd (win_step dns_win 0 (WinIpc (FromProxyConf (IpcInterceptConf []))) (win_start dns_win)))) \<noteq> None"
proof -
  obtain buf where table: "network_table dns_host 2 = Some (buf, we_network_table dns_win)"
    using table_result [OF dns_host_sources, of 2] by (auto simp: dns_win_def row_entries)
  have proto: "we_proto_try_from dns_win 6 = Some 6" "we_proto_try_from dns_win 17 = Some 17"
    by (simp_all add: dns_win_def basic_win_def)
  let ?s = "win_step dns_win 0 (WinIpc (FromProxyConf (IpcInterceptConf []))) (win_start dns_win)"
  have "snd (fst ?s) = Inr ()"
    by (simp add: dns_win_def basic_win_def conf_try_from_ipc_def conf_try_from_vec_def)
  then have "?s = ((fst (fst ?s), Inr ()), snd ?s)" by (metis prod.collapse)
  from open_sockets_known [OF dns_host_sources _ table proto this] show ?thesis by auto
qed

end
