(* ===== verification/Wireguard.thy ===== *)
theory Wireguard
  imports Packet_Sources
begin

text \<open>
  \<^verbatim>\<open>src/packet_sources/wireguard.rs\<close>: the WireGuard server.  The tunnels are boringtun's: they
  are a parameter, a state \<open>'t\<close> with the operations in \<open>wg_env\<close>, and so are the keys \<open>'k\<close> and the
  parsed handshakes \<open>'h\<close>.  A peer is shared by three maps in the code
  (\<^verbatim>\<open>Arc<Mutex<WireGuardPeer>>\<close>); here the peers live in a store under their index, and the maps
  hold indices.
\<close>

subsection \<open>Data\<close>

definition WG_HEADER_SIZE :: nat where "WG_HEADER_SIZE = 80"

datatype 'h wg_packet =
    HandshakeInit 'h
  | HandshakeResponse u32
  | PacketCookieReply u32
  | PacketData u32

datatype tunn_result =
    TunnDone
  | TunnErr string
  | WriteToNetwork bytes
  | WriteToTunnelV4 bytes
  | WriteToTunnelV6 bytes

record 't wg_peer =
  wp_tunnel :: 't
  wp_endpoint :: "socket_addr option"

record ('t, 'k) wg_task =
  wg_store :: "u32 \<rightharpoonup> 't wg_peer"
  peers_by_idx :: "u32 \<rightharpoonup> u32"
  peers_by_key :: "'k \<rightharpoonup> u32"
  peers_by_ip :: "ip_addr \<rightharpoonup> u32"

text \<open>
  What the server calls: boringtun, the packet accessors, the socket, the channel to the network
  stack, and which peer the iteration over the hash map yields first.
\<close>

record ('t, 'h, 'k) wg_env =
  we_tunn_new :: "'k \<Rightarrow> u32 \<Rightarrow> 't"
  we_parse_incoming :: "bytes \<Rightarrow> 'h wg_packet option"
  we_parse_handshake :: "'h \<Rightarrow> 'k option"
  we_decapsulate :: "ip_addr option \<Rightarrow> bytes \<Rightarrow> 't \<Rightarrow> 't \<times> tunn_result"
  we_encapsulate :: "bytes \<Rightarrow> 't \<Rightarrow> 't \<times> tunn_result"
  we_wire :: smol_wire
  we_send_to :: "bytes \<Rightarrow> socket_addr \<Rightarrow> unit res"
  we_local_addr :: "socket_addr res"
  we_try_send :: "network_event \<Rightarrow> bool"
  we_first :: "(u32 \<rightharpoonup> u32) \<Rightarrow> u32 option"

datatype wg_output = WgSend bytes socket_addr | WgEvent network_event

subsection \<open>Building the server\<close>

text \<open>The loop over the configured keys; \<open>index\<close> is the number of peers so far.\<close>

fun wg_add_peers :: "('t, 'h, 'k) wg_env \<Rightarrow> u32 \<Rightarrow> 'k list \<Rightarrow> ('t, 'k) wg_task \<Rightarrow> ('t, 'k) wg_task" where
  "wg_add_peers E index [] task = task"
| "wg_add_peers E index (public_key # ks) task =
     wg_add_peers E (index + 1) ks
       (task\<lparr>wg_store := (wg_store task)(index \<mapsto> \<lparr>wp_tunnel = we_tunn_new E public_key index, wp_endpoint = None\<rparr>),
             peers_by_idx := (peers_by_idx task)(index \<mapsto> index),
             peers_by_key := (peers_by_key task)(public_key \<mapsto> index)\<rparr>)"

definition wg_build :: "('t, 'h, 'k) wg_env \<Rightarrow> 'k list \<Rightarrow> ('t, 'k) wg_task" where
  "wg_build E peer_public_keys =
     wg_add_peers E 0 peer_public_keys
       \<lparr>wg_store = Map.empty, peers_by_idx = Map.empty, peers_by_key = Map.empty, peers_by_ip = Map.empty\<rparr>"

subsection \<open>Datagrams from peers\<close>

definition find_peer_for_datagram :: "('t, 'h, 'k) wg_env \<Rightarrow> bytes \<Rightarrow> ('t, 'k) wg_task \<Rightarrow> u32 option" where
  "find_peer_for_datagram E data task =
     (case we_parse_incoming E data of
        None \<Rightarrow> None
      | Some (HandshakeInit p) \<Rightarrow>
          (case we_parse_handshake E p of
             None \<Rightarrow> None
           | Some peer_public_key \<Rightarrow> peers_by_key task peer_public_key)
      | Some (HandshakeResponse receiver_idx) \<Rightarrow> peers_by_idx task (drop_bit 8 receiver_idx)
      | Some (PacketCookieReply receiver_idx) \<Rightarrow> peers_by_idx task (drop_bit 8 receiver_idx)
      | Some (PacketData receiver_idx) \<Rightarrow> peers_by_idx task (drop_bit 8 receiver_idx))"

text \<open>
  The loop \<^verbatim>\<open>while let WriteToNetwork(b) = result\<close>, which sends what the tunnel has queued; it
  ends when the tunnel has nothing more to send, so it is partial.
\<close>

partial_function (option) wg_flush ::
  "('t, 'h, 'k) wg_env \<Rightarrow> socket_addr \<Rightarrow> 't \<Rightarrow> tunn_result \<Rightarrow> (wg_output list \<times> ('t \<times> tunn_result) res) option" where
  "wg_flush E sender_addr t result =
     (case result of
        WriteToNetwork b \<Rightarrow>
          (case we_send_to E b sender_addr of
             Inl e \<Rightarrow> Some ([], Inl e)
           | Inr u \<Rightarrow>
               Option.bind (wg_flush E sender_addr (fst (we_decapsulate E None [] t)) (snd (we_decapsulate E None [] t)))
                 (\<lambda>r. Some (WgSend b sender_addr # fst r, snd r)))
      | _ \<Rightarrow> Some ([], Inr (t, result)))"

lemma wg_flush_done [simp]:
  "wg_flush E a t TunnDone = Some ([], Inr (t, TunnDone))"
  "wg_flush E a t (TunnErr e) = Some ([], Inr (t, TunnErr e))"
  "wg_flush E a t (WriteToTunnelV4 b) = Some ([], Inr (t, WriteToTunnelV4 b))"
  "wg_flush E a t (WriteToTunnelV6 b) = Some ([], Inr (t, WriteToTunnelV6 b))"
  by (subst wg_flush.simps; simp)+

text \<open>The two arms for a decrypted packet: \<open>src\<close> is its source address, \<open>packet\<close> the packet.\<close>

definition wg_deliver ::
  "('t, 'h, 'k) wg_env \<Rightarrow> socket_addr \<Rightarrow> u32 \<Rightarrow> ip_addr \<Rightarrow> smol_packet \<Rightarrow> ('t, 'k) wg_task \<Rightarrow> wg_output list \<times> ('t, 'k) wg_task res" where
  "wg_deliver E sender_addr peer src packet task =
     (let task = task\<lparr>peers_by_ip := (peers_by_ip task)(src \<mapsto> peer)\<rparr> in
      case we_local_addr E of
        Inl e \<Rightarrow> ([], Inl e)
      | Inr local_addr \<Rightarrow>
          let event = ReceivePacket packet (WireGuard sender_addr local_addr)
          in if we_try_send E event then ([WgEvent event], Inr task) else ([], Inr task))"

definition wg_handle_result ::
  "('t, 'h, 'k) wg_env \<Rightarrow> socket_addr \<Rightarrow> u32 \<Rightarrow> tunn_result \<Rightarrow> ('t, 'k) wg_task \<Rightarrow> wg_output list \<times> ('t, 'k) wg_task res" where
  "wg_handle_result E sender_addr peer result task =
     (case result of
        TunnDone \<Rightarrow> ([], Inr task)
      | TunnErr error \<Rightarrow> ([], Inr task)
      | WriteToTunnelV4 buf \<Rightarrow>
          if v4_new_checked (we_wire E) buf
          then wg_deliver E sender_addr peer (IpV4 (v4_src_addr (we_wire E) buf)) (V4 buf) task
          else ([], Inr task)
      | WriteToTunnelV6 buf \<Rightarrow>
          if v6_new_checked (we_wire E) buf
          then wg_deliver E sender_addr peer (IpV6 (v6_src_addr (we_wire E) buf)) (V6 buf) task
          else ([], Inr task)
      | WriteToNetwork b \<Rightarrow> ([], Inl (Panicked ''internal error: entered unreachable code'')))"

definition process_incoming_datagram ::
  "('t, 'h, 'k) wg_env \<Rightarrow> bytes \<Rightarrow> socket_addr \<Rightarrow> ('t, 'k) wg_task \<Rightarrow> (wg_output list \<times> ('t, 'k) wg_task res) option" where
  "process_incoming_datagram E data sender_addr task =
     (case find_peer_for_datagram E data task of
        None \<Rightarrow> Some ([], Inr task)
      | Some peer \<Rightarrow>
          (case wg_store task peer of
             None \<Rightarrow> Some ([], Inl (Panicked ''dangling reference''))
           | Some p \<Rightarrow>
               let (t, result) = we_decapsulate E (Some (sock_ip sender_addr)) data (wp_tunnel p)
               in Option.bind (wg_flush E sender_addr t result) (\<lambda>r. Some
                    (run_bind r (\<lambda>(t, result).
                       wg_handle_result E sender_addr peer result
                         (task\<lparr>wg_store := (wg_store task)(peer \<mapsto> \<lparr>wp_tunnel = t, wp_endpoint = Some sender_addr\<rparr>)\<rparr>))))))"

subsection \<open>Packets to peers\<close>

text \<open>
  \<^verbatim>\<open>Tunn.encapsulate\<close> panics when the packet and its header do not fit the buffer it writes to, here
  one of \<^verbatim>\<open>MAX_PACKET_SIZE\<close> bytes.
\<close>

definition encapsulate_panic :: fault where
  "encapsulate_panic = Panicked ''The destination buffer is too small''"

definition process_outgoing_packet ::
  "('t, 'h, 'k) wg_env \<Rightarrow> smol_packet \<Rightarrow> ('t, 'k) wg_task \<Rightarrow> wg_output list \<times> ('t, 'k) wg_task res" where
  "process_outgoing_packet E packet task =
     (case (case peers_by_ip task (dst_ip (we_wire E) packet) of
              Some peer \<Rightarrow> Some peer
            | None \<Rightarrow> we_first E (peers_by_idx task)) of
        None \<Rightarrow> ([], Inl (Panicked ''called `Option::unwrap()` on a `None` value''))
      | Some peer \<Rightarrow>
          let packet_bytes = into_inner packet in
          if length packet_bytes > MAX_PACKET_SIZE - WG_HEADER_SIZE then ([], Inr task)
          else
            (case wg_store task peer of
               None \<Rightarrow> ([], Inl (Panicked ''dangling reference''))
             | Some p \<Rightarrow>
                 if MAX_PACKET_SIZE < length packet_bytes + WG_HEADER_SIZE then ([], Inl encapsulate_panic) else
                 let (t, result) = we_encapsulate E packet_bytes (wp_tunnel p);
                     task = task\<lparr>wg_store := (wg_store task)(peer \<mapsto> p\<lparr>wp_tunnel := t\<rparr>)\<rparr>
                 in (case result of
                       WriteToNetwork buf \<Rightarrow>
                         (case wp_endpoint p of
                            None \<Rightarrow> ([], Inl (Panicked ''called `Option::unwrap()` on a `None` value''))
                          | Some dst_addr \<Rightarrow>
                              (case we_send_to E buf dst_addr of
                                 Inl e \<Rightarrow> ([], Inl e)
                               | Inr u \<Rightarrow> ([WgSend buf dst_addr], Inr task)))
                     | _ \<Rightarrow> ([], Inr task))))"

subsection \<open>The task\<close>

datatype wg_input =
    WgNetworkExit "unit res"
  | WgRecv "int option + bytes \<times> socket_addr"
  | WgCommand network_command

text \<open>
  One round of the loop: outputs, and the state unless the loop is left (\<open>None\<close>).
\<close>

fun wg_step :: "bool \<Rightarrow> ('t, 'h, 'k) wg_env \<Rightarrow> wg_input \<Rightarrow> ('t, 'k) wg_task \<Rightarrow> (wg_output list \<times> ('t, 'k) wg_task option res) option" where
  "wg_step windows E (WgNetworkExit r) task = Some ([], case r of Inl e \<Rightarrow> Inl e | Inr u \<Rightarrow> Inr None)"
| "wg_step windows E (WgRecv r) task =
     (if remote_host_closed_conn windows r then Some ([], Inr (Some task))
      else case r of
        Inl e \<Rightarrow> Some ([], Inl (Failed ''UDP recv() failed''))
      | Inr (data, src_orig) \<Rightarrow>
          Option.bind (process_incoming_datagram E data src_orig task) (\<lambda>r. Some (run_bind r (\<lambda>task. ([], Inr (Some task))))))"
| "wg_step windows E (WgCommand (SendPacket packet)) task =
     Some (run_bind (process_outgoing_packet E packet task) (\<lambda>task. ([], Inr (Some task))))"

text \<open>After the loop the packets still queued by the network stack are sent.\<close>

fun wg_drain :: "('t, 'h, 'k) wg_env \<Rightarrow> network_command list \<Rightarrow> ('t, 'k) wg_task \<Rightarrow> wg_output list \<times> ('t, 'k) wg_task res" where
  "wg_drain E [] task = ([], Inr task)"
| "wg_drain E (SendPacket packet # cs) task = run_bind (process_outgoing_packet E packet task) (wg_drain E cs)"

definition wg_run_check :: "('t, 'k) wg_task \<Rightarrow> unit res" where
  "wg_run_check task =
     (if peers_by_idx task = Map.empty then Inl (Failed ''No WireGuard peers were configured.'') else Inr ())"

subsection \<open>The invariant\<close>

text \<open>References lead to peers, and a peer that is known by an address has been heard from.\<close>

definition wg_inv :: "('t, 'k) wg_task \<Rightarrow> bool" where
  "wg_inv task \<longleftrightarrow>
     ran (peers_by_idx task) \<subseteq> dom (wg_store task) \<and> ran (peers_by_key task) \<subseteq> dom (wg_store task) \<and>
     (\<forall>ip peer. peers_by_ip task ip = Some peer \<longrightarrow> (\<exists>p a. wg_store task peer = Some p \<and> wp_endpoint p = Some a))"

lemma ran_upd_subset: "ran m \<subseteq> S \<Longrightarrow> ran (m(k \<mapsto> v)) \<subseteq> insert v S"
  by (auto simp: ran_def)

lemma wg_inv_add_peers: "wg_inv task \<Longrightarrow> peers_by_ip task = Map.empty \<Longrightarrow> wg_inv (wg_add_peers E index ks task)"
proof (induction E index ks task rule: wg_add_peers.induct)
  case (2 E index k ks task)
  let ?task = "task\<lparr>wg_store := (wg_store task)(index \<mapsto> \<lparr>wp_tunnel = we_tunn_new E k index, wp_endpoint = None\<rparr>),
      peers_by_idx := (peers_by_idx task)(index \<mapsto> index), peers_by_key := (peers_by_key task)(k \<mapsto> index)\<rparr>"
  have "wg_inv ?task" using "2.prems" by (auto simp: wg_inv_def dest: ran_upd_subset)
  then have "wg_inv (wg_add_peers E (index + 1) ks ?task)" by (rule "2.IH") (simp add: "2.prems")
  then show ?case by simp
qed simp

lemma wg_inv_build: "wg_inv (wg_build E ks)"
  unfolding wg_build_def by (rule wg_inv_add_peers) (simp_all add: wg_inv_def)

lemma find_peer_known: "wg_inv task \<Longrightarrow> find_peer_for_datagram E data task = Some peer \<Longrightarrow> \<exists>p. wg_store task peer = Some p"
  by (fastforce simp: wg_inv_def find_peer_for_datagram_def ran_def dom_def split: option.splits wg_packet.splits)

lemma wg_inv_heard:
  assumes "wg_inv task" and "wg_store task peer = Some p"
  shows "wg_inv (task\<lparr>wg_store := (wg_store task)(peer \<mapsto> \<lparr>wp_tunnel = t, wp_endpoint = Some a\<rparr>)\<rparr>)"
  using assms by (auto simp: wg_inv_def)

lemma wg_inv_tunnel:
  "wg_inv task \<Longrightarrow> wg_store task peer = Some p \<Longrightarrow> wg_inv (task\<lparr>wg_store := (wg_store task)(peer \<mapsto> p\<lparr>wp_tunnel := t\<rparr>)\<rparr>)"
  by (fastforce simp: wg_inv_def)

lemma wg_handle_result_inv:
  assumes "wg_inv task" and "wg_store task peer = Some p" and "wp_endpoint p = Some a"
    and "wg_handle_result E addr peer result task = (os, Inr task')"
  shows "wg_inv task'"
  using assms by (auto simp: wg_handle_result_def wg_deliver_def wg_inv_def Let_def split: tunn_result.splits sum.splits if_splits)

subsection \<open>The contract of a tunnel\<close>

text \<open>
  boringtun documents that after \<^verbatim>\<open>WriteToNetwork\<close> the caller is to call
  \<^verbatim>\<open>decapsulate\<close> with an empty datagram until it returns something else: every such call takes
  one packet from a finite queue, of length \<open>backlog\<close>.  The operating system reports errors, it does
  not panic.
\<close>

locale tunn_laws =
  fixes E :: "('t, 'h, 'k) wg_env" and backlog :: "'t \<Rightarrow> nat"
  assumes flushes: "we_decapsulate E None [] t = (t', WriteToNetwork b) \<Longrightarrow> backlog t' < backlog t"
    and send_reports: "we_send_to E b a = Inl e \<Longrightarrow> \<exists>m. e = Failed m"
    and addr_reports: "we_local_addr E = Inl e \<Longrightarrow> \<exists>m. e = Failed m"
begin

lemma flush_returns:
  "\<exists>os r. wg_flush E a t result = Some (os, r) \<and> (\<forall>out\<in>set os. \<exists>b. out = WgSend b a) \<and>
     (\<forall>t' result'. r = Inr (t', result') \<longrightarrow> (\<forall>b. result' \<noteq> WriteToNetwork b)) \<and> (\<forall>e. r = Inl e \<longrightarrow> (\<exists>m. e = Failed m))"
proof (induction t arbitrary: result rule: measure_induct_rule [where f = backlog])
  case (less t)
  show ?case
  proof (cases "\<exists>b. result = WriteToNetwork b")
    case False
    then show ?thesis by (cases result) auto
  next
    case True
    then obtain b where b: "result = WriteToNetwork b" by blast
    obtain t' result' where d: "we_decapsulate E None [] t = (t', result')" by (metis surj_pair)
    have "\<exists>os r. wg_flush E a t' result' = Some (os, r) \<and> (\<forall>out\<in>set os. \<exists>b. out = WgSend b a) \<and>
     (\<forall>t' result'. r = Inr (t', result') \<longrightarrow> (\<forall>b. result' \<noteq> WriteToNetwork b)) \<and> (\<forall>e. r = Inl e \<longrightarrow> (\<exists>m. e = Failed m))"
    proof (cases "\<exists>b'. result' = WriteToNetwork b'")
      case True
      then show ?thesis using less.IH [of t'] flushes d by blast
    next
      case False
      then show ?thesis by (cases result') auto
    qed
    then show ?thesis
      by (subst wg_flush.simps) (use b d send_reports in \<open>fastforce split: sum.splits\<close>)
  qed
qed

lemma handle_result_reports:
  assumes "\<forall>b. result \<noteq> WriteToNetwork b" and "wg_handle_result E addr peer result task = (os, Inl e)"
  shows "\<exists>m. e = Failed m"
  using assms addr_reports
  by (auto simp: wg_handle_result_def wg_deliver_def Let_def split: tunn_result.splits sum.splits if_splits)

lemma incoming_total:
  assumes "wg_inv task"
  shows "\<exists>os r. process_incoming_datagram E data addr task = Some (os, r) \<and>
     (\<forall>task'. r = Inr task' \<longrightarrow> wg_inv task') \<and> (\<forall>e. r = Inl e \<longrightarrow> (\<exists>m. e = Failed m))"
proof (cases "find_peer_for_datagram E data task")
  case None
  then show ?thesis using assms by (simp add: process_incoming_datagram_def)
next
  case (Some peer)
  from find_peer_known [OF assms Some] obtain p where p: "wg_store task peer = Some p" by blast
  obtain t result where d: "we_decapsulate E (Some (sock_ip addr)) data (wp_tunnel p) = (t, result)" by (metis surj_pair)
  obtain os r where f: "wg_flush E addr t result = Some (os, r)"
    and fin: "\<forall>t' result'. r = Inr (t', result') \<longrightarrow> (\<forall>b. result' \<noteq> WriteToNetwork b)"
    and err: "\<forall>e. r = Inl e \<longrightarrow> (\<exists>m. e = Failed m)" using flush_returns by blast
  show ?thesis
  proof (cases r)
    case (Inl e)
    then show ?thesis using Some p d f err by (simp add: process_incoming_datagram_def)
  next
    case (Inr x)
    then obtain t' result' where x: "r = Inr (t', result')" by (cases x) auto
    let ?task = "task\<lparr>wg_store := (wg_store task)(peer \<mapsto> \<lparr>wp_tunnel = t', wp_endpoint = Some addr\<rparr>)\<rparr>"
    obtain os' r' where h: "wg_handle_result E addr peer result' ?task = (os', r')" by (metis surj_pair)
    have "process_incoming_datagram E data addr task = Some (os @ os', r')"
      using Some p d f x h by (simp add: process_incoming_datagram_def)
    moreover have "wg_inv task'" if "r' = Inr task'" for task'
      by (rule wg_handle_result_inv [OF wg_inv_heard [OF assms p] _ _ h [unfolded that], where a = addr and p = "\<lparr>wp_tunnel = t', wp_endpoint = Some addr\<rparr>"]) simp_all
    ultimately show ?thesis using handle_result_reports fin x h by blast
  qed
qed

lemma outgoing_known:
  assumes "wg_inv task" and "peers_by_ip task (dst_ip (we_wire E) packet) = Some peer"
    and "process_outgoing_packet E packet task = (os, Inl e)"
  shows "\<exists>m. e = Failed m"
proof -
  obtain p a where "wg_store task peer = Some p" "wp_endpoint p = Some a"
    using assms(1,2) unfolding wg_inv_def by blast
  then show ?thesis
    using assms(2,3) send_reports
    by (auto simp: process_outgoing_packet_def MAX_PACKET_SIZE_def WG_HEADER_SIZE_def Let_def
        split: tunn_result.splits sum.splits if_splits prod.splits)
qed

end

lemma outgoing_inv:
  assumes "wg_inv task" and "process_outgoing_packet E packet task = (os, Inr task')"
  shows "wg_inv task'"
  using assms wg_inv_tunnel [OF assms(1)]
  by (auto simp: process_outgoing_packet_def Let_def
      split: option.splits tunn_result.splits sum.splits if_splits prod.splits)

lemma recv_step:
  assumes "tunn_laws E backlog" and "wg_inv task"
  shows "\<exists>os r. wg_step windows E (WgRecv x) task = Some (os, r) \<and>
     (\<forall>task'. r = Inr (Some task') \<longrightarrow> wg_inv task') \<and> (\<forall>m. r \<noteq> Inl (Panicked m))"
proof (cases "remote_host_closed_conn windows x")
  case False
  show ?thesis
  proof (cases x)
    case (Inr y)
    obtain d a where y: "y = (d, a)" by (cases y)
    obtain os r where i: "process_incoming_datagram E d a task = Some (os, r)"
      and r: "\<And>task'. r = Inr task' \<Longrightarrow> wg_inv task'" "\<And>e. r = Inl e \<Longrightarrow> \<exists>m. e = Failed m"
      using tunn_laws.incoming_total [OF assms] by blast
    show ?thesis using i r False Inr y by (cases r) auto
  qed (use False in simp)
qed (use assms in simp)

definition silent :: "('t, 'k) wg_task \<Rightarrow> bool" where
  "silent task \<longleftrightarrow> peers_by_ip task = Map.empty \<and> (\<forall>p\<in>ran (wg_store task). wp_endpoint p = None)"

lemma wg_add_peers_silent: "silent task \<Longrightarrow> silent (wg_add_peers E index ks task)"
proof (induction E index ks task rule: wg_add_peers.induct)
  case (2 E index k ks task)
  from "2.prems" show ?case
    unfolding wg_add_peers.simps by (intro "2.IH") (auto simp: silent_def ran_def)
qed simp

lemma wg_build_silent:
  "wg_store (wg_build E keys) i = Some p \<Longrightarrow> wp_endpoint p = None" "peers_by_ip (wg_build E keys) = Map.empty"
proof -
  have "silent (wg_build E keys)"
    unfolding wg_build_def by (rule wg_add_peers_silent) (simp add: silent_def)
  then show "peers_by_ip (wg_build E keys) = Map.empty"
    and "wg_store (wg_build E keys) i = Some p \<Longrightarrow> wp_endpoint p = None"
    by (auto simp: silent_def ran_def)
qed

subsection \<open>A tunnel to evaluate the server with\<close>

text \<open>
  The tunnel is its queue of packets to transmit; a datagram carries an IP packet behind four bytes,
  and encryption prefixes a byte.
\<close>

definition queue_env :: "(bytes list, nat, nat) wg_env" where
  "queue_env =
     \<lparr>we_tunn_new = (\<lambda>k i. []),
      we_parse_incoming = (\<lambda>d. case d of [] \<Rightarrow> None | b # r \<Rightarrow> Some (PacketData (push_bit 8 (ucast b)))),
      we_parse_handshake = (\<lambda>h. None),
      we_decapsulate = (\<lambda>src d t. if d = [] then (case t of [] \<Rightarrow> ([], TunnDone) | b # q \<Rightarrow> (q, WriteToNetwork b))
                                  else (t, WriteToTunnelV4 (drop 4 d))),
      we_encapsulate = (\<lambda>d t. (t, WriteToNetwork (7 # d))),
      we_wire = basic_wire,
      we_send_to = (\<lambda>b a. Inr ()),
      we_local_addr = Inr (SockV4 1 51820),
      we_try_send = (\<lambda>e. True),
      we_first = (\<lambda>m. m 0)\<rparr>"

interpretation queue_tunnel: tunn_laws queue_env length
  by unfold_locales (auto simp: queue_env_def split: list.splits)

definition ex_datagram :: bytes where
  "ex_datagram = [0,0,0,0, 0x45,0,0,20, 0,0,0,0, 64,17,0,0, 10,0,0,1, 8,8,8,8]"

definition ex_answer :: bytes where
  "ex_answer = [0x45,0,0,20, 0,0,0,0, 64,17,0,0, 8,8,8,8, 10,0,0,1]"

lemma queue_env_simps [simp]:
  "we_tunn_new queue_env k i = []"
  "we_parse_incoming queue_env (b # r) = Some (PacketData (push_bit 8 (ucast b)))"
  "we_decapsulate queue_env src (b # r) t = (t, WriteToTunnelV4 (drop 4 (b # r)))"
  "we_encapsulate queue_env d t = (t, WriteToNetwork (7 # d))"
  "we_wire queue_env = basic_wire" "we_send_to queue_env d a = Inr ()"
  "we_local_addr queue_env = Inr (SockV4 1 51820)" "we_try_send queue_env e" "we_first queue_env m = m 0"
  by (simp_all add: queue_env_def)

lemma ex_incoming:
  "\<exists>task'. process_incoming_datagram queue_env ex_datagram (SockV4 9 999) (wg_build queue_env [5]) =
     Some ([WgEvent (ReceivePacket (V4 (drop 4 ex_datagram)) (WireGuard (SockV4 9 999) (SockV4 1 51820)))], Inr task')"
proof -
  have d: "ex_datagram = 0 # tl ex_datagram" by (simp add: ex_datagram_def)
  have "find_peer_for_datagram queue_env ex_datagram (wg_build queue_env [5]) = Some 0"
    by (subst d) (simp add: find_peer_for_datagram_def wg_build_def)
  moreover have "wg_store (wg_build queue_env [5]) 0 = Some \<lparr>wp_tunnel = [], wp_endpoint = None\<rparr>" by (simp add: wg_build_def)
  moreover have "we_decapsulate queue_env src ex_datagram t = (t, WriteToTunnelV4 (drop 4 ex_datagram))" for src t
    using queue_env_simps(3) [of src 0 "tl ex_datagram" t] d by metis
  moreover have "v4_new_checked basic_wire (drop 4 ex_datagram)" by (simp add: basic_wire_def ex_datagram_def)
  ultimately show ?thesis
    by (simp add: process_incoming_datagram_def wg_handle_result_def wg_deliver_def)
qed

text \<open>The states of the server between rounds.\<close>

inductive wg_reach :: "bool \<Rightarrow> ('t, 'h, 'k) wg_env \<Rightarrow> ('t, 'k) wg_task \<Rightarrow> bool" for windows E where
  wg_start: "wg_reach windows E (wg_build E keys)"
| wg_next: "wg_reach windows E task \<Longrightarrow> wg_step windows E inp task = Some (os, Inr (Some task')) \<Longrightarrow> wg_reach windows E task'"

lemma wg_reach_inv:
  assumes "tunn_laws E backlog" and "wg_reach windows E task"
  shows "wg_inv task"
  using assms(2)
proof induction
  case (wg_next task inp os task')
  show ?case
  proof (cases inp)
    case (WgRecv r)
    then show ?thesis using wg_next recv_step [OF assms(1) wg_next.IH, of windows r] by auto
  next
    case (WgCommand c)
    then show ?thesis using wg_next outgoing_inv by (cases c) (fastforce simp: run_bind_eq_Inr)
  qed (use wg_next in \<open>auto split: sum.splits\<close>)
qed (rule wg_inv_build)

lemma run_bind_Inl: "run_bind m (\<lambda>x. ([], Inr (f x))) = (os, Inl e) \<longleftrightarrow> m = (os, Inl e)"
  by (cases m; cases "snd m") auto

text \<open>
  C23. The WireGuard server always finishes a round: draining a tunnel's queue ends, and nothing
  panics, except that a packet for an address no peer has used yet may (it falls back to some peer,
  which need not have an endpoint), or that the network task itself has panicked.
\<close>

theorem wg_step_total:
  assumes "tunn_laws E backlog" and "wg_reach windows E task"
  shows "\<exists>os r. wg_step windows E inp task = Some (os, r) \<and>
     (\<forall>m. r = Inl (Panicked m) \<longrightarrow> inp = WgNetworkExit (Inl (Panicked m)) \<or>
        (\<exists>packet. inp = WgCommand (SendPacket packet) \<and> peers_by_ip task (dst_ip (we_wire E) packet) = None))"
proof (cases inp)
  case (WgRecv r)
  then show ?thesis using recv_step [OF assms(1) wg_reach_inv [OF assms], of windows r] by auto
next
  case (WgCommand c)
  obtain packet where c: "c = SendPacket packet" by (cases c)
  obtain os r where o: "process_outgoing_packet E packet task = (os, r)" by (metis surj_pair)
  show ?thesis
  proof (cases r)
    case (Inl e)
    then show ?thesis
      using tunn_laws.outgoing_known [OF assms(1) wg_reach_inv [OF assms], of packet _ os e] o WgCommand c
      by (cases "peers_by_ip task (dst_ip (we_wire E) packet)") auto
  qed (use o WgCommand c in simp)
qed (auto split: sum.splits)

theorem wg_step_total_witness:
  "\<exists>os r. wg_step False queue_env (WgRecv (Inr (ex_datagram, SockV4 9 999))) (wg_build queue_env [5]) = Some (os, r) \<and>
     (\<forall>m. r \<noteq> Inl (Panicked m))"
  using wg_step_total [OF queue_tunnel.tunn_laws_axioms wg_start [where keys = "[5]"], of False "WgRecv (Inr (ex_datagram, SockV4 9 999))"]
  by auto

text \<open>What a delivered packet leaves behind.\<close>

lemma deliver_known:
  assumes "wg_handle_result E addr peer result task = (os, Inr task')" and "WgEvent (ReceivePacket packet ti) \<in> set os"
  shows "peers_by_ip task' (src_ip (we_wire E) packet) = Some peer \<and> wg_store task' = wg_store task \<and>
     (\<exists>l. we_local_addr E = Inr l \<and> ti = WireGuard addr l)"
  using assms by (auto simp: wg_handle_result_def wg_deliver_def Let_def split: tunn_result.splits sum.splits if_splits)

lemma flush_no_event:
  assumes "tunn_laws E backlog" and "wg_flush E a t result = Some (os, r)"
  shows "WgEvent e \<notin> set os"
  using tunn_laws.flush_returns [OF assms(1), of a t result] assms(2) by auto

text \<open>
  C24. Answers go back to where the client is: when a datagram from \<open>addr\<close> delivers a packet to the
  network stack, the packet is labelled with \<open>addr\<close>, and a packet sent to its source address
  afterwards is encrypted with the same peer's tunnel and sent to \<open>addr\<close> and nowhere else.
\<close>

theorem wg_answers_sender:
  assumes "tunn_laws E backlog" and "process_incoming_datagram E data addr task = Some (os, Inr task')"
    and "WgEvent (ReceivePacket packet ti) \<in> set os"
    and "dst_ip (we_wire E) answer = src_ip (we_wire E) packet"
    and "length (into_inner answer) \<le> MAX_PACKET_SIZE - WG_HEADER_SIZE" and "we_send_to E buf addr = Inr ()"
  shows "(\<exists>l. we_local_addr E = Inr l \<and> ti = WireGuard addr l) \<and>
    (\<exists>peer p. find_peer_for_datagram E data task = Some peer \<and> wg_store task' peer = Some p \<and>
      (\<forall>t. we_encapsulate E (into_inner answer) (wp_tunnel p) = (t, WriteToNetwork buf) \<longrightarrow>
         (\<exists>task''. process_outgoing_packet E answer task' = ([WgSend buf addr], Inr task''))))"
proof -
  obtain peer where peer: "find_peer_for_datagram E data task = Some peer"
    using assms(2,3) by (auto simp: process_incoming_datagram_def split: option.splits)
  obtain p where p: "wg_store task peer = Some p"
    using assms(2) peer by (auto simp: process_incoming_datagram_def split: option.splits)
  obtain t result where d: "we_decapsulate E (Some (sock_ip addr)) data (wp_tunnel p) = (t, result)" by (metis surj_pair)
  obtain os1 r where f: "wg_flush E addr t result = Some (os1, r)"
    using tunn_laws.flush_returns [OF assms(1)] by blast
  obtain t' result' where r: "r = Inr (t', result')"
    using assms(2) peer p d f by (cases r) (auto simp: process_incoming_datagram_def)
  let ?task = "task\<lparr>wg_store := (wg_store task)(peer \<mapsto> \<lparr>wp_tunnel = t', wp_endpoint = Some addr\<rparr>)\<rparr>"
  obtain os2 where h: "wg_handle_result E addr peer result' ?task = (os2, Inr task')" and os: "os = os1 @ os2"
    using assms(2) peer p d f r by (auto simp: process_incoming_datagram_def prod_eq_iff)
  have "WgEvent (ReceivePacket packet ti) \<in> set os2"
    using assms(3) os flush_no_event [OF assms(1) f] by auto
  from deliver_known [OF h this] assms(4)
  have k: "peers_by_ip task' (dst_ip (we_wire E) answer) = Some peer"
    "wg_store task' peer = Some \<lparr>wp_tunnel = t', wp_endpoint = Some addr\<rparr>"
    "\<exists>l. we_local_addr E = Inr l \<and> ti = WireGuard addr l" by auto
  then have "\<exists>task''. process_outgoing_packet E answer task' = ([WgSend buf addr], Inr task'')"
    if "we_encapsulate E (into_inner answer) t' = (t'', WriteToNetwork buf)" for t''
    using that assms(5,6) by (simp add: process_outgoing_packet_def MAX_PACKET_SIZE_def WG_HEADER_SIZE_def)
  then show ?thesis using peer k by auto
qed

theorem wg_answers_sender_witness:
  "\<exists>os task'. process_incoming_datagram queue_env ex_datagram (SockV4 9 999) (wg_build queue_env [5]) = Some (os, Inr task') \<and>
     (\<exists>task''. process_outgoing_packet queue_env (V4 ex_answer) task' = ([WgSend (7 # ex_answer) (SockV4 9 999)], Inr task''))"
proof -
  obtain task' where run: "process_incoming_datagram queue_env ex_datagram (SockV4 9 999) (wg_build queue_env [5]) =
     Some ([WgEvent (ReceivePacket (V4 (drop 4 ex_datagram)) (WireGuard (SockV4 9 999) (SockV4 1 51820)))], Inr task')"
    using ex_incoming by blast
  have "dst_ip basic_wire (V4 ex_answer) = src_ip basic_wire (V4 (drop 4 ex_datagram))"
    by (simp add: basic_wire_def ex_answer_def ex_datagram_def be_word_def)
  then have "\<exists>peer p. wg_store task' peer = Some p \<and>
      (\<forall>t. we_encapsulate queue_env ex_answer (wp_tunnel p) = (t, WriteToNetwork (7 # ex_answer)) \<longrightarrow>
         (\<exists>task''. process_outgoing_packet queue_env (V4 ex_answer) task' = ([WgSend (7 # ex_answer) (SockV4 9 999)], Inr task'')))"
    using wg_answers_sender [OF queue_tunnel.tunn_laws_axioms run, of _ _ "V4 ex_answer" "7 # ex_answer"]
    by (fastforce simp: MAX_PACKET_SIZE_def WG_HEADER_SIZE_def ex_answer_def)
  then show ?thesis using run by fastforce
qed

text \<open>
  C25. A server whose peers have not been heard from panics on the first packet it is asked to send,
  as soon as the tunnel of the peer it falls back to answers with a handshake to transmit.
\<close>

theorem wg_fallback_panics:
  assumes "we_first E (peers_by_idx (wg_build E keys)) = Some peer" and "wg_store (wg_build E keys) peer = Some p"
    and "length (into_inner packet) \<le> MAX_PACKET_SIZE - WG_HEADER_SIZE"
    and "we_encapsulate E (into_inner packet) (wp_tunnel p) = (t, WriteToNetwork buf)"
  shows "\<exists>m. process_outgoing_packet E packet (wg_build E keys) = ([], Inl (Panicked m))"
  using assms wg_build_silent(1) [OF assms(2)] wg_build_silent(2) [of E keys]
  by (simp add: process_outgoing_packet_def MAX_PACKET_SIZE_def WG_HEADER_SIZE_def)

theorem wg_fallback_panics_witness:
  "\<exists>m. process_outgoing_packet queue_env (V4 [7]) (wg_build queue_env [5]) = ([], Inl (Panicked m))"
  by (rule wg_fallback_panics [where peer = 0 and t = "[]" and buf = "[7, 7]" and p = "\<lparr>wp_tunnel = [], wp_endpoint = None\<rparr>"])
    (simp_all add: wg_build_def MAX_PACKET_SIZE_def WG_HEADER_SIZE_def)

end
