(* ===== verification/Wg_Client.thy ===== *)
theory Wg_Client
  imports Wireguard
begin

text \<open>
  \<^verbatim>\<open>wireguard-test-client/src/main.rs\<close>: the client that tests a WireGuard server end to end.  It
  sends a UDP datagram and a TCP SYN through a tunnel, completes the TCP handshake, and ends when both
  replies have arrived.  boringtun and the socket are the parameters \<open>wg_env\<close> of the server, smoltcp's
  writable packets are \<open>client_wire\<close>; what the socket receives is the input.
\<close>

subsection \<open>The packets\<close>

record client_wire =
  cw_v4_checked :: "bytes \<Rightarrow> bool"
  cw_udp_checked :: "bytes \<Rightarrow> bool"
  cw_tcp_checked :: "bytes \<Rightarrow> bool"
  cw_udp_fill :: "bytes \<Rightarrow> bytes"
  cw_tcp_fill :: "bytes \<Rightarrow> bytes"
  cw_tcp_set_ack :: "u32 \<Rightarrow> bytes \<Rightarrow> bytes"
  cw_v4_fill :: "bytes \<Rightarrow> bytes"

text \<open>All operations take the whole IP packet; the UDP and TCP ones work on its payload.\<close>

definition udp_hello :: bytes where
  "udp_hello = [0x45, 0x00, 0x00, 0x21, 0x8d, 0x66, 0x00, 0x00, 0x80, 0x11, 0x30, 0x7f, 0x0a, 0x00, 0x00, 0x01, 0x0a, 0x00, 0x00, 0x2a,
     0x04, 0xd2, 0x7a, 0x69, 0x00, 0x0d, 0x25, 0x3f, 0x68, 0x65, 0x6c, 0x6c, 0x6f]"

definition tcp_syn_bytes :: bytes where
  "tcp_syn_bytes = [0x45, 0x00, 0x00, 0x34, 0xd9, 0x7b, 0x40, 0x00, 0x80, 0x06, 0xff, 0xff, 0x0a, 0x00, 0x00, 0x01, 0x0a, 0x00, 0x00, 0x2a,
     0xca, 0xfe, 0x00, 0x50, 0x12, 0x34, 0x56, 0x78, 0x00, 0x00, 0x00, 0x00, 0x80, 0x02, 0xfa, 0xf0, 0xff, 0xff, 0x00, 0x00,
     0x02, 0x04, 0x05, 0xb4, 0x01, 0x03, 0x03, 0x08, 0x01, 0x01, 0x04, 0x02]"

definition tcp_ack_bytes :: bytes where
  "tcp_ack_bytes = [0x45, 0x00, 0x00, 0x34, 0xd9, 0x7b, 0x40, 0x00, 0x80, 0x06, 0xff, 0xff, 0x0a, 0x00, 0x00, 0x01, 0x0a, 0x00, 0x00, 0x2a,
     0xca, 0xfe, 0x00, 0x50, 0x12, 0x34, 0x56, 0x79, 0x00, 0x00, 0x00, 0x00, 0x50, 0x10, 0x02, 0x04, 0xff, 0xff, 0x00, 0x00,
     0x68, 0x65, 0x6c, 0x6c, 0x6f, 0x20, 0x77, 0x6f, 0x72, 0x6c, 0x64, 0x21]"

definition udp_dgram :: "client_wire \<Rightarrow> bytes res" where
  "udp_dgram W =
     (if \<not> cw_v4_checked W udp_hello then Inl (Failed ''smoltcp::wire::Error'')
      else if \<not> cw_udp_checked W udp_hello then Inl (Failed ''smoltcp::wire::Error'')
      else Inr (cw_v4_fill W (cw_udp_fill W udp_hello)))"

definition client_syn :: "client_wire \<Rightarrow> bytes res" where
  "client_syn W =
     (if \<not> cw_v4_checked W tcp_syn_bytes then Inl (Failed ''smoltcp::wire::Error'')
      else if \<not> cw_tcp_checked W tcp_syn_bytes then Inl (Failed ''smoltcp::wire::Error'')
      else Inr (cw_v4_fill W (cw_tcp_fill W tcp_syn_bytes)))"

text \<open>
  The answer to a SYN/ACK.  The sequence number is read as an \<^verbatim>\<open>i32\<close>; with overflow checks
  (\<open>checks\<close>, a debug build) the largest one panics, without them it wraps.
\<close>

definition client_ack :: "client_wire \<Rightarrow> bool \<Rightarrow> bytes \<Rightarrow> bytes res" where
  "client_ack W checks buf =
     (if \<not> cw_v4_checked W tcp_ack_bytes then Inl (Failed ''smoltcp::wire::Error'')
      else
        let seq = be_word (take 4 (drop 24 buf)) :: u32 in
        if checks \<and> seq = 2 ^ 31 - 1 then Inl (Panicked ''attempt to add with overflow'')
        else if \<not> cw_tcp_checked W tcp_ack_bytes then Inl (Failed ''smoltcp::wire::Error'')
        else Inr (cw_v4_fill W (cw_tcp_fill W (cw_tcp_set_ack W (seq + 1) tcp_ack_bytes))))"

subsection \<open>The state and one round\<close>

definition client_port :: "string option \<Rightarrow> u16 res" where
  "client_port arg =
     (case arg of
        None \<Rightarrow> Inr 51820
      | Some x \<Rightarrow>
          (case parse_uint (2 ^ 16 - 1) x of
             None \<Rightarrow> Inl (Panicked ''Not a valid port number.'')
           | Some p \<Rightarrow> Inr (word_of_nat p)))"

record 't wg_client =
  cl_tunn :: 't
  cl_packets_to_do :: "bytes list"
  cl_udp_done :: bool
  cl_tcp_done :: bool

definition client_start :: "client_wire \<Rightarrow> 't \<Rightarrow> 't wg_client res" where
  "client_start W tunn =
     res_bind (udp_dgram W) (\<lambda>udp.
     res_bind (client_syn W) (\<lambda>syn.
       Inr \<lparr>cl_tunn = tunn, cl_packets_to_do = [syn, udp], cl_udp_done = False, cl_tcp_done = False\<rparr>))"

datatype wg_client_output = ClientSent wg_output | ClientReceived bytes

text \<open>The loop that pops the packets off the end of the vector; the argument is the reversed vector.\<close>

definition CLIENT_BUF_SIZE :: nat where "CLIENT_BUF_SIZE = 1500"

fun client_send :: "('t, 'h, 'k) wg_env \<Rightarrow> socket_addr \<Rightarrow> bytes list \<Rightarrow> 't \<Rightarrow> wg_output list \<times> 't res" where
  "client_send E server [] t = ([], Inr t)"
| "client_send E server (packet # packets) t =
     (if CLIENT_BUF_SIZE < length packet + WG_HEADER_SIZE then ([], Inl encapsulate_panic) else
      let (t', result) = we_encapsulate E packet t in
      case result of
        WriteToNetwork b \<Rightarrow>
          (case we_send_to E b server of
             Inl e \<Rightarrow> ([], Inl e)
           | Inr u \<Rightarrow> run_bind ([WgSend b server], Inr t') (client_send E server packets))
      | TunnDone \<Rightarrow> client_send E server packets t'
      | _ \<Rightarrow> ([], Inl (Panicked ''internal error: entered unreachable code: encapsulate'')))"

definition HELLO :: bytes where "HELLO = as_bytes ''HELLO''"

definition HELLO_WORLD :: bytes where "HELLO_WORLD = as_bytes ''HELLO WORLD!''"

definition index_panic :: fault where
  "index_panic = Panicked ''index out of bounds''"

definition client_packet :: "client_wire \<Rightarrow> bool \<Rightarrow> bytes \<Rightarrow> 't wg_client \<Rightarrow> 't wg_client res" where
  "client_packet W checks buf st =
     (if length buf \<le> 9 then Inl index_panic
      else if buf ! 9 = 0x11 \<and> \<not> cl_udp_done st then
        (if length buf < 28 then Inl index_panic
         else if drop 28 buf = HELLO then Inr (st\<lparr>cl_udp_done := True\<rparr>)
         else Inr st)
      else if buf ! 9 = 0x6 \<and> \<not> cl_tcp_done st then
        (if length buf \<le> 33 then Inl index_panic
         else if and (buf ! 33) 0x12 = 0x12 then
           res_bind (client_ack W checks buf) (\<lambda>ack. Inr (st\<lparr>cl_packets_to_do := cl_packets_to_do st @ [ack]\<rparr>))
         else if and (buf ! 33) 0x10 = 0x10 then
           (if length buf = 40 then Inr st
            else if length buf < 40 then Inl index_panic
            else if drop 40 buf = HELLO_WORLD then Inr (st\<lparr>cl_tcp_done := True\<rparr>)
            else Inr st)
         else Inr st)
      else Inr st)"

definition client_result ::
  "client_wire \<Rightarrow> bool \<Rightarrow> tunn_result \<Rightarrow> 't wg_client \<Rightarrow> wg_client_output list \<times> 't wg_client res" where
  "client_result W checks result st =
     (case result of
        WriteToTunnelV4 buf \<Rightarrow> ([ClientReceived buf], client_packet W checks buf st)
      | TunnDone \<Rightarrow> ([], Inr st)
      | _ \<Rightarrow> ([], Inl (Failed ''Unexpected decapsulatation result'')))"

text \<open>
  What the socket's \<^verbatim>\<open>recv\<close> returns: an error with the system's number, or a datagram.
\<close>

type_synonym client_recv = "int option + bytes"

definition client_round ::
  "('t, 'h, 'k) wg_env \<Rightarrow> client_wire \<Rightarrow> bool \<Rightarrow> socket_addr \<Rightarrow> client_recv \<Rightarrow> 't wg_client \<Rightarrow>
   (wg_client_output list \<times> 't wg_client res) option" where
  "client_round E W checks server r st =
     (case client_send E server (rev (cl_packets_to_do st)) (cl_tunn st) of
        (os, Inl e) \<Rightarrow> Some (map ClientSent os, Inl e)
      | (os, Inr t) \<Rightarrow>
          let st = st\<lparr>cl_tunn := t, cl_packets_to_do := []\<rparr> in
          (case r of
             Inl err \<Rightarrow> Some (map ClientSent os, if err = Some 11 then Inr st else Inl (Failed ''recv''))
           | Inr data \<Rightarrow>
               let (t, result) = we_decapsulate E None data t in
               Option.bind (wg_flush E server t result) (\<lambda>(os', flushed).
                 Some (run_bind (map ClientSent (os @ os'), flushed)
                   (\<lambda>(t, result). client_result W checks result (st\<lparr>cl_tunn := t\<rparr>))))))"

text \<open>The whole loop on the sequence of results of \<^verbatim>\<open>recv\<close>.\<close>

datatype 't client_end = AllSet | ClientFailed fault | ClientWaiting "'t wg_client"

fun client_run ::
  "('t, 'h, 'k) wg_env \<Rightarrow> client_wire \<Rightarrow> bool \<Rightarrow> socket_addr \<Rightarrow> client_recv list \<Rightarrow> 't wg_client \<Rightarrow>
   (wg_client_output list \<times> 't client_end) option" where
  "client_run E W checks server rs st =
     (if cl_udp_done st \<and> cl_tcp_done st then Some ([], AllSet)
      else case rs of
        [] \<Rightarrow> Some ([], ClientWaiting st)
      | r # rs \<Rightarrow>
          Option.bind (client_round E W checks server r st) (\<lambda>(os, next).
            case next of
              Inl e \<Rightarrow> Some (os, ClientFailed e)
            | Inr st' \<Rightarrow> Option.bind (client_run E W checks server rs st') (\<lambda>(os', c). Some (os @ os', c))))"

declare client_run.simps [simp del]

subsection \<open>What the client has seen\<close>

fun received :: "wg_client_output list \<Rightarrow> bytes list" where
  "received [] = []"
| "received (ClientReceived b # os) = b # received os"
| "received (ClientSent x # os) = received os"

lemma received_append [simp]: "received (xs @ ys) = received xs @ received ys"
  by (induction xs rule: received.induct) simp_all

lemma received_sent [simp]: "received (map ClientSent os) = []"
  by (induction os) simp_all

definition udp_reply :: "bytes \<Rightarrow> bool" where
  "udp_reply b \<longleftrightarrow> b ! 9 = 0x11 \<and> 28 \<le> length b \<and> drop 28 b = HELLO"

definition tcp_reply :: "bytes \<Rightarrow> bool" where
  "tcp_reply b \<longleftrightarrow> b ! 9 = 0x6 \<and> 40 < length b \<and> and (b ! 33) 0x12 = 0x10 \<and> drop 40 b = HELLO_WORLD"

lemma and_power: "and (x :: 'a::len word) (2 ^ n) = (if bit x n then 2 ^ n else 0)"
  by (rule bit_eqI) (auto simp: bit_simps)

lemma ack_without_syn: "and (x :: u8) 0x12 \<noteq> 0x12 \<and> and x 0x10 = 0x10 \<longleftrightarrow> and x 0x12 = 0x10"
proof -
  have "and x 0x12 = or (and x (2 ^ 1)) (and x (2 ^ 4))"
    using bit.conj_disj_distrib [of x 2 "0x10"] by simp
  moreover have "and x 0x10 = and x (2 ^ 4)" by simp
  ultimately show ?thesis unfolding and_power by simp
qed

lemma client_packet_flags:
  assumes "client_packet W checks buf st = Inr st'"
  shows "cl_udp_done st' \<longleftrightarrow> cl_udp_done st \<or> udp_reply buf" and "cl_tcp_done st' \<longleftrightarrow> cl_tcp_done st \<or> tcp_reply buf"
  using assms
  by (auto simp: client_packet_def udp_reply_def tcp_reply_def ack_without_syn [symmetric] res_bind_eq_Inr split: if_splits)

text \<open>The flags record which replies are among the packets received.\<close>

definition replies :: "bytes list \<Rightarrow> bool \<times> bool" where
  "replies bs = (list_ex udp_reply bs, list_ex tcp_reply bs)"

definition flags :: "'t wg_client \<Rightarrow> bool \<times> bool" where
  "flags st = (cl_udp_done st, cl_tcp_done st)"

fun either :: "bool \<times> bool \<Rightarrow> bool \<times> bool \<Rightarrow> bool \<times> bool" where
  "either (a, b) (c, d) = (a \<or> c, b \<or> d)"

lemma either_replies: "either (either f (replies xs)) (replies ys) = either f (replies (xs @ ys))"
  by (cases f) (auto simp: replies_def)

lemma either_same [simp]: "either f (False, False) = f"
  by (cases f) simp

lemma result_flags:
  assumes "client_result W checks result st = (os, Inr st')"
  shows "flags st' = either (flags st) (replies (received os))"
  using assms
  by (auto simp: client_result_def flags_def replies_def dest: client_packet_flags split: tunn_result.splits)

lemma client_packet_fails:
  assumes "client_packet W checks buf st = Inl e"
  shows "\<not> udp_reply buf \<and> \<not> tcp_reply buf"
  using assms
  by (auto simp: client_packet_def udp_reply_def tcp_reply_def ack_without_syn [symmetric] split: if_splits)

lemma run_bind_eq_Inl:
  "run_bind r f = (os, Inl e) \<longleftrightarrow>
     r = (os, Inl e) \<or> (\<exists>os1 x os2. r = (os1, Inr x) \<and> f x = (os2, Inl e) \<and> os = os1 @ os2)"
  by (cases r; cases "snd r") (auto, metis prod.collapse)

text \<open>A round that fails has not received a reply.\<close>

lemma round_fails:
  assumes "client_round E W checks server r st = Some (os, Inl e)"
  shows "replies (received os) = (False, False)"
proof -
  obtain os1 x where 1: "client_send E server (rev (cl_packets_to_do st)) (cl_tunn st) = (os1, x)" by (metis surj_pair)
  consider "\<exists>os1. os = map ClientSent os1" | os2 os3 t' result where "os = map ClientSent os2 @ os3"
      "client_result W checks result (st\<lparr>cl_packets_to_do := [], cl_tunn := t'\<rparr>) = (os3, Inl e)"
    using assms 1
    by (cases x) (auto simp: client_round_def Let_def run_bind_eq_Inl bind_eq_Some_conv simp del: map_append
        split: prod.splits sum.splits if_splits)
  then show ?thesis
  proof cases
    case 2
    then show ?thesis
      by (auto simp: client_result_def replies_def dest: client_packet_fails split: tunn_result.splits)
  qed (auto simp: replies_def)
qed

lemma round_flags:
  assumes "client_round E W checks server r st = Some (os, Inr st')"
  shows "flags st' = either (flags st) (replies (received os))"
proof -
  obtain os1 t where "client_send E server (rev (cl_packets_to_do st)) (cl_tunn st) = (os1, Inr t)"
    using assms by (auto simp: client_round_def split: prod.splits sum.splits)
  then consider "os = map ClientSent os1" "st' = st\<lparr>cl_tunn := t, cl_packets_to_do := []\<rparr>"
    | os2 os3 t' result where "os = map ClientSent os2 @ os3"
      "client_result W checks result (st\<lparr>cl_packets_to_do := [], cl_tunn := t'\<rparr>) = (os3, Inr st')"
    using assms
    by (auto simp: client_round_def Let_def run_bind_eq_Inr bind_eq_Some_conv simp del: map_append
        split: prod.splits sum.splits if_splits)
  then show ?thesis
  proof cases
    case 2
    then show ?thesis using result_flags [OF 2(2)] by (simp add: flags_def)
  qed (simp add: flags_def replies_def)
qed

context tunn_laws
begin

lemma round_returns: "\<exists>os r'. client_round E W checks server r st = Some (os, r')"
proof -
  obtain os1 x where 1: "client_send E server (rev (cl_packets_to_do st)) (cl_tunn st) = (os1, x)" by (metis surj_pair)
  show ?thesis
  proof (cases "\<exists>t data. x = Inr t \<and> r = Inr data")
    case True
    then obtain t data where x: "x = Inr t" "r = Inr data" by blast
    obtain t' result where d: "we_decapsulate E None data t = (t', result)" by (metis surj_pair)
    obtain os2 fl where "wg_flush E server t' result = Some (os2, fl)" using flush_returns by blast
    then show ?thesis using 1 x d by (simp add: client_round_def)
  next
    case False
    then show ?thesis using 1 by (cases x; cases r) (simp_all add: client_round_def)
  qed
qed

lemma run_verdict:
  "\<exists>os c. client_run E W checks server rs st = Some (os, c) \<and>
     (c = AllSet \<longleftrightarrow> either (flags st) (replies (received os)) = (True, True))"
proof (induction rs arbitrary: st)
  case Nil
  show ?case by (subst client_run.simps) (auto simp: flags_def replies_def client_run.simps)
next
  case (Cons r rs)
  obtain os n where n: "client_round E W checks server r st = Some (os, n)" using round_returns by blast
  show ?case
  proof (cases n)
    case (Inl e)
    with n round_fails [OF n [unfolded Inl]] show ?thesis
      by (subst client_run.simps) (auto simp: flags_def replies_def)
  next
    case (Inr st1)
    from Cons.IH [of st1] round_flags [OF n [unfolded Inr]] n Inr show ?thesis
      by (subst client_run.simps) (auto simp: flags_def [of st] replies_def either_replies)
  qed
qed

end

subsection \<open>Properties\<close>

text \<open>
  C40. The test client's verdict is the right one.  For every sequence of results of \<^verbatim>\<open>recv\<close> all its rounds
  return, and it has then reported success, has failed, or waits for the next result; it has reported
  success exactly if the packets it has received include the UDP reply and the TCP reply it is looking for.
  (It never gives up: while the socket has nothing for it, it goes on waiting.)
\<close>

theorem client_verdict:
  assumes "tunn_laws E backlog" and "client_start W tunn = Inr st"
  shows "\<exists>os c. client_run E W checks server rs st = Some (os, c) \<and>
     (c = AllSet \<longleftrightarrow> list_ex udp_reply (received os) \<and> list_ex tcp_reply (received os))"
proof -
  have fl: "flags st = (False, False)"
    using assms(2) by (auto simp: client_start_def res_bind_eq_Inr flags_def)
  obtain os c where "client_run E W checks server rs st = Some (os, c)"
    "c = AllSet \<longleftrightarrow> either (flags st) (replies (received os)) = (True, True)"
    using tunn_laws.run_verdict [OF assms(1)] by blast
  then show ?thesis unfolding fl by (cases c) (auto simp: replies_def)
qed

text \<open>
  The client acknowledges a SYN/ACK by the sequence number after the server's: the packet it queues is
  its prepared one with that acknowledgement number.  In a build with overflow checks a server whose
  initial sequence number is the largest \<^verbatim>\<open>i32\<close> makes it panic instead.
\<close>

lemma client_acks:
  assumes "33 < length buf" and "buf ! 9 = 6" and "and (buf ! 33) 0x12 = 0x12" and "\<not> cl_tcp_done st"
    and "cw_v4_checked W tcp_ack_bytes" and "cw_tcp_checked W tcp_ack_bytes"
  defines "seq \<equiv> be_word (take 4 (drop 24 buf)) :: u32"
  shows "client_packet W checks buf st =
     (if checks \<and> seq = 0x7FFFFFFF then Inl (Panicked ''attempt to add with overflow'')
      else Inr (st\<lparr>cl_packets_to_do := cl_packets_to_do st @
             [cw_v4_fill W (cw_tcp_fill W (cw_tcp_set_ack W (seq + 1) tcp_ack_bytes))]\<rparr>))"
  using assms by (simp add: client_packet_def client_ack_def Let_def seq_def)

subsection \<open>A witness\<close>

definition plain_client_wire :: client_wire where
  "plain_client_wire =
     \<lparr>cw_v4_checked = (\<lambda>b. 20 \<le> length b), cw_udp_checked = (\<lambda>b. 28 \<le> length b), cw_tcp_checked = (\<lambda>b. 40 \<le> length b),
      cw_udp_fill = id, cw_tcp_fill = id, cw_tcp_set_ack = (\<lambda>a b. take 28 b @ be_bytes 4 a @ drop 32 b), cw_v4_fill = id\<rparr>"

definition udp_answer :: bytes where
  "udp_answer = replicate 9 0 @ 0x11 # replicate 18 0 @ HELLO"

definition tcp_answer :: bytes where
  "tcp_answer = replicate 9 0 @ 6 # replicate 23 0 @ 0x10 # replicate 6 0 @ HELLO_WORLD"

definition client_ready :: "bytes list wg_client" where
  "client_ready = \<lparr>cl_tunn = [], cl_packets_to_do = [tcp_syn_bytes, udp_hello], cl_udp_done = False, cl_tcp_done = False\<rparr>"

lemma client_ready_started: "client_start plain_client_wire [] = Inr client_ready"
  by (simp add: client_start_def udp_dgram_def client_syn_def plain_client_wire_def client_ready_def udp_hello_def tcp_syn_bytes_def)

lemma answers:
  "udp_reply udp_answer" "tcp_reply tcp_answer" "\<not> tcp_reply udp_answer" "9 < length udp_answer" "33 < length tcp_answer"
  by (simp_all add: udp_reply_def tcp_reply_def udp_answer_def tcp_answer_def HELLO_def HELLO_WORLD_def eval_nat_numeral)

lemma queue_round:
  assumes "client_packet W checks buf (st\<lparr>cl_packets_to_do := [], cl_tunn := []\<rparr>) = Inr st'" and "cl_tunn st = []"
    and "\<forall>q\<in>set (cl_packets_to_do st). length q + WG_HEADER_SIZE \<le> CLIENT_BUF_SIZE"
  shows "\<exists>os. client_round queue_env W checks server (Inr ([0, 0, 0, 0] @ buf)) st = Some (os, Inr st') \<and> received os = [buf]"
proof -
  have "\<forall>q\<in>set ps. length q + WG_HEADER_SIZE \<le> CLIENT_BUF_SIZE \<Longrightarrow> \<exists>os. client_send queue_env server ps [] = (os, Inr [])" for ps
    by (induction ps) auto
  from this [of "rev (cl_packets_to_do st)"] assms(3)
  obtain os where "client_send queue_env server (rev (cl_packets_to_do st)) [] = (os, Inr [])" by auto
  then show ?thesis using assms by (simp add: client_round_def client_result_def)
qed

theorem client_verdict_witness:
  "\<exists>os. client_run queue_env plain_client_wire True (SockV4 1 51820)
       [Inr ([0, 0, 0, 0] @ udp_answer), Inl (Some 11), Inr ([0, 0, 0, 0] @ tcp_answer)] client_ready = Some (os, AllSet) \<and>
     list_ex udp_reply (received os) \<and> list_ex tcp_reply (received os)"
proof -
  let ?rs = "[Inr ([0, 0, 0, 0] @ udp_answer), Inl (Some 11), Inr ([0, 0, 0, 0] @ tcp_answer)]"
  let ?st1 = "client_ready\<lparr>cl_tunn := [], cl_packets_to_do := [], cl_udp_done := True\<rparr>"
  have "client_packet plain_client_wire True udp_answer (client_ready\<lparr>cl_packets_to_do := [], cl_tunn := []\<rparr>) = Inr ?st1"
    using answers(1,4) by (simp add: client_packet_def udp_reply_def client_ready_def)
  from queue_round [OF this, of "SockV4 1 51820"] obtain os1 where
    1: "client_round queue_env plain_client_wire True (SockV4 1 51820) (Inr ([0, 0, 0, 0] @ udp_answer)) client_ready = Some (os1, Inr ?st1)"
    by (auto simp: client_ready_def udp_hello_def tcp_syn_bytes_def CLIENT_BUF_SIZE_def WG_HEADER_SIZE_def)
  have 2: "client_round queue_env plain_client_wire True (SockV4 1 51820) (Inl (Some 11)) ?st1 = Some ([], Inr ?st1)"
    by (simp add: client_round_def client_ready_def)
  have "client_packet plain_client_wire True tcp_answer (?st1\<lparr>cl_packets_to_do := [], cl_tunn := []\<rparr>) = Inr (?st1\<lparr>cl_tcp_done := True\<rparr>)"
    using answers(2,5) ack_without_syn [of "tcp_answer ! 33"]
    by (simp add: client_packet_def tcp_reply_def client_ready_def)
  from queue_round [OF this, of "SockV4 1 51820"] obtain os3 where
    3: "client_round queue_env plain_client_wire True (SockV4 1 51820) (Inr ([0, 0, 0, 0] @ tcp_answer)) ?st1 =
      Some (os3, Inr (?st1\<lparr>cl_tcp_done := True\<rparr>))"
    by (auto simp: client_ready_def)
  have "\<exists>os. client_run queue_env plain_client_wire True (SockV4 1 51820) ?rs client_ready = Some (os, AllSet)"
    using 1 2 3 by (simp add: client_run.simps client_ready_def)
  with client_verdict [OF queue_tunnel.tunn_laws_axioms client_ready_started, of True "SockV4 1 51820" ?rs]
  show ?thesis by auto
qed

end
