(* ===== verification/Macos.thy ===== *)
theory Macos
  imports Packet_Sources
begin

text \<open>
  \<^verbatim>\<open>src/packet_sources/macos.rs\<close>: on macOS a system extension opens one Unix socket per
  connection of an intercepted process.  A control task accepts them and passes the configuration on;
  one task per connection relays a TCP stream or the datagrams of a UDP flow.  The sockets, the
  framing and the protobuf encoding are the environment's.
\<close>

subsection \<open>The control task\<close>

datatype mac_input =
    MacShutdown
  | MacControl
  | MacJoined "unit res res"
  | MacAccept "nat res"
  | MacConf intercept_conf

datatype mac_output = MacSpawn nat | MacSendConf bytes

record mac_env =
  me_encode_conf :: "ipc_intercept_conf \<Rightarrow> bytes"
  me_send :: "bytes \<Rightarrow> unit res"

text \<open>
  \<open>MacControl\<close>: the control channel has yielded something or ended; \<open>MacJoined\<close>: a connection task has
  ended, \<open>MacAccept\<close>: a new socket.
\<close>

fun mac_body :: "mac_env \<Rightarrow> (mac_input, unit, mac_output) select_body" where
  "mac_body E MacShutdown st = ([], Inr None)"
| "mac_body E MacControl st = ([], Inl (Failed ''macOS System Extension shut down.''))"
| "mac_body E (MacJoined r) st = ([], Inr (Some ()))"
| "mac_body E (MacAccept l) st = (case l of Inr stream \<Rightarrow> ([MacSpawn stream], Inr (Some ())) | Inl e \<Rightarrow> ([], Inr (Some ())))"
| "mac_body E (MacConf conf) st =
     (let msg = me_encode_conf E (ipc_conf_from conf) in
      case me_send E msg of Inl e \<Rightarrow> ([], Inl e) | Inr u \<Rightarrow> ([MacSendConf msg], Inr (Some ())))"

subsection \<open>The start of a connection task\<close>

text \<open>The handshake: a length, that many bytes (\<open>read_exact\<close>), and the message in them.\<close>

definition mac_handshake :: "ipc_codec \<Rightarrow> u32 res \<Rightarrow> (nat \<Rightarrow> bytes res) \<Rightarrow> new_flow_message res" where
  "mac_handshake k len read_exact =
     res_bind len (\<lambda>len.
     res_bind (read_exact (unat len)) (\<lambda>buf.
       case dec_new_flow k buf of
         None \<Rightarrow> Inl (Failed ''Invalid handshake IPC'')
       | Some (NewFlow (Some m)) \<Rightarrow> Inr m
       | Some (NewFlow None) \<Rightarrow> Inl (Failed ''Received invalid IPC message'')))"

subsection \<open>A TCP connection\<close>

record mac_tcp =
  mt_write_buf :: bytes
  mt_drain_tx :: "oneshot option"
  mt_read_tx :: "(nat \<times> oneshot) option"

datatype mac_out = MacEffect effect | MacWrite bytes | MacShutdownWrite | MacFrame bytes

text \<open>What the task announces before its loop.\<close>

definition mac_tcp_event :: "ip_text \<Rightarrow> command_chan \<Rightarrow> tcp_flow \<Rightarrow> transport_event res" where
  "mac_tcp_event t chan flow =
     (case tcp_remote_address flow of
        None \<Rightarrow> Inl (Panicked ''no remote address'')
      | Some remote \<Rightarrow>
          let src_addr = SockV4 0x7F000001 0;
              dst_addr = (case address_try_from t remote of Inl e \<Rightarrow> SockV4 0 0 | Inr a \<Rightarrow> a);
              tunnel_info = LocalRedirector (Option.bind (tcp_tunnel_info flow) ipc_pid)
                (Option.bind (tcp_tunnel_info flow) ipc_process_name) (Some (addr_host remote, ucast (addr_port remote)))
          in Inr (ConnectionEstablished (fst (next_id gen_tcp)) src_addr dst_addr tunnel_info (Some chan)))"

definition mac_tcp_init :: mac_tcp where
  "mac_tcp_init = \<lparr>mt_write_buf = [], mt_drain_tx = None, mt_read_tx = None\<rparr>"

text \<open>
  \<open>MtWritable r\<close>: the socket took \<open>r\<close> bytes of the buffer, or the client is gone; \<open>MtReadable r\<close>: what was
  read.
\<close>

datatype mac_tcp_input =
    MtShutdown
  | MtWritable "nat res"
  | MtReadable "bytes res"
  | MtCommand transport_command

fun mac_tcp_enabled :: "mac_tcp_input \<Rightarrow> mac_tcp \<Rightarrow> bool" where
  "mac_tcp_enabled MtShutdown st \<longleftrightarrow> True"
| "mac_tcp_enabled (MtWritable r) st \<longleftrightarrow> mt_write_buf st \<noteq> []"
| "mac_tcp_enabled (MtReadable r) st \<longleftrightarrow> mt_read_tx st \<noteq> None"
| "mac_tcp_enabled (MtCommand c) st \<longleftrightarrow> True"

fun mac_tcp_body :: "(mac_tcp_input, mac_tcp, mac_out) select_body" where
  "mac_tcp_body MtShutdown st = ([], Inr None)"
| "mac_tcp_body (MtWritable r) st =
     (case r of
        Inl e \<Rightarrow> ([], Inr None)
      | Inr n \<Rightarrow>
          let st' = st\<lparr>mt_write_buf := drop n (mt_write_buf st)\<rparr>;
              written = MacWrite (take n (mt_write_buf st))
          in case (mt_write_buf st', mt_drain_tx st') of
               ([], Some tx) \<Rightarrow> ([written, MacEffect (SendUnit tx)], Inr (Some (st'\<lparr>mt_drain_tx := None\<rparr>)))
             | _ \<Rightarrow> ([written], Inr (Some st')))"
| "mac_tcp_body (MtReadable r) st =
     (case mt_read_tx st of
        None \<Rightarrow> ([], Inl (Panicked ''called `Option::unwrap()` on a `None` value''))
      | Some (n, tx) \<Rightarrow>
          (case r of
             Inl e \<Rightarrow> ([MacEffect (DropData tx)], Inl e)
           | Inr data \<Rightarrow> ([MacEffect (SendData tx data)], Inr (Some (st\<lparr>mt_read_tx := None\<rparr>)))))"
| "mac_tcp_body (MtCommand (ReadData cid n tx)) st =
     (if mt_read_tx st \<noteq> None then ([], Inl (Panicked ''assertion failed: read_tx.is_none()''))
      else ([], Inr (Some (st\<lparr>mt_read_tx := Some (unat n, tx)\<rparr>))))"
| "mac_tcp_body (MtCommand (WriteData cid data)) st =
     ([], Inr (Some (st\<lparr>mt_write_buf := mt_write_buf st @ data\<rparr>)))"
| "mac_tcp_body (MtCommand (DrainWriter cid tx)) st =
     (if mt_drain_tx st \<noteq> None then ([], Inl (Panicked ''assertion failed: drain_tx.is_none()''))
      else if mt_write_buf st = [] then ([MacEffect (SendUnit tx)], Inr (Some st))
      else ([], Inr (Some (st\<lparr>mt_drain_tx := Some tx\<rparr>))))"
| "mac_tcp_body (MtCommand (CloseConnection cid half_close)) st =
     ([MacShutdownWrite], if \<not> half_close then Inr None else Inr (Some st))"

subsection \<open>A UDP flow\<close>

record mac_udp =
  mu_first_packet :: "(tunnel_info \<times> socket_addr \<times> command_chan) option"
  mu_remote_address :: socket_addr
  mu_state :: conn_state

definition mac_udp_init :: "ip_text \<Rightarrow> command_chan \<Rightarrow> udp_flow \<Rightarrow> mac_udp res" where
  "mac_udp_init t chan flow =
     (case udp_tunnel_info flow of
        None \<Rightarrow> Inl (Failed ''no tunnel info'')
      | Some tun \<Rightarrow>
          (case udp_local_address flow of
             None \<Rightarrow> Inl (Failed ''no local address'')
           | Some addr \<Rightarrow>
               res_bind (address_try_from t addr) (\<lambda>local_address. Inr
                 \<lparr>mu_first_packet = Some (LocalRedirector (ipc_pid tun) (ipc_process_name tun) None, local_address, chan),
                  mu_remote_address = SockV4 0 0, mu_state = conn_default\<rparr>)))"

datatype mac_udp_input = MuShutdown | MuFrame "bytes res" | MuCommand transport_command

record mac_udp_env =
  mue_codec :: ipc_codec
  mue_text :: ip_text
  mue_send_event :: "transport_event \<Rightarrow> unit res"
  mue_send_frame :: "bytes \<Rightarrow> bool"

fun mac_udp_enabled :: "mac_udp_input \<Rightarrow> mac_udp \<Rightarrow> bool" where
  "mac_udp_enabled MuShutdown st \<longleftrightarrow> True"
| "mac_udp_enabled (MuFrame r) st \<longleftrightarrow> packet_queue_len (mu_state st) < 10"
| "mac_udp_enabled (MuCommand c) st \<longleftrightarrow> True"

text \<open>The part of the packet arm that announces the connection or checks the destination.\<close>

definition mac_udp_announce ::
  "mac_udp_env \<Rightarrow> socket_addr \<Rightarrow> mac_udp \<Rightarrow> mac_out list \<times> mac_udp res" where
  "mac_udp_announce E dst_addr st =
     (case mu_first_packet st of
        Some (tunnel_info, local_address, command_tx) \<Rightarrow>
          let event = ConnectionEstablished (fst (next_id gen_udp)) local_address dst_addr tunnel_info (Some command_tx)
          in (case mue_send_event E event of
                Inl e \<Rightarrow> ([], Inl e)
              | Inr u \<Rightarrow> ([MacEffect (EmitEvent event)], Inr (st\<lparr>mu_first_packet := None, mu_remote_address := dst_addr\<rparr>)))
      | None \<Rightarrow>
          if mu_remote_address st \<noteq> dst_addr then ([], Inl (Failed ''UDP packet destinations do not match''))
          else ([], Inr st))"

fun mac_udp_body :: "mac_udp_env \<Rightarrow> (mac_udp_input, mac_udp, mac_out) select_body" where
  "mac_udp_body E MuShutdown st = ([], Inr None)"
| "mac_udp_body E (MuFrame r) st =
     (case r of
        Inl e \<Rightarrow> ([], Inl e)
      | Inr frame \<Rightarrow>
          (case dec_udp_packet (mue_codec E) frame of
             None \<Rightarrow> ([], Inl (Failed ''invalid IPC message''))
           | Some (IpcUdpPacket data None) \<Rightarrow> ([], Inl (Failed ''no remote addr''))
           | Some (IpcUdpPacket data (Some dst_addr)) \<Rightarrow>
               (case address_try_from (mue_text E) dst_addr of
                  Inl e \<Rightarrow> ([], Inl e)
                | Inr dst_addr \<Rightarrow>
                    run_bind (mac_udp_announce E dst_addr st) (\<lambda>st.
                      let (s, es) = add_packet data (mu_state st)
                      in (map MacEffect es, Inr (Some (st\<lparr>mu_state := s\<rparr>)))))))"
| "mac_udp_body E (MuCommand (ReadData cid n tx)) st =
     (case add_reader tx (mu_state st) of
        Inl e \<Rightarrow> ([], Inl e)
      | Inr (s, es) \<Rightarrow> (map MacEffect es, Inr (Some (st\<lparr>mu_state := s\<rparr>))))"
| "mac_udp_body E (MuCommand (WriteData cid data)) st =
     (if mu_first_packet st \<noteq> None then ([], Inl (Panicked ''assertion failed: first_packet.is_none()''))
      else case enc_udp_packet (mue_codec E) (IpcUdpPacket data (Some (address_from (mue_text E) (mu_remote_address st)))) of
        Inl e \<Rightarrow> ([], Inl e)
      | Inr frame \<Rightarrow> (if mue_send_frame E frame then [MacFrame frame] else [], Inr (Some st)))"
| "mac_udp_body E (MuCommand (DrainWriter cid tx)) st = ([MacEffect (SendUnit tx)], Inr (Some st))"
| "mac_udp_body E (MuCommand (CloseConnection cid half_close)) st =
     (if \<not> half_close then
        (let (s, es) = conn_close (mu_state st) in (map MacEffect es, Inr None))
      else ([], Inr (Some st)))"

subsection \<open>The TCP relay keeps the byte stream\<close>

fun mac_accepts :: "mac_tcp_input \<Rightarrow> mac_tcp \<Rightarrow> bytes" where
  "mac_accepts (MtCommand (WriteData cid data)) st = data"
| "mac_accepts _ st = []"

fun mac_emits :: "mac_out \<Rightarrow> bytes" where
  "mac_emits (MacWrite d) = d"
| "mac_emits _ = []"

interpretation mac_tcp: egress_queue mac_tcp_enabled mac_tcp_body mt_write_buf mac_accepts mac_emits
proof
  fix i s os r
  assume "mac_tcp_enabled i s" and "mac_tcp_body i s = (os, r)"
  then show "\<exists>rest. mt_write_buf s @ mac_accepts i s = concat (map mac_emits os) @ rest \<and>
      (\<forall>s'. r = Inr (Some s') \<longrightarrow> rest = mt_write_buf s')"
    by (induction i s rule: mac_tcp_body.induct)
      (auto simp: Let_def split: sum.splits option.splits list.splits if_splits, (metis append_take_drop_id)+)
qed

text \<open>
  C29. The TCP relay of the macOS source writes to the client exactly the bytes Python wrote, in order:
  what has been written to the socket, followed by what is still buffered, is the concatenation of the
  data of all write commands, whatever sizes the socket accepts.
\<close>

theorem mac_tcp_stream:
  assumes "select_loop mac_tcp_enabled mac_tcp_body is mac_tcp_init = (os, r)"
  shows "\<exists>rest. concat (map (\<lambda>(i, s). mac_accepts i s) (consumed mac_tcp_enabled mac_tcp_body is mac_tcp_init)) =
     concat (map mac_emits os) @ rest \<and> (\<forall>s'. r = Inr (Some s') \<longrightarrow> rest = mt_write_buf s')"
  using mac_tcp.loop_flow [OF assms] by (simp add: mac_tcp_init_def)

theorem mac_tcp_stream_witness:
  "select_loop mac_tcp_enabled mac_tcp_body
     [MtCommand (WriteData (ConnectionId 2) [1, 2, 3]), MtWritable (Inr 2), MtCommand (WriteData (ConnectionId 2) [4])] mac_tcp_init =
       ([MacWrite [1, 2]], Inr (Some \<lparr>mt_write_buf = [3, 4], mt_drain_tx = None, mt_read_tx = None\<rparr>)) \<and>
   [1, 2, 3, 4] = concat (map mac_emits [MacWrite [1, 2]]) @ [3, 4]"
proof -
  have run: "select_loop mac_tcp_enabled mac_tcp_body
     [MtCommand (WriteData (ConnectionId 2) [1, 2, 3]), MtWritable (Inr 2), MtCommand (WriteData (ConnectionId 2) [4])] mac_tcp_init =
       ([MacWrite [1, 2]], Inr (Some \<lparr>mt_write_buf = [3, 4], mt_drain_tx = None, mt_read_tx = None\<rparr>))"
    by (simp add: mac_tcp_init_def)
  from mac_tcp_stream [OF run] run show ?thesis by (simp add: mac_tcp_init_def)
qed

subsection \<open>Connection ids\<close>

text \<open>
  On macOS connection ids are not unique: every connection task starts its own generator, so all
  TCP connections are announced with the same id.  The task that runs the Python handlers keeps its
  handles by id, so a new connection displaces the handle of the one before.
\<close>

theorem mac_tcp_ids_collide:
  assumes "mac_tcp_event t chan1 flow1 = Inr (ConnectionEstablished id1 s1 d1 ti1 c1)"
    and "mac_tcp_event t chan2 flow2 = Inr (ConnectionEstablished id2 s2 d2 ti2 c2)"
  shows "id1 = id2"
  using assms by (auto simp: mac_tcp_event_def Let_def split: option.splits)

theorem mac_tcp_ids_collide_witness:
  "mac_tcp_event decimal_ip_text 1 (TcpFlow (Some (Address ''a.example'' 80)) None) =
     Inr (ConnectionEstablished (ConnectionId 2) (SockV4 0x7F000001 0) (SockV4 0 0) (LocalRedirector None None (Some (''a.example'', 80))) (Some 1)) \<and>
   mac_tcp_event decimal_ip_text 2 (TcpFlow (Some (Address ''b.example'' 81)) None) =
     Inr (ConnectionEstablished (ConnectionId 2) (SockV4 0x7F000001 0) (SockV4 0 0) (LocalRedirector None None (Some (''b.example'', 81))) (Some 2)) \<and>
   ConnectionId 2 = ConnectionId 2"
proof -
  have 1: "mac_tcp_event decimal_ip_text 1 (TcpFlow (Some (Address ''a.example'' 80)) None) =
     Inr (ConnectionEstablished (ConnectionId 2) (SockV4 0x7F000001 0) (SockV4 0 0) (LocalRedirector None None (Some (''a.example'', 80))) (Some 1))"
    and 2: "mac_tcp_event decimal_ip_text 2 (TcpFlow (Some (Address ''b.example'' 81)) None) =
     Inr (ConnectionEstablished (ConnectionId 2) (SockV4 0x7F000001 0) (SockV4 0 0) (LocalRedirector None None (Some (''b.example'', 81))) (Some 2))"
    by (simp_all add: mac_tcp_event_def address_try_from_def decimal_ip_text_def digit_val_def gen_tcp_def next_id_def)
  from mac_tcp_ids_collide [OF 1 2] 1 2 show ?thesis by simp
qed

subsection \<open>A UDP flow is bounded and has one destination\<close>

inductive mac_udp_reach :: "mac_udp_env \<Rightarrow> mac_udp \<Rightarrow> mac_out list \<Rightarrow> mac_udp \<Rightarrow> bool" for E st0 where
  mac_udp_start: "mac_udp_reach E st0 [] st0"
| mac_udp_next: "mac_udp_reach E st0 os st \<Longrightarrow> mac_udp_enabled i st \<Longrightarrow> mac_udp_body E i st = (os', Inr (Some st')) \<Longrightarrow>
    mac_udp_reach E st0 (os @ os') st'"

fun is_emit :: "mac_out \<Rightarrow> bool" where
  "is_emit (MacEffect (EmitEvent e)) = True"
| "is_emit _ = False"

lemma announce_cases:
  assumes "mac_udp_announce E dst st = (os, Inr st')"
  shows "mu_state st' = mu_state st \<and> mu_first_packet st' = None \<and> mu_remote_address st' = dst \<and>
     length (filter is_emit os) = (if mu_first_packet st = None then 0 else 1)"
  using assms by (auto simp: mac_udp_announce_def Let_def split: option.splits sum.splits if_splits)

lemma add_packet_len: "packet_queue_len (fst (add_packet d s)) \<le> Suc (packet_queue_len s)"
  by (auto simp: add_packet_def packet_queue_len_def split: option.splits)

lemma add_packet_silent: "filter is_emit (map MacEffect (snd (add_packet d s))) = []"
  by (auto simp: add_packet_def split: option.splits)

lemma add_reader_len: "add_reader tx s = Inr (s', es) \<Longrightarrow> packet_queue_len s' \<le> packet_queue_len s \<and> filter is_emit (map MacEffect es) = []"
  by (auto simp: add_reader_def packet_queue_len_def split: if_splits list.splits)

lemma mac_udp_body_inv:
  assumes "mac_udp_enabled i st" and "mac_udp_body E i st = (os, Inr (Some st'))" and "packet_queue_len (mu_state st) \<le> 10"
  shows "packet_queue_len (mu_state st') \<le> 10 \<and>
    length (filter is_emit os) + (if mu_first_packet st' = None then 0 else 1) = (if mu_first_packet st = None then 0 else 1)"
proof (cases i)
  case (MuFrame r)
  obtain frame data a dst where r: "r = Inr frame" "dec_udp_packet (mue_codec E) frame = Some (IpcUdpPacket data (Some a))"
    "address_try_from (mue_text E) a = Inr dst"
    using assms(2) MuFrame by (auto split: sum.splits option.splits ipc_udp_packet.splits)
  obtain os1 st1 where an: "mac_udp_announce E dst st = (os1, Inr st1)"
    and st': "st' = st1\<lparr>mu_state := fst (add_packet data (mu_state st1))\<rparr>"
    and os: "os = os1 @ map MacEffect (snd (add_packet data (mu_state st1)))"
    using assms(2) MuFrame r by (auto simp: run_bind_eq_Inr case_prod_beta Let_def)
  from announce_cases [OF an] have eq: "mu_state st1 = mu_state st" "mu_first_packet st1 = None"
    "length (filter is_emit os1) = (if mu_first_packet st = None then 0 else 1)" by auto
  have "packet_queue_len (mu_state st) < 10" using assms(1) MuFrame by simp
  then have "packet_queue_len (mu_state st') \<le> 10" using add_packet_len [of data "mu_state st"] eq(1) st' by simp
  then show ?thesis using eq os st' add_packet_silent [of data "mu_state st1"] by simp
next
  case (MuCommand c)
  show ?thesis
  proof (cases c)
    case (ReadData cid n tx)
    then obtain s es where ar: "add_reader tx (mu_state st) = Inr (s, es)"
      and st': "st' = st\<lparr>mu_state := s\<rparr>" and os: "os = map MacEffect es"
      using assms(2) MuCommand by (auto split: sum.splits)
    then show ?thesis using add_reader_len [OF ar] assms(3) by auto
  qed (use assms MuCommand in \<open>auto split: sum.splits if_splits prod.splits\<close>)
qed (use assms in simp)

text \<open>
  A UDP flow of the macOS source holds at most ten datagrams back, and announces its connection
  at most once, with the first datagram.
\<close>

theorem mac_udp_bounded:
  assumes "mac_udp_init t chan flow = Inr st0" and "mac_udp_reach E st0 os st"
  shows "packet_queue_len (mu_state st) \<le> 10 \<and> length (filter is_emit os) = (if mu_first_packet st = None then 1 else 0)"
  using assms(2)
proof induction
  case mac_udp_start
  then show ?case
    using assms(1) by (auto simp: mac_udp_init_def conn_default_def packet_queue_len_def res_bind_eq_Inr split: option.splits)
next
  case (mac_udp_next os st i os' st')
  then show ?case using mac_udp_body_inv [of i st E os' st'] by (auto split: if_splits)
qed

definition basic_mac :: mac_udp_env where
  "basic_mac = \<lparr>mue_codec = plain_codec, mue_text = decimal_ip_text, mue_send_event = (\<lambda>e. Inr ()), mue_send_frame = (\<lambda>b. True)\<rparr>"

theorem mac_udp_bounded_witness:
  "\<exists>st0 os st. mac_udp_init decimal_ip_text 1 (UdpFlow (Some (Address ''417'' 5353)) (Some (IpcTunnelInfo (Some 9) None))) = Inr st0 \<and>
     mac_udp_reach basic_mac st0 os st \<and> packet_queue_len (mu_state st) \<le> 10 \<and> length (filter is_emit os) = 1"
proof -
  let ?flow = "UdpFlow (Some (Address ''417'' 5353)) (Some (IpcTunnelInfo (Some 9) None))"
  let ?st0 = "\<lparr>mu_first_packet = Some (LocalRedirector (Some 9) None None, SockV4 17 5353, 1),
      mu_remote_address = SockV4 0 0, mu_state = conn_default\<rparr>"
  have addr: "address_try_from decimal_ip_text (Address ''417'' 5353) = Inr (SockV4 17 5353)"
    "address_try_from decimal_ip_text (Address ''48'' 53) = Inr (SockV4 8 53)"
    by (simp_all add: address_try_from_def decimal_ip_text_def digit_val_def)
  have init: "mac_udp_init decimal_ip_text 1 ?flow = Inr ?st0" by (simp add: mac_udp_init_def addr)
  obtain frame where f: "dec_udp_packet plain_codec frame = Some (IpcUdpPacket [7] (Some (Address ''48'' 53)))"
    using plain.udp_rt by blast
  have "\<exists>os st. mac_udp_body basic_mac (MuFrame (Inr frame)) ?st0 = (os, Inr (Some st)) \<and> mu_first_packet st = None"
    by (simp add: basic_mac_def f addr mac_udp_announce_def case_prod_beta)
  then obtain os st where run: "mac_udp_body basic_mac (MuFrame (Inr frame)) ?st0 = (os, Inr (Some st))" and "mu_first_packet st = None"
    by blast
  moreover have "mac_udp_reach basic_mac ?st0 ([] @ os) st"
    by (rule mac_udp_next [OF mac_udp_start _ run]) (simp add: packet_queue_len_def conn_default_def)
  ultimately show ?thesis using mac_udp_bounded [OF init, of basic_mac os st] init by auto
qed

end
