(* ===== verification/Contentviews.thy ===== *)
theory Contentviews
  imports Prelude
begin

text \<open>
  The content views of \<^verbatim>\<open>mitmproxy-contentviews\<close> that have logic of their own: the hex views
  (\<^verbatim>\<open>hex_stream.rs\<close>, \<^verbatim>\<open>hex_dump.rs\<close>), MsgPack (\<^verbatim>\<open>msgpack.rs\<close>) and the framing of
  gRPC (\<^verbatim>\<open>protobuf/view_grpc.rs\<close>).  The hex alphabet (data-encoding), the decompressors, YAML and
  MsgPack are parameters.
\<close>

subsection \<open>Binary data\<close>

text \<open>
  \<^verbatim>\<open>is_binary\<close>: more than 30 percent of the first 100 bytes are not printable.  The code divides
  two floats; with a denominator of at most 100 the rounded quotient compares with \<open>0.3\<close> as the exact
  one does, so the comparison is written on integers.
\<close>

definition unprintable :: "u8 \<Rightarrow> bool" where
  "unprintable b \<longleftrightarrow> b < 9 \<or> (13 < b \<and> b < 32) \<or> b > 126"

definition is_binary :: "bytes \<Rightarrow> bool" where
  "is_binary data =
     (if data = [] then False
      else 10 * length (filter unprintable (take 100 data)) > 3 * min (length data) 100)"

text \<open>Priorities in tenths.\<close>

definition hex_stream_priority :: "bytes \<Rightarrow> nat" where
  "hex_stream_priority data = (if is_binary data then 4 else 0)"

definition hex_dump_priority :: "bytes \<Rightarrow> nat" where
  "hex_dump_priority data = (if is_binary data then 5 else 0)"

definition msgpack_priority :: "string option \<Rightarrow> nat" where
  "msgpack_priority content_type =
     (if content_type = Some ''application/msgpack'' then 10
      else if content_type = Some ''application/x-msgpack'' then 10 else 0)"

definition grpc_priority :: "string option \<Rightarrow> nat" where
  "grpc_priority content_type =
     (if content_type = Some ''application/grpc'' then 10
      else if content_type = Some ''application/grpc+proto'' then 10
      else if content_type = Some ''application/prpc'' then 10 else 0)"

definition protobuf_priority :: "string option \<Rightarrow> nat" where
  "protobuf_priority content_type =
     (if content_type = Some ''application/x-protobuf'' then 10
      else if content_type = Some ''application/x-protobuffer'' then 10 else 0)"

text \<open>The name of a view (in ASCII) as an identifier.\<close>

definition ascii_lower :: "char \<Rightarrow> char" where
  "ascii_lower c = (let n = of_char c :: nat in if 65 \<le> n \<and> n \<le> 90 then char_of (n + 32) else c)"

definition instance_name :: "string \<Rightarrow> string" where
  "instance_name name = map (\<lambda>c. if c = CHR '' '' then CHR ''_'' else c) (map ascii_lower name)"

subsection \<open>Hex streams\<close>

record hex_codec =
  hexlower_encode :: "bytes \<Rightarrow> string"
  hexlower_permissive_decode :: "string \<Rightarrow> bytes option"

definition hex_prettify :: "hex_codec \<Rightarrow> bytes \<Rightarrow> string res" where
  "hex_prettify k data = Inr (hexlower_encode k data)"

definition trim_end_newlines :: "string \<Rightarrow> string" where
  "trim_end_newlines s = rev (dropWhile (\<lambda>c. c = CHR 0x0A \<or> c = CHR 0x0D) (rev s))"

definition hex_reencode :: "hex_codec \<Rightarrow> string \<Rightarrow> bytes res" where
  "hex_reencode k data =
     (let data = trim_end_newlines data in
      if length data mod 2 \<noteq> 0 then Inl (Failed ''Invalid hex string: uneven number of characters'')
      else case hexlower_permissive_decode k data of
        None \<Rightarrow> Inl (Failed ''Invalid hex string'')
      | Some b \<Rightarrow> Inr b)"

definition hex_digit :: "nat \<Rightarrow> char" where
  "hex_digit n = ''0123456789abcdef'' ! n"

definition hex_text :: "bytes \<Rightarrow> string" where
  "hex_text b = concat (map (\<lambda>x. [hex_digit (unat x div 16), hex_digit (unat x mod 16)]) b)"

definition hex_alphabet :: "char set" where
  "hex_alphabet = set ''0123456789abcdef''"

lemma hex_digit_alphabet: "n < 16 \<Longrightarrow> hex_digit n \<in> hex_alphabet"
  unfolding hex_alphabet_def hex_digit_def by (rule nth_mem) simp

lemma byte_div_16: "unat (x :: u8) div 16 < 16"
  using unsigned_less [of x, where 'a = nat] by auto

lemma byte_of_nibbles: "word_of_nat (16 * (unat (x :: u8) div 16) + unat x mod 16) = x"
  by (simp only: mult_div_mod_eq) simp

lemma hex_text_alphabet: "set (hex_text b) \<subseteq> hex_alphabet"
  by (induction b) (simp_all add: hex_text_def hex_digit_alphabet byte_div_16)

lemma length_hex_text [simp]: "length (hex_text b) = 2 * length b"
  by (induction b) (simp_all add: hex_text_def)

text \<open>The crate's documented behaviour: two lower-case digits per byte, and decoding inverts encoding.\<close>

locale hex_laws =
  fixes k :: hex_codec
  assumes encode_text: "hexlower_encode k b = hex_text b"
    and decode_encode: "hexlower_permissive_decode k (hexlower_encode k b) = Some b"

definition hex_value :: "char \<Rightarrow> nat option" where
  "hex_value c = map_of (zip ''0123456789abcdefABCDEF'' ([0..<16] @ [10..<16])) c"

fun hex_decode :: "string \<Rightarrow> bytes option" where
  "hex_decode [] = Some []"
| "hex_decode [c] = None"
| "hex_decode (c # d # s) =
     (case (hex_value c, hex_value d, hex_decode s) of
        (Some x, Some y, Some b) \<Rightarrow> Some (word_of_nat (16 * x + y) # b)
      | _ \<Rightarrow> None)"

definition ascii_hex :: hex_codec where
  "ascii_hex = \<lparr>hexlower_encode = hex_text, hexlower_permissive_decode = hex_decode\<rparr>"

lemma hex_value_digit:
  assumes "n < 16"
  shows "hex_value (hex_digit n) = Some n"
proof -
  have "list_all (\<lambda>n. hex_value (hex_digit n) = Some n) [0..<16]" by code_simp
  then show ?thesis using assms by (simp add: list_all_iff)
qed

lemma hex_decode_text: "hex_decode (hex_text b) = Some b"
  by (induction b) (simp_all add: hex_text_def hex_value_digit byte_div_16 byte_of_nibbles del: of_nat_add of_nat_mult)

interpretation ascii: hex_laws ascii_hex
  by unfold_locales (simp_all add: ascii_hex_def hex_decode_text)

subsection \<open>gRPC\<close>

text \<open>Decompression and the view of one protobuf message are parameters.\<close>

record grpc_env =
  ge_inflate :: "bytes \<Rightarrow> bytes res"
  ge_gunzip :: "bytes \<Rightarrow> bytes res"
  ge_prettify :: "bytes \<Rightarrow> string res"

definition grpc_decompress :: "grpc_env \<Rightarrow> string \<Rightarrow> bool \<Rightarrow> bytes \<Rightarrow> bytes res" where
  "grpc_decompress E encoding compressed proto =
     (if compressed then
        if encoding = ''deflate'' then ge_inflate E proto
        else if encoding = ''gzip'' then ge_gunzip E proto
        else if encoding = ''identity'' then Inr proto
        else Inl (Failed ''unsupported compression'')
      else Inr proto)"

text \<open>The loop over the length-prefixed messages.\<close>

function grpc_frames :: "grpc_env \<Rightarrow> string \<Rightarrow> bytes \<Rightarrow> string list res" where
  "grpc_frames E encoding data =
     (case data of
        [] \<Rightarrow> Inr []
      | b # _ \<Rightarrow>
          if b \<noteq> 0 \<and> b \<noteq> 1 then Inl (Failed ''invalid gRPC: first byte is not a boolean'')
          else if length data < 5 then Inl (Failed ''invalid gRPC: not enough bytes'')
          else
            let len = unat (be_word (take 4 (drop 1 data)) :: u32) in
            if length data < 5 + len then Inl (Failed ''Invalid gRPC: not enough data'')
            else
              res_bind (grpc_decompress E encoding (b = 1) (take len (drop 5 data))) (\<lambda>proto.
              res_bind (ge_prettify E proto) (\<lambda>s.
              res_bind (grpc_frames E encoding (drop (5 + len) data)) (\<lambda>ss. Inr (s # ss)))))"
  by pat_completeness auto
termination
  by (relation "measure (\<lambda>(E, encoding, data). length data)") auto

declare grpc_frames.simps [simp del]

definition grpc_prettify_with :: "grpc_env \<Rightarrow> string \<Rightarrow> bytes \<Rightarrow> string res" where
  "grpc_prettify_with E encoding data =
     res_bind (grpc_frames E encoding data) (\<lambda>protos. Inr (join_with ([CHR 0x0A] @ ''---'' @ [CHR 0x0A, CHR 0x0A]) protos))"

text \<open>
  \<^verbatim>\<open>prettify\<close>: the definition found for the message is tried first (\<open>with_def\<close>), then none.
\<close>

definition prettify_best :: "('d option) res \<Rightarrow> ('d \<Rightarrow> string res) \<Rightarrow> string res \<Rightarrow> string res" where
  "prettify_best found with_def without =
     res_bind found (\<lambda>proto_def.
       case proto_def of
         None \<Rightarrow> without
       | Some d \<Rightarrow> (case with_def d of Inr ret \<Rightarrow> Inr ret | Inl e \<Rightarrow> without))"

definition grpc_frame :: "bytes \<Rightarrow> bytes" where
  "grpc_frame proto = 0 # be_bytes 4 (word_of_nat (length proto) :: u32) @ proto"

text \<open>\<^verbatim>\<open>reencode\<close>: the documents of the YAML stream, each re-encoded; the first error ends it.\<close>

fun grpc_reencode :: "('y \<Rightarrow> bytes res) \<Rightarrow> 'y res list \<Rightarrow> bytes res" where
  "grpc_reencode reencode_yaml [] = Inr []"
| "grpc_reencode reencode_yaml (document # documents) =
     res_bind document (\<lambda>value.
     res_bind (reencode_yaml value) (\<lambda>proto.
     res_bind (grpc_reencode reencode_yaml documents) (\<lambda>ret. Inr (grpc_frame proto @ ret))))"

subsection \<open>MsgPack\<close>

text \<open>MsgPack is shown as YAML and back; both formats are libraries (serde).\<close>

definition msgpack_prettify :: "(bytes \<Rightarrow> 'y res) \<Rightarrow> ('y \<Rightarrow> string res) \<Rightarrow> bytes \<Rightarrow> string res" where
  "msgpack_prettify from_slice to_yaml data = res_bind (from_slice data) to_yaml"

definition msgpack_reencode :: "(string \<Rightarrow> 'y res) \<Rightarrow> ('y \<Rightarrow> bytes res) \<Rightarrow> string \<Rightarrow> bytes res" where
  "msgpack_reencode from_yaml write_named data = res_bind (from_yaml data) write_named"

subsection \<open>Properties\<close>

lemma trim_end_append: "set nl \<subseteq> {CHR 0x0A, CHR 0x0D} \<Longrightarrow> trim_end_newlines (s @ nl) = trim_end_newlines s"
  by (subst trim_end_newlines_def, simp, subst dropWhile_append2) (auto simp: trim_end_newlines_def)

lemma trim_end_hex: "set s \<subseteq> hex_alphabet \<Longrightarrow> trim_end_newlines s = s"
  by (cases s rule: rev_cases) (auto simp: trim_end_newlines_def hex_alphabet_def)

text \<open>
  The hex view can be edited and written back: whatever bytes are shown, re-encoding the text
  gives them again, also when an editor has added line breaks at the end; a text with an odd number of
  characters is refused.
\<close>

theorem hex_roundtrip:
  assumes "hex_laws k" and "hex_prettify k data = Inr text" and "set nl \<subseteq> {CHR 0x0A, CHR 0x0D}"
  shows "hex_reencode k (text @ nl) = Inr data \<and> (\<exists>e. hex_reencode k (CHR ''0'' # text @ nl) = Inl e)"
proof -
  have t: "text = hexlower_encode k data" using assms(2) by (simp add: hex_prettify_def)
  have al: "set text \<subseteq> hex_alphabet" and len: "length text = 2 * length data"
    using hex_text_alphabet [of data] by (simp_all add: t hex_laws.encode_text [OF assms(1)])
  have "trim_end_newlines (text @ nl) = text"
    by (simp only: trim_end_append [OF assms(3)] trim_end_hex [OF al])
  then have "hex_reencode k (text @ nl) = Inr data"
    using hex_laws.decode_encode [OF assms(1), of data] t len by (simp add: hex_reencode_def)
  moreover have "trim_end_newlines ((CHR ''0'' # text) @ nl) = CHR ''0'' # text"
    using trim_end_append [OF assms(3)] trim_end_hex [of "CHR ''0'' # text"] al by (simp add: hex_alphabet_def del: append_Cons)
  ultimately show ?thesis using len by (simp add: hex_reencode_def)
qed

theorem hex_roundtrip_witness:
  "hex_prettify ascii_hex [0x66, 0x6F] = Inr ''666f'' \<and> hex_reencode ascii_hex (''666f'' @ [CHR 0x0D, CHR 0x0A]) = Inr [0x66, 0x6F]"
proof -
  have "hex_prettify ascii_hex [0x66, 0x6F] = Inr ''666f''" by (simp add: hex_prettify_def ascii_hex_def hex_text_def hex_digit_def)
  with hex_roundtrip [OF ascii.hex_laws_axioms, of "[0x66, 0x6F]" "''666f''" "[CHR 0x0D, CHR 0x0A]"] show ?thesis by auto
qed

lemma grpc_frames_Nil [simp]: "grpc_frames E encoding [] = Inr []"
  by (simp add: grpc_frames.simps)

lemma grpc_frames_frame:
  assumes "length proto < 2 ^ 32"
  shows "grpc_frames E encoding (grpc_frame proto @ rest) =
     res_bind (ge_prettify E proto) (\<lambda>s. res_bind (grpc_frames E encoding rest) (\<lambda>ss. Inr (s # ss)))"
proof -
  let ?data = "grpc_frame proto @ rest"
  have hd: "?data = 0 # be_bytes 4 (word_of_nat (length proto) :: u32) @ proto @ rest" by (simp add: grpc_frame_def)
  have "unat (be_word (take 4 (drop 1 ?data)) :: u32) = length proto"
    using assms unfolding hd by (simp add: unat_of_nat take_bit_nat_def)
  moreover have "take (length proto) (drop 5 ?data) = proto" "drop (5 + length proto) ?data = rest"
    unfolding hd by (simp_all add: drop_Cons')
  moreover have "5 + length proto \<le> length ?data" unfolding hd by simp
  ultimately show ?thesis
    by (subst grpc_frames.simps) (simp add: hd grpc_decompress_def)
qed

text \<open>
  C30. What the gRPC view writes it can read: a stream of any number of messages, each shorter than
  4 GiB, re-encoded from its documents, is split at exactly the same boundaries and shown as the view
  of each message in order.
\<close>

theorem grpc_roundtrip:
  assumes "grpc_reencode reenc (map Inr docs) = Inr data" and "map reenc docs = map Inr protos"
    and "\<forall>p\<in>set protos. length p < 2 ^ 32" and "map (ge_prettify E) protos = map Inr texts"
  shows "grpc_frames E encoding data = Inr texts"
  using assms
proof (induction docs arbitrary: data protos texts)
  case (Cons d docs)
  obtain p ps where ps: "protos = p # ps" "reenc d = Inr p" "map reenc docs = map Inr ps" using Cons.prems(2) by auto
  obtain t ts where ts: "texts = t # ts" "ge_prettify E p = Inr t" "map (ge_prettify E) ps = map Inr ts"
    using Cons.prems(4) ps(1) by auto
  obtain rest where rest: "grpc_reencode reenc (map Inr docs) = Inr rest" "data = grpc_frame p @ rest"
    using Cons.prems(1) ps(2) by (auto simp: res_bind_eq_Inr)
  have "grpc_frames E encoding rest = Inr ts" using Cons.IH [OF rest(1) ps(3) _ ts(3)] Cons.prems(3) ps(1) by simp
  then show ?case using grpc_frames_frame [of p E encoding rest] Cons.prems(3) ps(1) ts(1,2) rest(2) by simp
qed simp

theorem grpc_roundtrip_witness:
  "grpc_frames \<lparr>ge_inflate = Inr, ge_gunzip = Inr, ge_prettify = (\<lambda>p. Inr (replicate (length p) (CHR ''x'')))\<rparr> ''gzip''
     ([0, 0, 0, 0, 1, 0x41] @ [0, 0, 0, 0, 0]) = Inr [''x'', '''']"
proof -
  have "grpc_reencode (\<lambda>p. Inr p) (map Inr [[0x41], []]) = Inr ([0, 0, 0, 0, 1, 0x41] @ [0, 0, 0, 0, 0])"
    by (simp add: grpc_frame_def eval_nat_numeral)
  from grpc_roundtrip [OF this, of "[[0x41], []]" "\<lparr>ge_inflate = Inr, ge_gunzip = Inr, ge_prettify = (\<lambda>p. Inr (replicate (length p) (CHR ''x'')))\<rparr>"
      "[''x'', '''']" "''gzip''"]
  show ?thesis by simp
qed

end
