(* ===== verification/Protobuf_View.thy ===== *)
theory Protobuf_View
  imports Contentviews
begin

text \<open>
  The protobuf view of \<^verbatim>\<open>mitmproxy-contentviews/src/protobuf\<close>: a message is turned into YAML
  (\<^verbatim>\<open>proto_to_yaml.rs\<close>), numbers get a readable form (\<^verbatim>\<open>yaml_to_pretty.rs\<close>), and edited YAML is
  turned back into a message (\<^verbatim>\<open>reencode.rs\<close>).  Message descriptors and the serialiser are
  rust-protobuf's, floats are abstract (\<open>'f\<close>); both are parameters.
\<close>

subsection \<open>YAML values\<close>

text \<open>A number is an \<^verbatim>\<open>u64\<close>, a negative \<^verbatim>\<open>i64\<close> (as a word) or a float.\<close>

datatype 'f number = PosInt u64 | NegInt u64 | Float 'f

fun as_u64 :: "'f number \<Rightarrow> u64 option" where
  "as_u64 (PosInt n) = Some n"
| "as_u64 _ = None"

fun as_i64 :: "'f number \<Rightarrow> u64 option" where
  "as_i64 (PosInt n) = (if n < 2 ^ 63 then Some n else None)"
| "as_i64 (NegInt n) = Some n"
| "as_i64 (Float f) = None"

definition number_from_i32 :: "u32 \<Rightarrow> 'f number" where
  "number_from_i32 x = (if x < 2 ^ 31 then PosInt (ucast x) else NegInt (scast x))"

definition number_from_i64 :: "u64 \<Rightarrow> 'f number" where
  "number_from_i64 x = (if x < 2 ^ 63 then PosInt x else NegInt x)"

datatype 'f yaml =
    YNull
  | YBool bool
  | YNumber "'f number"
  | YString string
  | YSeq "'f yaml list"
  | YMap "('f yaml \<times> 'f yaml) list"
  | YTagged string "'f yaml"

definition BINARY :: string where "BINARY = ''binary''"
definition VARINT :: string where "VARINT = ''varint''"
definition ZIGZAG :: string where "ZIGZAG = ''sint''"
definition FIXED32 :: string where "FIXED32 = ''fixed32''"
definition FIXED64 :: string where "FIXED64 = ''fixed64''"

lemma tags_distinct [simp]:
  "VARINT \<noteq> BINARY" "VARINT \<noteq> FIXED32" "VARINT \<noteq> FIXED64" "VARINT \<noteq> ZIGZAG"
  "FIXED32 \<noteq> BINARY" "FIXED64 \<noteq> BINARY" "FIXED64 \<noteq> FIXED32" "ZIGZAG \<noteq> BINARY" "ZIGZAG \<noteq> FIXED32" "ZIGZAG \<noteq> FIXED64"
  by (simp_all add: BINARY_def VARINT_def ZIGZAG_def FIXED32_def FIXED64_def)

subsection \<open>Zigzag numbers\<close>

definition encode_zigzag64 :: "u64 \<Rightarrow> u64" where
  "encode_zigzag64 n = push_bit 1 n XOR signed_drop_bit 63 n"

definition decode_zigzag64 :: "u64 \<Rightarrow> u64" where
  "decode_zigzag64 n = drop_bit 1 n XOR (- (n AND 1))"

subsection \<open>YAML to protobuf\<close>

datatype unknown_value = Fixed32 u32 | Fixed64 u64 | Varint u64 | LengthDelimited bytes

datatype pb_type = TyFixed64 | TySfixed64 | TyDouble | TyFixed32 | TySfixed32 | TyFloat | TyUint64 | TyBytes | TyString | TyMessage | TyOther

text \<open>
  A descriptor \<open>'d\<close>: numbers of named fields, types of numbered fields, the descriptor of a message
  field, and the serialiser of a message that holds the given unknown fields.
\<close>

record ('f, 'd) pb_env =
  pe_field_by_name :: "'d \<Rightarrow> string \<Rightarrow> u32 option"
  pe_field_type :: "'d \<Rightarrow> u32 \<Rightarrow> pb_type option"
  pe_child :: "'d \<Rightarrow> u32 \<Rightarrow> 'd option"
  pe_empty :: 'd
  pe_write :: "'d \<Rightarrow> (u32 \<times> unknown_value) list \<Rightarrow> bytes res"
  pe_f32_bits :: "'f \<Rightarrow> u32"
  pe_f64_bits :: "'f \<Rightarrow> u64"

text \<open>\<^verbatim>\<open>i32::from_str\<close>.\<close>

definition parse_i32 :: "string \<Rightarrow> u32 option" where
  "parse_i32 s =
     (case strip_prefix (CHR ''-'') s of
        Some ds \<Rightarrow>
          if ds = [] then None
          else (case parse_digits 0 ds of
                  Some n \<Rightarrow> if n \<le> 2 ^ 31 then Some (- word_of_nat n) else None
                | None \<Rightarrow> None)
      | None \<Rightarrow> map_option word_of_nat (parse_uint (2 ^ 31 - 1) s))"

text \<open>
  The \<^verbatim>\<open>!binary\<close> case: \<^verbatim>\<open>value[i..i + 2]\<close> for every even \<open>i\<close>, each parsed by
  \<^verbatim>\<open>u8::from_str_radix\<close> (which accepts a plus sign).  Slicing past the end, or inside a character,
  panics; the first invalid pair ends the conversion.
\<close>

definition is_continuation :: "char \<Rightarrow> bool" where
  "is_continuation c \<longleftrightarrow> 128 \<le> (of_char c :: nat) \<and> (of_char c :: nat) < 192"

definition u8_from_hex :: "char \<Rightarrow> char \<Rightarrow> u8 option" where
  "u8_from_hex c d =
     (if c = CHR ''+'' then map_option word_of_nat (hex_value d)
      else case (hex_value c, hex_value d) of (Some x, Some y) \<Rightarrow> Some (word_of_nat (16 * x + y)) | _ \<Rightarrow> None)"

fun decode_binary :: "string \<Rightarrow> bytes res" where
  "decode_binary [] = Inr []"
| "decode_binary [c] = Inl (Panicked ''byte index is out of bounds'')"
| "decode_binary (c # d # s) =
     (if is_continuation c \<or> (case s of [] \<Rightarrow> False | e # _ \<Rightarrow> is_continuation e)
      then Inl (Panicked ''byte index is not a char boundary'')
      else case u8_from_hex c d of
        None \<Rightarrow> Inl (Failed ''Invalid hex string'')
      | Some b \<Rightarrow> res_bind (decode_binary s) (\<lambda>bs. Inr (b # bs)))"

definition fixed32_value :: "('f, 'd) pb_env \<Rightarrow> 'f number \<Rightarrow> u32" where
  "fixed32_value E n =
     (case as_u64 n of
        Some x \<Rightarrow> ucast x
      | None \<Rightarrow> (case as_i64 n of Some x \<Rightarrow> ucast x | None \<Rightarrow> (case n of Float f \<Rightarrow> pe_f32_bits E f | _ \<Rightarrow> 0)))"

definition fixed64_value :: "('f, 'd) pb_env \<Rightarrow> 'f number \<Rightarrow> u64" where
  "fixed64_value E n =
     (case as_u64 n of
        Some x \<Rightarrow> x
      | None \<Rightarrow> (case as_i64 n of Some x \<Rightarrow> x | None \<Rightarrow> (case n of Float f \<Rightarrow> pe_f64_bits E f | _ \<Rightarrow> 0)))"

text \<open>\<open>as_u64\<close>, \<open>as_i64\<close> and \<open>as_f64\<close> together cover every number, so the last cases above do not occur.\<close>

definition int_value :: "('f, 'd) pb_env \<Rightarrow> 'f number \<Rightarrow> pb_type option \<Rightarrow> unknown_value" where
  "int_value E n field =
     (if field \<in> {Some TyFixed64, Some TySfixed64, Some TyDouble} then Fixed64 (fixed64_value E n)
      else if field \<in> {Some TyFixed32, Some TySfixed32, Some TyFloat} then Fixed32 (fixed32_value E n)
      else
        (case as_u64 n of
           Some x \<Rightarrow> Varint x
         | None \<Rightarrow> (case as_i64 n of Some x \<Rightarrow> Varint x | None \<Rightarrow> Fixed64 (fixed64_value E n))))"

text \<open>A key of the mapping as a field number.\<close>

definition field_key :: "('f, 'd) pb_env \<Rightarrow> 'd \<Rightarrow> 'f yaml \<Rightarrow> u32 res" where
  "field_key E d key =
     (case key of
        YString s \<Rightarrow>
          (case pe_field_by_name E d s of
             Some n \<Rightarrow> Inr n
           | None \<Rightarrow> (case parse_i32 s of Some n \<Rightarrow> Inr n | None \<Rightarrow> Inl (Failed ''Unknown protobuf field key'')))
      | YNumber n \<Rightarrow> (case as_i64 n of Some x \<Rightarrow> Inr (ucast x) | None \<Rightarrow> Inl (Failed ''Invalid protobuf field number''))
      | _ \<Rightarrow> Inl (Failed ''Unexpected key''))"

text \<open>
  \<^verbatim>\<open>add_field\<close> and \<^verbatim>\<open>merge_yaml_into_message\<close>: the unknown fields they add, in order.
\<close>

function add_field :: "('f, 'd) pb_env \<Rightarrow> 'd \<Rightarrow> u32 \<Rightarrow> 'f yaml \<Rightarrow> (u32 \<times> unknown_value) list res"
  and add_fields :: "('f, 'd) pb_env \<Rightarrow> 'd \<Rightarrow> u32 \<Rightarrow> 'f yaml list \<Rightarrow> (u32 \<times> unknown_value) list res"
  and merge_mapping :: "('f, 'd) pb_env \<Rightarrow> 'd \<Rightarrow> ('f yaml \<times> 'f yaml) list \<Rightarrow> (u32 \<times> unknown_value) list res" where
  "add_field E d num YNull = Inr []"
| "add_field E d num (YSeq vs) = add_fields E d num vs"
| "add_field E d num (YTagged tag v) =
     (if tag = BINARY then
        (case v of YString s \<Rightarrow> res_bind (decode_binary s) (\<lambda>b. Inr [(num, LengthDelimited b)])
         | _ \<Rightarrow> Inl (Failed ''Binary data is not a string''))
      else if tag = FIXED32 then
        (case v of YNumber n \<Rightarrow> Inr [(num, Fixed32 (fixed32_value E n))] | _ \<Rightarrow> Inl (Failed ''!fixed32 is not a number''))
      else if tag = FIXED64 then
        (case v of YNumber n \<Rightarrow> Inr [(num, Fixed64 (fixed64_value E n))] | _ \<Rightarrow> Inl (Failed ''!fixed64 is not a number''))
      else if tag = ZIGZAG then
        (case v of
           YNumber n \<Rightarrow> (case as_i64 n of Some x \<Rightarrow> Inr [(num, Varint (encode_zigzag64 x))]
                          | None \<Rightarrow> Inl (Failed ''!sint is not an integer''))
         | _ \<Rightarrow> Inl (Failed ''!sint is not a number''))
      else add_field E d num v)"
| "add_field E d num (YBool b) = Inr [(num, Varint (if b then 1 else 0))]"
| "add_field E d num (YNumber n) = Inr [(num, int_value E n (pe_field_type E d num))]"
| "add_field E d num (YString s) = Inr [(num, LengthDelimited (as_bytes s))]"
| "add_field E d num (YMap m) =
     (let child = (case pe_child E d num of Some c \<Rightarrow> c | None \<Rightarrow> pe_empty E) in
      res_bind (merge_mapping E child m) (\<lambda>fields.
      res_bind (pe_write E child fields) (\<lambda>val. Inr [(num, LengthDelimited val)])))"
| "add_fields E d num [] = Inr []"
| "add_fields E d num (v # vs) =
     res_bind (add_field E d num v) (\<lambda>fs. res_bind (add_fields E d num vs) (\<lambda>gs. Inr (fs @ gs)))"
| "merge_mapping E d [] = Inr []"
| "merge_mapping E d ((key, v) # m) =
     res_bind (field_key E d key) (\<lambda>num.
     res_bind (add_field E d num v) (\<lambda>fs. res_bind (merge_mapping E d m) (\<lambda>gs. Inr (fs @ gs))))"
  by pat_completeness auto
termination
  by (relation "measure (\<lambda>x. case x of
        Inl (E, d, num, v) \<Rightarrow> size v
      | Inr (Inl (E, d, num, vs)) \<Rightarrow> size_list size vs
      | Inr (Inr (E, d, m)) \<Rightarrow> size_list (size_prod size size) m)") auto

definition reencode_yaml :: "('f, 'd) pb_env \<Rightarrow> 'd \<Rightarrow> 'f yaml \<Rightarrow> bytes res" where
  "reencode_yaml E d v =
     (case v of
        YMap m \<Rightarrow> res_bind (merge_mapping E d m) (pe_write E d)
      | _ \<Rightarrow> Inl (Failed ''YAML is not a mapping''))"

subsection \<open>Protobuf to YAML\<close>

text \<open>What reflection yields: the fields of a message with their values.\<close>

datatype 'f rvalue =
    RU32 u32 | RU64 u64 | RI32 u32 | RI64 u64 | RFloat 'f | RBool bool | RString string | RBytes bytes
  | REnum "string option" u32
  | RMessage "'f rfield list"
and 'f rfield = RField (rf_name: string) (rf_number: u32) (rf_type: pb_type) (rf_value: "'f rfvalue")
and 'f rfvalue = ROptional "'f rvalue option" | RRepeated "'f rvalue list" | RMap "('f rvalue \<times> 'f rvalue) list"

definition tag_number :: "'f number \<Rightarrow> pb_type \<Rightarrow> bool \<Rightarrow> 'f yaml" where
  "tag_number number field_type is_unknown =
     (if \<not> is_unknown then YNumber number
      else if field_type = TyUint64 then YTagged VARINT (YNumber number)
      else if field_type = TyFixed64 then YTagged FIXED64 (YNumber number)
      else if field_type = TyFixed32 then YTagged FIXED32 (YNumber number)
      else YNumber number)"

definition is_unknown_field :: "string \<Rightarrow> bool" where
  "is_unknown_field name = starts_with name ''unknown_field_''"

function value_to_yaml :: "hex_codec \<Rightarrow> 'f rvalue \<Rightarrow> pb_type \<Rightarrow> bool \<Rightarrow> 'f yaml"
  and fields_to_yaml :: "hex_codec \<Rightarrow> 'f rfield list \<Rightarrow> ('f yaml \<times> 'f yaml) list"
  and fvalue_to_yaml :: "hex_codec \<Rightarrow> 'f rfvalue \<Rightarrow> pb_type \<Rightarrow> bool \<Rightarrow> 'f yaml option"
  and values_to_yaml :: "hex_codec \<Rightarrow> 'f rvalue list \<Rightarrow> pb_type \<Rightarrow> bool \<Rightarrow> 'f yaml list"
  and pairs_to_yaml :: "hex_codec \<Rightarrow> ('f rvalue \<times> 'f rvalue) list \<Rightarrow> pb_type \<Rightarrow> bool \<Rightarrow> ('f yaml \<times> 'f yaml) list" where
  "value_to_yaml k (RU32 x) ty u = tag_number (PosInt (ucast x)) ty u"
| "value_to_yaml k (RU64 x) ty u = tag_number (PosInt x) ty u"
| "value_to_yaml k (RI32 x) ty u = YNumber (number_from_i32 x)"
| "value_to_yaml k (RI64 x) ty u = YNumber (number_from_i64 x)"
| "value_to_yaml k (RFloat x) ty u = YNumber (Float x)"
| "value_to_yaml k (RBool x) ty u = YBool x"
| "value_to_yaml k (RString x) ty u = YString x"
| "value_to_yaml k (RBytes x) ty u = YTagged BINARY (YString (hexlower_encode k x))"
| "value_to_yaml k (REnum name i) ty u =
     (case name of Some n \<Rightarrow> YString n | None \<Rightarrow> YNumber (number_from_i32 i))"
| "value_to_yaml k (RMessage fs) ty u = YMap (fields_to_yaml k fs)"
| "fields_to_yaml k [] = []"
| "fields_to_yaml k (RField name num ty v # fs) =
     (let u = is_unknown_field name;
          key = (if u then YNumber (number_from_i32 num) else YString name)
      in case fvalue_to_yaml k v ty u of
           None \<Rightarrow> fields_to_yaml k fs
         | Some y \<Rightarrow> (key, y) # fields_to_yaml k fs)"
| "fvalue_to_yaml k (ROptional None) ty u = None"
| "fvalue_to_yaml k (ROptional (Some x)) ty u = Some (value_to_yaml k x ty u)"
| "fvalue_to_yaml k (RRepeated xs) ty u = (if xs = [] then None else Some (YSeq (values_to_yaml k xs ty u)))"
| "fvalue_to_yaml k (RMap m) ty u = (if m = [] then None else Some (YMap (pairs_to_yaml k m ty u)))"
| "values_to_yaml k [] ty u = []"
| "values_to_yaml k (x # xs) ty u = value_to_yaml k x ty u # values_to_yaml k xs ty u"
| "pairs_to_yaml k [] ty u = []"
| "pairs_to_yaml k ((a, b) # m) ty u = (value_to_yaml k a ty u, value_to_yaml k b ty u) # pairs_to_yaml k m ty u"
  by pat_completeness auto
termination
  by (relation "measure (\<lambda>x. case x of
        Inl (Inl (k, v, ty, u)) \<Rightarrow> size v
      | Inl (Inr (k, fs)) \<Rightarrow> size_list size fs
      | Inr (Inl (k, v, ty, u)) \<Rightarrow> size v
      | Inr (Inr (Inl (k, xs, ty, u))) \<Rightarrow> size_list size xs
      | Inr (Inr (Inr (k, m, ty, u))) \<Rightarrow> size_list (size_prod size size) m)") auto

definition message_to_yaml :: "hex_codec \<Rightarrow> 'f rfield list \<Rightarrow> 'f yaml" where
  "message_to_yaml k fs = YMap (fields_to_yaml k fs)"

subsection \<open>Readable numbers\<close>

text \<open>
  \<^verbatim>\<open>NumReprs\<close>: the representation with the shortest type name, then the shortest text, comes
  first (the first of several), the others follow as a comment.
\<close>

fun min_repr :: "(string \<times> string) \<Rightarrow> (string \<times> string) list \<Rightarrow> string \<times> string" where
  "min_repr m [] = m"
| "min_repr m ((t, v) # rs) =
     (if length t < length (fst m) \<or> (length t = length (fst m) \<and> length v < length (snd m))
      then min_repr (t, v) rs else min_repr m rs)"

definition show_reprs :: "(string \<times> string) list \<Rightarrow> string" where
  "show_reprs rs =
     (let (min_typ, min_val) = min_repr (hd rs) (tl rs);
          others = filter (\<lambda>(t, v). t \<noteq> min_typ) rs
      in min_val @
         (case others of
            [] \<Rightarrow> []
          | (t, v) # rest \<Rightarrow> ''  # '' @ t @ '': '' @ v @ concat (map (\<lambda>(t, v). '', '' @ t @ '': '' @ v) rest)))"

definition show_int :: "int \<Rightarrow> string" where
  "show_int i = (if i < 0 then CHR ''-'' # show_nat (nat (- i)) else show_nat (nat i))"

text \<open>The replacement of a \<^verbatim>\<open>!varint\<close> number.\<close>

definition varint_reprs :: "u64 \<Rightarrow> (string \<times> string) list" where
  "varint_reprs value =
     (''u64'', show_nat (unat value)) #
     (if 2 ^ 63 \<le> value then [(''i64'', show_int (sint value))]
      else [(''!sint'', show_int (sint (decode_zigzag64 value)))])"

definition varint_text :: "u64 \<Rightarrow> string" where
  "varint_text value = show_reprs (varint_reprs value)"

text \<open>
  The replacement of the \<^verbatim>\<open>!fixed32\<close> and \<^verbatim>\<open>!fixed64\<close> numbers; \<open>float\<close> is the formatted float,
  if it is shown.
\<close>

definition fixed32_text :: "(u32 \<Rightarrow> string option) \<Rightarrow> u32 \<Rightarrow> string" where
  "fixed32_text float value =
     ''!fixed32 '' @ show_reprs
       ((''u32'', show_nat (unat value)) # (case float value of Some f \<Rightarrow> [(''f32'', f)] | None \<Rightarrow> []) @
        (if 2 ^ 31 \<le> value then [(''i32'', show_int (sint value))] else []))"

definition fixed64_text :: "(u64 \<Rightarrow> string option) \<Rightarrow> u64 \<Rightarrow> string" where
  "fixed64_text float value =
     ''!fixed64 '' @ show_reprs
       ((''u64'', show_nat (unat value)) # (case float value of Some f \<Rightarrow> [(''f64'', f)] | None \<Rightarrow> []) @
        (if 2 ^ 63 \<le> value then [(''i64'', show_int (sint value))] else []))"

text \<open>Formatted floats get a fractional part.\<close>

definition format_float :: "string \<Rightarrow> string" where
  "format_float ret = (if str_contains ret ''.'' then ret else ret @ ''.0'')"

subsection \<open>What the readable numbers stand for\<close>

text \<open>
  How an integer is printed, and a text that is such an integer, alone or with a comment behind it: what
  YAML reads of it is the integer.
\<close>

fun number_text :: "'f number \<Rightarrow> string" where
  "number_text (PosInt n) = show_nat (unat n)"
| "number_text (NegInt n) = show_int (sint n)"
| "number_text (Float f) = []"

definition shows_integer :: "string \<Rightarrow> 'f number \<Rightarrow> bool" where
  "shows_integer s n \<longleftrightarrow> (\<forall>f. n \<noteq> Float f) \<and>
     (s = number_text n \<or> (\<exists>comment. s = number_text n @ ''  # '' @ comment))"

lemma shows_integerI:
  "shows_integer (number_text (PosInt n)) (PosInt n :: 'f number)" "shows_integer (number_text (NegInt n)) (NegInt n :: 'f number)"
  "shows_integer (number_text (PosInt n) @ ''  # '' @ c) (PosInt n :: 'f number)"
  "shows_integer (number_text (NegInt n) @ ''  # '' @ c) (NegInt n :: 'f number)"
  by (auto simp: shows_integer_def)

lemma varint_text_shows: "\<exists>n :: 'f number. shows_integer (varint_text v) n \<and> int_value E n None = Varint v"
proof (cases "2 ^ 63 \<le> v \<and> length (show_int (sint v)) < length (show_nat (unat v))")
  case True
  then have "varint_text v = number_text (NegInt v :: 'f number) @ ''  # '' @ ''u64: '' @ show_nat (unat v)"
    by (simp add: varint_text_def varint_reprs_def show_reprs_def)
  then have "shows_integer (varint_text v) (NegInt v :: 'f number)" by (simp only: shows_integerI)
  then show ?thesis by (intro exI [of _ "NegInt v"]) (simp add: int_value_def)
next
  case False
  then have "\<exists>c. varint_text v = number_text (PosInt v :: 'f number) @ ''  # '' @ c"
    by (auto simp: varint_text_def varint_reprs_def show_reprs_def)
  then have "shows_integer (varint_text v) (PosInt v :: 'f number)" by (auto simp: shows_integer_def)
  then show ?thesis by (intro exI [of _ "PosInt v"]) (simp add: int_value_def)
qed

lemma sint_scast_u32: "sint (scast (v :: u32) :: u64) = sint v"
  by (simp add: sint_up_scast is_up)

lemma ucast_scast_u32: "ucast (scast (v :: u32) :: u64) = v"
  by (rule bit_word_eqI) (auto simp: bit_ucast_iff bit_signed_iff dest: bit_imp_le_length)

lemma ucast_ucast_u32: "ucast (ucast (n :: u32) :: u64) = n"
  by (rule bit_word_eqI) (simp add: bit_ucast_iff)

lemma unat_ucast_u32: "unat (ucast (v :: u32) :: u64) = unat v"
  using unsigned_less [of v, where 'a = nat] by (simp add: unsigned_ucast_eq take_bit_nat_eq_self)

lemma fixed32_text_shows:
  assumes "float v = None"
  shows "\<exists>s (n :: 'f number). fixed32_text float v = ''!fixed32 '' @ s \<and> shows_integer s n \<and> fixed32_value E n = v"
proof (cases "2 ^ 31 \<le> v \<and> length (show_int (sint v)) < length (show_nat (unat v))")
  case True
  let ?n = "NegInt (scast v) :: 'f number"
  from True assms have "fixed32_text float v = ''!fixed32 '' @ number_text ?n @ ''  # '' @ ''u32: '' @ show_nat (unat v)"
    by (simp add: fixed32_text_def show_reprs_def sint_scast_u32)
  moreover have "fixed32_value E ?n = v" by (simp add: fixed32_value_def ucast_scast_u32)
  ultimately show ?thesis using shows_integerI(4) by blast
next
  case False
  let ?n = "PosInt (ucast v) :: 'f number"
  from False assms have "fixed32_text float v = ''!fixed32 '' @ number_text ?n \<or>
      (\<exists>c. fixed32_text float v = ''!fixed32 '' @ number_text ?n @ ''  # '' @ c)"
    by (auto simp: fixed32_text_def show_reprs_def unat_ucast_u32)
  moreover have "fixed32_value E ?n = v" by (simp add: fixed32_value_def ucast_ucast_u32)
  ultimately show ?thesis using shows_integerI(1,3) by metis
qed

lemma fixed64_text_shows:
  assumes "float v = None"
  shows "\<exists>s (n :: 'f number). fixed64_text float v = ''!fixed64 '' @ s \<and> shows_integer s n \<and> fixed64_value E n = v"
proof (cases "2 ^ 63 \<le> v \<and> length (show_int (sint v)) < length (show_nat (unat v))")
  case True
  let ?n = "NegInt v :: 'f number"
  from True assms have "fixed64_text float v = ''!fixed64 '' @ number_text ?n @ ''  # '' @ ''u64: '' @ show_nat (unat v)"
    by (simp add: fixed64_text_def show_reprs_def)
  moreover have "fixed64_value E ?n = v" by (simp add: fixed64_value_def)
  ultimately show ?thesis using shows_integerI(4) by blast
next
  case False
  let ?n = "PosInt v :: 'f number"
  from False assms have "fixed64_text float v = ''!fixed64 '' @ number_text ?n \<or>
      (\<exists>c. fixed64_text float v = ''!fixed64 '' @ number_text ?n @ ''  # '' @ c)"
    by (auto simp: fixed64_text_def show_reprs_def)
  moreover have "fixed64_value E ?n = v" by (simp add: fixed64_value_def)
  ultimately show ?thesis using shows_integerI(1,3) by metis
qed

subsection \<open>Zigzag is a bijection\<close>

lemma zigzag_bits: "bit (- (n AND 1)) i \<longleftrightarrow> i < 64 \<and> bit (n :: u64) 0"
proof (cases "odd n")
  case True
  then have "n AND 1 = 1" by (simp add: and_one_eq odd_iff_mod_2_eq_one)
  then show ?thesis using True by (simp add: bit_minus_1_iff bit_0)
next
  case False
  then have "n AND 1 = 0" by (simp add: and_one_eq even_iff_mod_2_eq_zero)
  then show ?thesis using False by (simp add: bit_0)
qed

lemma signed_drop_63: "bit (signed_drop_bit 63 (n :: u64)) i \<longleftrightarrow> i < 64 \<and> bit n 63"
proof (cases "i = 0 \<or> 64 \<le> i")
  case True
  then show ?thesis using bit_imp_le_length [of "signed_drop_bit 63 n" i] bit_imp_le_length [of n "63 + i"]
    by (auto simp: bit_signed_drop_bit_iff)
next
  case False
  then show ?thesis by (simp add: bit_signed_drop_bit_iff)
qed

lemma bit_encode_zigzag64: "bit (encode_zigzag64 n) i \<longleftrightarrow> i < 64 \<and> (0 < i \<and> bit n (i - 1)) \<noteq> bit n 63"
  unfolding encode_zigzag64_def bit_xor_iff signed_drop_63 bit_push_bit_iff by auto

lemma bit_decode_zigzag64: "bit (decode_zigzag64 n) i \<longleftrightarrow> bit n (Suc i) \<noteq> (i < 64 \<and> bit n 0)"
  unfolding decode_zigzag64_def bit_xor_iff zigzag_bits bit_drop_bit_eq by simp

lemma bit_u64_bound: "bit (n :: u64) i \<Longrightarrow> i < 64"
  using bit_imp_le_length [of n i] by simp

text \<open>
  Zigzag numbers survive the view in both directions: decoding an encoded signed number gives it
  back, and encoding a decoded varint gives the same varint, for all 64-bit values.
\<close>

theorem zigzag_roundtrip: "decode_zigzag64 (encode_zigzag64 n) = n \<and> encode_zigzag64 (decode_zigzag64 m) = m"
proof
  show "decode_zigzag64 (encode_zigzag64 n) = n"
  proof (rule bit_word_eqI)
    fix i assume "i < LENGTH(64)"
    then show "bit (decode_zigzag64 (encode_zigzag64 n)) i = bit n i"
      unfolding bit_decode_zigzag64 bit_encode_zigzag64 by (cases "i = 63") auto
  qed
  show "encode_zigzag64 (decode_zigzag64 m) = m"
  proof (rule bit_word_eqI)
    fix i assume "i < LENGTH(64)"
    then show "bit (encode_zigzag64 (decode_zigzag64 m)) i = bit m i"
      unfolding bit_decode_zigzag64 bit_encode_zigzag64 using bit_u64_bound [of m 64] by (cases i) auto
  qed
qed

subsection \<open>Hexadecimal text\<close>

lemma hex_alphabet_all: "list_all P ''0123456789abcdef'' \<Longrightarrow> c \<in> hex_alphabet \<Longrightarrow> P c"
  unfolding hex_alphabet_def list_all_iff by (rule bspec)

lemma hex_alphabet_char:
  assumes "c \<in> hex_alphabet"
  shows "\<not> is_continuation c" "c \<noteq> CHR ''+''"
proof -
  have "list_all (\<lambda>c. \<not> is_continuation c \<and> c \<noteq> CHR ''+'') ''0123456789abcdef''" by code_simp
  from hex_alphabet_all [OF this assms] show "\<not> is_continuation c" "c \<noteq> CHR ''+''" by simp_all
qed

lemma hex_text_no_continuation: "case hex_text b of [] \<Rightarrow> True | c # s \<Rightarrow> \<not> is_continuation c"
  using hex_text_alphabet [of b] by (cases "hex_text b") (auto dest: hex_alphabet_char)

lemma u8_from_hex_digits: "u8_from_hex (hex_digit (unat x div 16)) (hex_digit (unat x mod 16)) = Some x"
  by (simp add: u8_from_hex_def hex_alphabet_char hex_digit_alphabet byte_div_16 hex_value_digit byte_of_nibbles
      del: of_nat_add of_nat_mult)

lemma hex_text_Cons: "hex_text (x # b) = hex_digit (unat x div 16) # hex_digit (unat x mod 16) # hex_text b"
  by (simp add: hex_text_def)

lemma decode_hex_text: "decode_binary (hex_text b) = Inr b"
proof (induction b)
  case (Cons x b)
  then show ?case
    using hex_text_no_continuation [of b]
    by (simp add: hex_text_Cons hex_alphabet_char hex_digit_alphabet byte_div_16 u8_from_hex_digits split: list.splits)
qed (simp add: hex_text_def)

lemma hex_pair:
  assumes "c \<in> hex_alphabet" "d \<in> hex_alphabet"
  shows "\<exists>x. u8_from_hex c d = Some x"
proof -
  have "list_all (\<lambda>c. hex_value c \<noteq> None) ''0123456789abcdef''" by code_simp
  from hex_alphabet_all [OF this assms(1)] hex_alphabet_all [OF this assms(2)] assms
  show ?thesis by (auto simp: u8_from_hex_def hex_alphabet_char)
qed

lemma decode_odd:
  assumes "set s \<subseteq> hex_alphabet" "odd (length s)"
  shows "decode_binary s = Inl (Panicked ''byte index is out of bounds'')"
  using assms
proof (induction s rule: decode_binary.induct)
  case (3 c d s)
  then obtain x where "u8_from_hex c d = Some x" using hex_pair [of c d] by auto
  then show ?case using 3 by (auto simp: hex_alphabet_char split: list.splits)
qed simp_all

text \<open>
  A \<^verbatim>\<open>!binary\<close> value with an odd number of hex digits is not reported as an invalid hex string:
  slicing the last pair is out of bounds, and re-encoding the document panics.  (The hex stream view,
  which has the same input format, checks the length first.)
\<close>

theorem binary_odd_panics:
  assumes "set s \<subseteq> hex_alphabet" "odd (length s)" "field_key E d key = Inr num"
  shows "reencode_yaml E d (YMap ((key, YTagged BINARY (YString s)) # m)) =
         Inl (Panicked ''byte index is out of bounds'')"
  using assms decode_odd [OF assms(1,2)] by (simp add: reencode_yaml_def)

text \<open>A parameter set for witnesses: no descriptors, and messages that are written as their field numbers.\<close>

definition no_descriptors :: "(unit, unit) pb_env" where
  "no_descriptors =
     \<lparr>pe_field_by_name = \<lambda>d s. None, pe_field_type = \<lambda>d n. None, pe_child = \<lambda>d n. None, pe_empty = (),
      pe_write = \<lambda>d fs. Inr (map (\<lambda>x. ucast (fst x)) fs), pe_f32_bits = \<lambda>f. 0, pe_f64_bits = \<lambda>f. 0\<rparr>"

theorem binary_odd_panics_witness:
  "reencode_yaml no_descriptors () (YMap [(YNumber (PosInt 1), YTagged BINARY (YString ''abc''))]) =
   Inl (Panicked ''byte index is out of bounds'')"
  by (rule binary_odd_panics [where num = 1]) (auto simp: hex_alphabet_def field_key_def)

end
