(* ===== verification/Raw_Proto.thy ===== *)
theory Raw_Proto
  imports Protobuf_View
begin

text \<open>
  Messages without a complete definition: the definition that fits a request
  (\<^verbatim>\<open>mitmproxy-contentviews/src/protobuf/existing_proto_definitions.rs\<close>), the descriptor guessed
  from raw data (\<^verbatim>\<open>raw_to_proto.rs\<close>), and the view that puts the steps together
  (\<^verbatim>\<open>view_protobuf.rs\<close>).  Parsing protobuf, loading \<^verbatim>\<open>.proto\<close> files and printing YAML are
  libraries and parameters.
\<close>

subsection \<open>Definitions of a request\<close>

text \<open>\<^verbatim>\<open>RpcInfo\<close>: \<^verbatim>\<open>/package.Service/Method\<close>, without a query.\<close>

record rpc_info =
  rpc_package :: string
  rpc_service :: string
  rpc_method :: string

definition rsplit_once :: "char \<Rightarrow> string \<Rightarrow> (string \<times> string) option" where
  "rsplit_once c s =
     (if c \<in> set s then Some (rev (tl (dropWhile (\<lambda>x. x \<noteq> c) (rev s))), rev (takeWhile (\<lambda>x. x \<noteq> c) (rev s)))
      else None)"

definition from_metadata :: "string option \<Rightarrow> rpc_info option" where
  "from_metadata path_opt =
     (case path_opt of
        None \<Rightarrow> None
      | Some path \<Rightarrow>
          if CHR ''?'' \<in> set path then None
          else
            (case split_on (CHR ''/'') (dropWhile (\<lambda>c. c = CHR ''/'') path) of
               [service_and_package, method] \<Rightarrow>
                 (let (package, service) =
                        (case rsplit_once (CHR ''.'') service_and_package of
                           Some x \<Rightarrow> x
                         | None \<Rightarrow> ([], service_and_package))
                  in Some \<lparr>rpc_package = package, rpc_service = service, rpc_method = method\<rparr>)
             | _ \<Rightarrow> None))"

record 'm method_def =
  me_name :: string
  me_input :: 'm
  me_output :: 'm

record 'm service_def =
  se_name :: string
  se_methods :: "'m method_def list"

record 'm file_def =
  fi_package :: string
  fi_services :: "'m service_def list"
  fi_messages :: "(string \<times> 'm) list"

fun find_map :: "('a \<Rightarrow> 'b option) \<Rightarrow> 'a list \<Rightarrow> 'b option" where
  "find_map f [] = None"
| "find_map f (x # xs) = (case f x of Some y \<Rightarrow> Some y | None \<Rightarrow> find_map f xs)"

definition method_type :: "bool \<Rightarrow> 'm method_def \<Rightarrow> 'm" where
  "method_type is_request m = (if is_request then me_input m else me_output m)"

definition find_in_file :: "rpc_info \<Rightarrow> bool \<Rightarrow> 'm file_def \<Rightarrow> 'm option" where
  "find_in_file rpc is_request file =
     (if fi_package file \<noteq> rpc_package rpc then None
      else
        case find_map (\<lambda>service.
               if se_name service \<noteq> rpc_service rpc then None
               else find_map (\<lambda>m. if me_name m \<noteq> rpc_method rpc then None else Some (method_type is_request m))
                      (se_methods service))
               (fi_services file) of
          Some t \<Rightarrow> Some t
        | None \<Rightarrow> find_map (\<lambda>(name, t). if name \<noteq> rpc_method rpc then None else Some t) (fi_messages file))"

definition fallback_message :: "bool \<Rightarrow> 'm file_def list \<Rightarrow> 'm option" where
  "fallback_message is_request fds =
     (case fds of
        [] \<Rightarrow> None
      | file # _ \<Rightarrow>
          (case fi_services file of
             service # _ \<Rightarrow>
               (case se_methods service of
                  m # _ \<Rightarrow> Some (method_type is_request m)
                | [] \<Rightarrow> map_option snd (find_map Some (fi_messages file)))
           | [] \<Rightarrow> map_option snd (find_map Some (fi_messages file))))"

definition find_best_message :: "'m file_def list \<Rightarrow> rpc_info option \<Rightarrow> bool \<Rightarrow> 'm option" where
  "find_best_message fds rpc is_request =
     (case rpc of
        None \<Rightarrow> fallback_message is_request fds
      | Some r \<Rightarrow>
          (case find_map (find_in_file r is_request) fds of
             Some t \<Rightarrow> Some t
           | None \<Rightarrow> fallback_message is_request fds))"

text \<open>\<^verbatim>\<open>find_best_match\<close>; \<open>definitions\<close> is the loaded \<^verbatim>\<open>.proto\<close> set, if the user named one.\<close>

definition find_best_match ::
  "'m file_def list res option \<Rightarrow> string option \<Rightarrow> bool \<Rightarrow> ('m \<times> 'm file_def list) option res" where
  "find_best_match definitions path is_request =
     (case definitions of
        None \<Rightarrow> Inr None
      | Some (Inl e) \<Rightarrow> Inl e
      | Some (Inr fds) \<Rightarrow>
          Inr (map_option (\<lambda>d. (d, fds)) (find_best_message fds (from_metadata path) is_request)))"

subsection \<open>Guessing a descriptor\<close>

datatype proto_field =
  Proto_Field (pf_name: string) (pf_number: u32) (pf_type: pb_type) (pf_type_name: "string option") (pf_repeated: bool)

datatype proto = Proto (pr_name: string) (pr_fields: "proto_field list") (pr_nested: "proto list")

record mdesc =
  md_package :: "string option"
  md_name :: string
  md_proto :: proto

definition full_name :: "mdesc \<Rightarrow> string" where
  "full_name d =
     (case md_package d of
        None \<Rightarrow> md_name d
      | Some p \<Rightarrow> if p = [] then md_name d else p @ ''.'' @ md_name d)"

definition new_empty_descriptor :: "string option \<Rightarrow> string \<Rightarrow> mdesc" where
  "new_empty_descriptor package name =
     \<lparr>md_package = package, md_name = name, md_proto = Proto (last (split_on (CHR ''.'') name)) [] []\<rparr>"

text \<open>
  rust-protobuf: the unknown fields of a message in their order (or a parse error), and whether bytes
  parse as a \<^verbatim>\<open>google.protobuf.DescriptorProto\<close>.
\<close>

record raw_env =
  ra_parse :: "mdesc \<Rightarrow> bytes \<Rightarrow> (u32 \<times> unknown_value) list res"
  ra_descriptor_proto :: "bytes \<Rightarrow> bool"

text \<open>The \<^verbatim>\<open>BTreeMap\<close> of field numbers.\<close>

fun push_group :: "u32 \<Rightarrow> unknown_value \<Rightarrow> (u32 \<times> unknown_value list) list \<Rightarrow> (u32 \<times> unknown_value list) list" where
  "push_group n v [] = [(n, [v])]"
| "push_group n v ((m, vs) # gs) =
     (if n < m then (n, [v]) # (m, vs) # gs
      else if n = m then (m, vs @ [v]) # gs
      else (m, vs) # push_group n v gs)"

definition field_groups :: "(u32 \<times> unknown_value) list \<Rightarrow> (u32 \<times> unknown_value list) list" where
  "field_groups fs = fold (\<lambda>(n, v). push_group n v) fs []"

datatype guessed = GString | GMessage proto | GUnknown

definition is_text :: "bytes \<Rightarrow> bool" where
  "is_text = list_all (\<lambda>b. (33 \<le> b \<and> b \<le> 126) \<or> b \<in> {9, 10, 12, 13, 32})"

text \<open>
  A guess tries the bytes as text, then as a nested message (\<open>create\<close> is the recursive call; \<open>None\<close>
  stands for a call that has not returned).  Further values are parsed with the descriptor of
  \<^verbatim>\<open>DescriptorProto\<close> itself, since \<^verbatim>\<open>descriptor.descriptor_dyn()\<close> is the descriptor of the
  value's own type.
\<close>

definition guess_field_type ::
  "raw_env \<Rightarrow> (bytes \<Rightarrow> mdesc \<Rightarrow> proto res option) \<Rightarrow> mdesc \<Rightarrow> u32 \<Rightarrow> bytes list \<Rightarrow> guessed option" where
  "guess_field_type R create parent field_index vals =
     (if list_all is_text vals then Some GString
      else
        let existing = new_empty_descriptor (md_package parent) (md_name parent @ ''.UnknownField'' @ show_u32 field_index)
        in case create (hd vals) existing of
             None \<Rightarrow> None
           | Some (Inl e) \<Rightarrow> Some GUnknown
           | Some (Inr descriptor) \<Rightarrow>
               if list_all (ra_descriptor_proto R) (tl vals) then Some (GMessage descriptor) else Some GUnknown)"

fun length_delimited :: "unknown_value \<Rightarrow> bytes res" where
  "length_delimited (LengthDelimited b) = Inr b"
| "length_delimited _ = Inl (Failed ''varying types in protobuf'')"

definition unknown_name :: "u32 \<Rightarrow> string" where
  "unknown_name field_index = ''unknown_field_'' @ show_u32 field_index"

text \<open>One turn of the loop over the field groups.\<close>

definition add_group ::
  "(u32 \<Rightarrow> bytes list \<Rightarrow> guessed option) \<Rightarrow> string \<Rightarrow> u32 \<times> unknown_value list \<Rightarrow> proto \<Rightarrow> proto res option" where
  "add_group guess parent_name = (\<lambda>(field_index, field_values) descriptor.
     let name = unknown_name field_index;
         repeated = length field_values > 1;
         add = (\<lambda>typ. Some (Inr (Proto (pr_name descriptor)
                  (pr_fields descriptor @ [Proto_Field name field_index typ None repeated]) (pr_nested descriptor))))
     in case hd field_values of
          Fixed32 _ \<Rightarrow> add TyFixed32
        | Fixed64 _ \<Rightarrow> add TyFixed64
        | Varint _ \<Rightarrow> add TyUint64
        | LengthDelimited _ \<Rightarrow>
            (case map_res length_delimited field_values of
               Inl e \<Rightarrow> Some (Inl e)
             | Inr vals \<Rightarrow>
                 (case guess field_index vals of
                    None \<Rightarrow> None
                  | Some GString \<Rightarrow> add TyString
                  | Some GUnknown \<Rightarrow> add TyBytes
                  | Some (GMessage m) \<Rightarrow>
                      Some (Inr (Proto (pr_name descriptor)
                        (pr_fields descriptor @
                          [Proto_Field name field_index TyMessage (Some (''.'' @ parent_name @ ''.'' @ pr_name m)) repeated])
                        (pr_nested descriptor @ [m]))))))"

fun add_groups ::
  "(u32 \<Rightarrow> bytes list \<Rightarrow> guessed option) \<Rightarrow> string \<Rightarrow> (u32 \<times> unknown_value list) list \<Rightarrow> proto \<Rightarrow> proto res option" where
  "add_groups guess parent_name [] descriptor = Some (Inr descriptor)"
| "add_groups guess parent_name (g # gs) descriptor =
     (case add_group guess parent_name g descriptor of
        None \<Rightarrow> None
      | Some (Inl e) \<Rightarrow> Some (Inl e)
      | Some (Inr d) \<Rightarrow> add_groups guess parent_name gs d)"

text \<open>The depth of nested guesses is bounded by \<open>fuel\<close>; \<open>None\<close> means it was not enough.\<close>

fun create_descriptor_proto :: "raw_env \<Rightarrow> nat \<Rightarrow> bytes \<Rightarrow> mdesc \<Rightarrow> proto res option" where
  "create_descriptor_proto R 0 data existing = None"
| "create_descriptor_proto R (Suc fuel) data existing =
     (case ra_parse R existing data of
        Inl e \<Rightarrow> Some (Inl (Failed (if starts_with (full_name existing) ''Unknown'' then ''invalid format'' else ''failed to parse'')))
      | Inr unknown \<Rightarrow>
          add_groups (guess_field_type R (create_descriptor_proto R fuel) existing) (full_name existing)
            (field_groups unknown) (md_proto existing))"

subsection \<open>The view\<close>

record 'f view_env =
  ve_raw :: raw_env
  ve_reflect :: "mdesc \<Rightarrow> bytes \<Rightarrow> 'f rfield list res"
  ve_dynamic :: "string option \<Rightarrow> proto list \<Rightarrow> string \<Rightarrow> mdesc res"
  ve_hex :: hex_codec
  ve_to_string :: "'f yaml \<Rightarrow> string res"
  ve_from_str :: "string \<Rightarrow> 'f yaml res"
  ve_f32 :: "u32 \<Rightarrow> string option"
  ve_f64 :: "u64 \<Rightarrow> string option"

text \<open>
  \<^verbatim>\<open>merge_proto_and_descriptor\<close>: the new proto takes the place of the top-level message of that
  name in its file (\<open>file\<close>), and the library builds descriptors from the file again.
\<close>

fun replace_message :: "string \<Rightarrow> proto \<Rightarrow> proto list \<Rightarrow> proto list option" where
  "replace_message name p [] = None"
| "replace_message name p (q # ps) =
     (if pr_name q = name then Some (p # ps) else map_option (\<lambda>qs. q # qs) (replace_message name p ps))"

definition merge_proto_and_descriptor :: "'f view_env \<Rightarrow> nat \<Rightarrow> bytes \<Rightarrow> mdesc \<times> proto list \<Rightarrow> mdesc res option" where
  "merge_proto_and_descriptor V fuel data = (\<lambda>(desc, file).
     case create_descriptor_proto (ve_raw V) fuel data desc of
       None \<Rightarrow> None
     | Some (Inl e) \<Rightarrow> Some (Inl e)
     | Some (Inr new_proto) \<Rightarrow>
         Some (case replace_message (md_name desc) new_proto file of
                 None \<Rightarrow> Inl (Failed ''failed to find existing message descriptor index'')
               | Some file' \<Rightarrow> ve_dynamic V (md_package desc) file' (md_name desc)))"

text \<open>
  \<^verbatim>\<open>apply_replacements\<close>: \<^verbatim>\<open>replace_all\<close> of a tag followed by a space and digits, left to right
  (for text whose digits are ASCII, as the printed numbers are).
\<close>

function replace_tagged :: "string \<Rightarrow> (string \<Rightarrow> string) \<Rightarrow> string \<Rightarrow> string" where
  "replace_tagged tag f s =
     (case s of
        [] \<Rightarrow> []
      | c # cs \<Rightarrow>
          let rest = drop (length tag) s; digits = takeWhile (\<lambda>c. digit_val c \<noteq> None) rest in
          if tag \<noteq> [] \<and> starts_with s tag \<and> digits \<noteq> []
          then f digits @ replace_tagged tag f (drop (length digits) rest)
          else c # replace_tagged tag f cs)"
  by pat_completeness auto
termination
  by (relation "measure (\<lambda>(tag, f, s). length s)") auto

declare replace_tagged.simps [simp del]

definition apply_replacements :: "'f view_env \<Rightarrow> string \<Rightarrow> string" where
  "apply_replacements V yaml_str =
     (let with_fixed32 = replace_tagged (''!'' @ FIXED32 @ '' '')
            (\<lambda>d. fixed32_text (ve_f32 V) (case parse_u32 d of Some x \<Rightarrow> x | None \<Rightarrow> 0)) yaml_str;
          with_fixed64 = replace_tagged (''!'' @ FIXED64 @ '' '')
            (\<lambda>d. fixed64_text (ve_f64 V) (case parse_uint (2 ^ 64 - 1) d of Some x \<Rightarrow> word_of_nat x | None \<Rightarrow> 0)) with_fixed32
      in replace_tagged (''!'' @ VARINT @ '' '')
            (\<lambda>d. varint_text (case parse_uint (2 ^ 64 - 1) d of Some x \<Rightarrow> word_of_nat x | None \<Rightarrow> 0)) with_fixed64)"

definition prettify_with_descriptor :: "'f view_env \<Rightarrow> nat \<Rightarrow> bytes \<Rightarrow> mdesc \<times> proto list \<Rightarrow> string res option" where
  "prettify_with_descriptor V fuel data desc =
     (if data = [] then Some (Inr ''{}  # empty protobuf message'')
      else
        case merge_proto_and_descriptor V fuel data desc of
          None \<Rightarrow> None
        | Some merged \<Rightarrow>
            Some (res_bind merged (\<lambda>d.
                  res_bind (ve_reflect V d data) (\<lambda>fields.
                  res_bind (ve_to_string V (message_to_yaml (ve_hex V) fields)) (\<lambda>yaml_str.
                  Inr (apply_replacements V yaml_str))))))"

definition default_descriptor :: "mdesc \<times> proto list" where
  "default_descriptor = (new_empty_descriptor None ''Unknown'', [Proto ''Unknown'' [] []])"

definition protobuf_prettify :: "'f view_env \<Rightarrow> nat \<Rightarrow> bytes \<Rightarrow> (mdesc \<times> proto list) option res \<Rightarrow> string res option" where
  "protobuf_prettify V fuel data found =
     (case found of
        Inl e \<Rightarrow> Some (Inl e)
      | Inr None \<Rightarrow> prettify_with_descriptor V fuel data default_descriptor
      | Inr (Some desc) \<Rightarrow>
          (case prettify_with_descriptor V fuel data desc of
             None \<Rightarrow> None
           | Some (Inr ret) \<Rightarrow> Some (Inr ret)
           | Some (Inl e) \<Rightarrow> prettify_with_descriptor V fuel data default_descriptor))"

definition protobuf_reencode ::
  "'f view_env \<Rightarrow> ('f, mdesc) pb_env \<Rightarrow> string \<Rightarrow> (mdesc \<times> proto list) option res \<Rightarrow> bytes res" where
  "protobuf_reencode V E data found =
     res_bind found (\<lambda>d.
     res_bind (ve_from_str V data) (\<lambda>value.
       reencode_yaml E (fst (case d of Some x \<Rightarrow> x | None \<Rightarrow> default_descriptor)) value))"

subsection \<open>Finding a definition\<close>

lemma find_map_append: "find_map f (xs @ ys) = (case find_map f xs of Some y \<Rightarrow> Some y | None \<Rightarrow> find_map f ys)"
  by (induction xs) (auto split: option.splits)

lemma find_map_None: "(\<And>x. x \<in> set xs \<Longrightarrow> f x = None) \<Longrightarrow> find_map f xs = None"
  by (induction xs) auto

lemma find_map_first:
  assumes "\<And>x. x \<in> set xs \<Longrightarrow> f x = None" and "f y = Some z"
  shows "find_map f (xs @ y # ys) = Some z"
  using find_map_None [of xs f] assms by (simp add: find_map_append)

lemma rsplit_once_last: "c \<notin> set t \<Longrightarrow> rsplit_once c (s @ c # t) = Some (s, t)"
proof -
  assume "c \<notin> set t"
  then have t: "\<forall>x\<in>set (rev t). x \<noteq> c" by auto
  have "dropWhile (\<lambda>x. x \<noteq> c) (rev t @ c # rev s) = c # rev s" using t by (subst dropWhile_append2) auto
  moreover have "takeWhile (\<lambda>x. x \<noteq> c) (rev t @ c # rev s) = rev t" using t by (subst takeWhile_append2) auto
  ultimately show ?thesis by (simp add: rsplit_once_def)
qed

lemma from_metadata_path:
  assumes "{CHR ''/'', CHR ''?''} \<inter> set (pkg @ svc @ m) = {}" and "CHR ''.'' \<notin> set svc"
  shows "from_metadata (Some (''/'' @ pkg @ ''.'' @ svc @ ''/'' @ m)) =
         Some \<lparr>rpc_package = pkg, rpc_service = svc, rpc_method = m\<rparr>"
proof -
  let ?p = "pkg @ ''.'' @ svc"
  have slash: "CHR ''/'' \<notin> set ?p" "CHR ''/'' \<notin> set m" using assms(1) by auto
  have "dropWhile (\<lambda>c. c = CHR ''/'') (''/'' @ ?p @ ''/'' @ m) = ?p @ CHR ''/'' # m"
    using slash by (cases pkg) auto
  moreover have "split_on (CHR ''/'') (?p @ CHR ''/'' # m) = [?p, m]"
    by (simp only: split_on_append [OF slash(1)] split_on_no_sep [OF slash(2)])
  moreover have "rsplit_once (CHR ''.'') ?p = Some (pkg, svc)"
    using rsplit_once_last [OF assms(2), of pkg] by simp
  ultimately show ?thesis using assms(1) by (simp add: from_metadata_def)
qed

text \<open>
  The definition of a call is found from its path: for a request to
  \<^verbatim>\<open>/package.Service/Method\<close>, the type chosen is the input (for a response, the output) type of
  that method of the first such service in the first file of that package, whatever other files,
  services and methods are defined; no fall-back is used.
\<close>

theorem definition_found:
  assumes path: "{CHR ''/'', CHR ''?''} \<inter> set (pkg @ svc @ me_name m) = {}" "CHR ''.'' \<notin> set svc"
    and fil: "\<forall>f\<in>set pre. fi_package f \<noteq> pkg" "fi_package fd = pkg"
    and service: "fi_services fd = ss @ service # ss'" "\<forall>s\<in>set ss. se_name s \<noteq> svc" "se_name service = svc"
    and meth: "se_methods service = ms @ m # ms'" "\<forall>m'\<in>set ms. me_name m' \<noteq> me_name m"
  shows "find_best_match (Some (Inr (pre @ fd # post))) (Some (''/'' @ pkg @ ''.'' @ svc @ ''/'' @ me_name m)) is_request =
         Inr (Some (if is_request then me_input m else me_output m, pre @ fd # post))"
proof -
  let ?rpc = "\<lparr>rpc_package = pkg, rpc_service = svc, rpc_method = me_name m\<rparr>"
  have "find_map (\<lambda>m'. if me_name m' \<noteq> me_name m then None else Some (method_type is_request m')) (se_methods service) =
        Some (method_type is_request m)"
    unfolding meth(1) by (rule find_map_first) (use meth(2) in auto)
  then have "find_in_file ?rpc is_request fd = Some (method_type is_request m)"
    using service(3) by (simp add: find_in_file_def fil(2) service(1), subst find_map_first) (use service(2) in auto)
  then have "find_map (find_in_file ?rpc is_request) (pre @ fd # post) = Some (method_type is_request m)"
    by (intro find_map_first) (use fil(1) in \<open>auto simp: find_in_file_def\<close>)
  then show ?thesis
    unfolding find_best_match_def from_metadata_path [OF path]
    by (simp add: find_best_message_def method_type_def)
qed

theorem definition_found_witness:
  "find_best_match (Some (Inr [\<lparr>fi_package = ''a'',
       fi_services = [\<lparr>se_name = ''S'', se_methods = [\<lparr>me_name = ''M'', me_input = 1, me_output = (2 :: nat)\<rparr>]\<rparr>],
       fi_messages = []\<rparr>])) (Some ''/a.S/M'') False =
   Inr (Some (2, [\<lparr>fi_package = ''a'',
       fi_services = [\<lparr>se_name = ''S'', se_methods = [\<lparr>me_name = ''M'', me_input = 1, me_output = 2\<rparr>]\<rparr>],
       fi_messages = []\<rparr>]))"
  using definition_found [where pkg = "''a''" and svc = "''S''" and m = "\<lparr>me_name = ''M'', me_input = 1, me_output = (2 :: nat)\<rparr>"
      and pre = "[]" and post = "[]" and ss = "[]" and ss' = "[]" and ms = "[]" and ms' = "[]" and is_request = False
      and service = "\<lparr>se_name = ''S'', se_methods = [\<lparr>me_name = ''M'', me_input = 1, me_output = 2\<rparr>]\<rparr>"
      and fd = "\<lparr>fi_package = ''a'', fi_services = [\<lparr>se_name = ''S'',
        se_methods = [\<lparr>me_name = ''M'', me_input = 1, me_output = 2\<rparr>]\<rparr>], fi_messages = []\<rparr>"]
  by simp

subsection \<open>Field groups\<close>

lemma push_group_keys: "fst ` set (push_group n v gs) = insert n (fst ` set gs)"
  by (induction n v gs rule: push_group.induct) auto

lemma push_group_sorted: "sorted_wrt (<) (map fst gs) \<Longrightarrow> sorted_wrt (<) (map fst (push_group n v gs))"
proof (induction n v gs rule: push_group.induct)
  case (2 n v m vs gs)
  show ?case
  proof (cases n m rule: linorder_cases)
    case less
    then show ?thesis using 2(2) by (auto intro: less_trans)
  next
    case greater
    moreover have "\<forall>x\<in>fst ` set (push_group n v gs). m < x" using greater 2(2) by (auto simp: push_group_keys)
    ultimately show ?thesis using 2 by auto
  qed (use 2(2) in simp)
qed simp

lemma push_group_map:
  "sorted_wrt (<) (map fst gs) \<Longrightarrow>
   map_of (push_group n v gs) = (map_of gs)(n \<mapsto> (case map_of gs n of None \<Rightarrow> [] | Some vs \<Rightarrow> vs) @ [v])"
proof (induction n v gs rule: push_group.induct)
  case (2 n v m vs gs)
  have "map_of gs n = None" if "n < m"
    using 2(2) that unfolding map_of_eq_None_iff by auto
  then show ?case using 2 by auto
qed auto

definition values_of :: "u32 \<Rightarrow> (u32 \<times> unknown_value) list \<Rightarrow> unknown_value list" where
  "values_of n fs = map snd (filter (\<lambda>x. fst x = n) fs)"

lemma field_groups_snoc: "field_groups (fs @ [(n, v)]) = push_group n v (field_groups fs)"
  by (simp add: field_groups_def)

lemma field_groups_sorted: "sorted_wrt (<) (map fst (field_groups fs))"
proof (induction fs rule: rev_induct)
  case (snoc x fs)
  then show ?case by (cases x) (simp add: field_groups_snoc push_group_sorted)
qed (simp add: field_groups_def)

lemma field_groups_map:
  "map_of (field_groups fs) n = (if values_of n fs = [] then None else Some (values_of n fs))"
proof (induction fs rule: rev_induct)
  case (snoc x fs)
  then show ?case
    by (cases x) (auto simp: field_groups_snoc push_group_map field_groups_sorted values_of_def split: option.splits if_splits)
qed (simp add: field_groups_def values_of_def)

lemma field_groups_distinct: "distinct (map fst (field_groups fs))"
  using field_groups_sorted [of fs] by (simp add: strict_sorted_iff)

lemma field_groups_mem:
  assumes "(n, vs) \<in> set (field_groups fs)"
  shows "vs = values_of n fs" "vs \<noteq> []" "v \<in> set vs \<Longrightarrow> (n, v) \<in> set fs"
proof -
  have "map_of (field_groups fs) n = Some vs" using assms field_groups_distinct by simp
  then show "vs = values_of n fs" "vs \<noteq> []" by (auto simp: field_groups_map split: if_splits)
  then show "v \<in> set vs \<Longrightarrow> (n, v) \<in> set fs" by (auto simp: values_of_def)
qed

subsection \<open>Guessing terminates\<close>

text \<open>
  The encoding puts a tag and a length in front of a length-delimited value, so that a value is shorter
  than the message that holds it.
\<close>

locale raw_laws =
  fixes R :: raw_env
  assumes nested_shorter: "ra_parse R d data = Inr fs \<Longrightarrow> (n, LengthDelimited b) \<in> set fs \<Longrightarrow> length b < length data"

lemma length_delimited_eq: "length_delimited v = Inr b \<longleftrightarrow> v = LengthDelimited b"
  by (cases v) auto

lemma map_length_delimited: "map_res length_delimited vs = Inr bs \<longleftrightarrow> vs = map LengthDelimited bs"
  unfolding map_res_Inr_iff
proof (induction vs arbitrary: bs)
  case (Cons v vs)
  then show ?case by (cases bs) (simp_all add: length_delimited_eq)
qed simp

lemma add_groups_agree:
  assumes "\<And>n vals. (n, map LengthDelimited vals) \<in> set gs \<Longrightarrow> \<exists>r. guess n vals = Some r \<and> guess' n vals = Some r"
  shows "\<exists>r. add_groups guess name gs d = Some r \<and> add_groups guess' name gs d = Some r"
  using assms
proof (induction gs arbitrary: d)
  case (Cons g gs)
  obtain n vs where g: "g = (n, vs)" by (cases g)
  have "\<exists>r. add_group guess name g d = Some r \<and> add_group guess' name g d = Some r"
  proof (cases "map_res length_delimited vs")
    case (Inr vals)
    then have "(n, map LengthDelimited vals) \<in> set (g # gs)" by (simp add: g map_length_delimited)
    from Cons.prems [OF this] show ?thesis
      by (auto simp: g add_group_def Let_def Inr split: unknown_value.splits guessed.splits)
  qed (simp add: g add_group_def Let_def split: unknown_value.splits)
  then show ?case using Cons.IH Cons.prems by (auto split: sum.splits)
qed simp

lemma guess_agree:
  assumes "\<And>d. \<exists>r. create (hd vals) d = Some r \<and> create' (hd vals) d = Some r"
  shows "\<exists>r. guess_field_type R create parent n vals = Some r \<and> guess_field_type R create' parent n vals = Some r"
proof -
  obtain r where
    "create (hd vals) (new_empty_descriptor (md_package parent) (md_name parent @ ''.UnknownField'' @ show_u32 n)) = Some r"
    "create' (hd vals) (new_empty_descriptor (md_package parent) (md_name parent @ ''.UnknownField'' @ show_u32 n)) = Some r"
    using assms by blast
  then show ?thesis by (simp add: guess_field_type_def Let_def split: sum.splits)
qed

context raw_laws begin

lemma create_agree:
  "length data < f \<Longrightarrow> length data < g \<Longrightarrow>
   \<exists>r. create_descriptor_proto R f data existing = Some r \<and> create_descriptor_proto R g data existing = Some r"
proof (induction f arbitrary: g data existing)
  case (Suc f)
  then obtain g' where g: "g = Suc g'" by (cases g) auto
  show ?case
  proof (cases "ra_parse R existing data")
    case (Inr fs)
    have "\<exists>r. guess_field_type R (create_descriptor_proto R f) existing n vals = Some r \<and>
              guess_field_type R (create_descriptor_proto R g') existing n vals = Some r"
      if "(n, map LengthDelimited vals) \<in> set (field_groups fs)" for n vals
    proof (rule guess_agree)
      have "vals \<noteq> []" using field_groups_mem(2) [OF that] by auto
      then have "(n, LengthDelimited (hd vals)) \<in> set fs" using field_groups_mem(3) [OF that] by auto
      then have "length (hd vals) < length data" using nested_shorter [OF Inr] by blast
      then have "length (hd vals) < f" "length (hd vals) < g'" using Suc.prems g by auto
      then show "\<exists>r. create_descriptor_proto R f (hd vals) d = Some r \<and> create_descriptor_proto R g' (hd vals) d = Some r" for d
        by (rule Suc.IH)
    qed
    from add_groups_agree [where gs = "field_groups fs", OF this] show ?thesis by (simp add: g Inr)
  qed (simp add: g)
qed simp

end

text \<open>
  C32. Guessing a descriptor returns for every input: the depth of nested guesses is at most the length
  of the data, so that every amount of fuel above it gives the same result.  Parse errors, fields of
  varying types and data that only looks like a nested message end in a result as well.
\<close>

theorem guessing_terminates:
  assumes "raw_laws R"
  shows "\<exists>r. \<forall>fuel > length data. create_descriptor_proto R fuel data existing = Some r"
proof -
  obtain r where "create_descriptor_proto R (Suc (length data)) data existing = Some r"
    using raw_laws.create_agree [OF assms, of data "Suc (length data)" "Suc (length data)" existing] by auto
  then show ?thesis
    using raw_laws.create_agree [OF assms, of data "Suc (length data)" _ existing] by (metis lessI)
qed

text \<open>
  The wire format itself: base-128 numbers and the four wire types.  A parser of it that treats the
  fields of the descriptor as known has the contract.
\<close>

fun read_varint :: "bytes \<Rightarrow> (u64 \<times> bytes) option" where
  "read_varint [] = None"
| "read_varint (b # s) =
     (if b < 128 then Some (ucast b, s)
      else map_option (\<lambda>(n, r). (ucast (b AND 127) + 128 * n, r)) (read_varint s))"

lemma read_varint_shorter: "read_varint s = Some (n, r) \<Longrightarrow> length r < length s"
proof (induction s arbitrary: n)
  case (Cons b s)
  then show ?case by (fastforce split: if_splits)
qed simp

definition cons_field :: "u64 \<Rightarrow> unknown_value \<Rightarrow> (u32 \<times> unknown_value) list option \<Rightarrow> (u32 \<times> unknown_value) list option" where
  "cons_field tag v = map_option (\<lambda>fs. (ucast (drop_bit 3 tag), v) # fs)"

function parse_wire :: "bytes \<Rightarrow> (u32 \<times> unknown_value) list option" where
  "parse_wire data =
     (if data = [] then Some []
      else case read_varint data of
        None \<Rightarrow> None
      | Some (tag, r) \<Rightarrow>
          let t = tag AND 7 in
          if t = 0 then
            (case read_varint r of None \<Rightarrow> None | Some (v, r') \<Rightarrow> cons_field tag (Varint v) (parse_wire r'))
          else if t = 1 then
            (if length r < 8 then None else cons_field tag (Fixed64 (be_word (rev (take 8 r)))) (parse_wire (drop 8 r)))
          else if t = 2 then
            (case read_varint r of
               None \<Rightarrow> None
             | Some (l, r') \<Rightarrow>
                 if length r' < unat l then None
                 else cons_field tag (LengthDelimited (take (unat l) r')) (parse_wire (drop (unat l) r')))
          else if t = 5 then
            (if length r < 4 then None else cons_field tag (Fixed32 (be_word (rev (take 4 r)))) (parse_wire (drop 4 r)))
          else None)"
  by pat_completeness auto
termination
  by (relation "measure length") (auto dest!: read_varint_shorter)

declare parse_wire.simps [simp del]

lemma parse_wire_shorter: "parse_wire data = Some fs \<Longrightarrow> (n, LengthDelimited b) \<in> set fs \<Longrightarrow> length b < length data"
proof (induction data arbitrary: fs rule: length_induct)
  case (1 data)
  have IH: "length b < length data"
    if "length xs < length data" "parse_wire xs = Some gs" "(n, LengthDelimited b) \<in> set gs" for xs gs
    using "1.IH" that less_trans by blast
  from "1.prems"(1) obtain tag r where nz: "data \<noteq> []" and tag: "read_varint data = Some (tag, r)"
    using "1.prems"(2) by (subst (asm) (1) parse_wire.simps) (auto split: if_splits option.splits)
  note r = read_varint_shorter [OF tag]
  have r': "length r' < length data" if "read_varint r = Some (v, r')" for v r'
    using read_varint_shorter [OF that] r by simp
  have drop: "length (drop i r) < length data" for i using r by simp
  have drop': "length b < length data"
    if "read_varint r = Some (v, r')" "parse_wire (drop i r') = Some gs" "(n, LengthDelimited b) \<in> set gs" for i v r' gs
    using IH [OF _ that(2,3)] r' [OF that(1)] by simp
  have l: "unat l < length data" if "read_varint r = Some (l, r')" "\<not> length r' < unat l" for l r'
    using r' [OF that(1)] that(2) by simp
  show ?case
    using "1.prems" nz tag
    by (subst (asm) (1) parse_wire.simps)
      (auto simp: Let_def cons_field_def split: if_splits option.splits dest: IH [OF r'] IH [OF drop],
        rule l, assumption+, erule (2) drop')
qed

definition wire_parser :: raw_env where
  "wire_parser =
     \<lparr>ra_parse = (\<lambda>d data. case parse_wire data of
        None \<Rightarrow> Inl (Failed ''wire format'')
      | Some fs \<Rightarrow> Inr (filter (\<lambda>x. fst x \<notin> pf_number ` set (pr_fields (md_proto d))) fs)),
      ra_descriptor_proto = (\<lambda>b. parse_wire b \<noteq> None)\<rparr>"

interpretation wire_parser: raw_laws wire_parser
  by unfold_locales (auto simp: wire_parser_def split: option.splits dest: parse_wire_shorter)

theorem guessing_terminates_witness:
  "\<exists>r. \<forall>fuel > 4. create_descriptor_proto wire_parser fuel [0x0A, 2, 0x10, 7] (fst default_descriptor) = Some r"
  using guessing_terminates [OF wire_parser.raw_laws_axioms, of "[0x0A, 2, 0x10, 7]" "fst default_descriptor"] by (simp add: eval_nat_numeral)

subsection \<open>Fields without a definition survive the view\<close>

text \<open>The values rust-protobuf reflects for a field with a guessed type.\<close>

locale reflection =
  fixes reflect :: "pb_type \<Rightarrow> unknown_value \<Rightarrow> 'f rvalue"
  assumes reflect_fixed32: "reflect TyFixed32 (Fixed32 x) = RU32 x"
    and reflect_fixed64: "reflect TyFixed64 (Fixed64 y) = RU64 y"
    and reflect_varint: "reflect TyUint64 (Varint y) = RU64 y"
    and reflect_bytes: "reflect TyBytes (LengthDelimited b) = RBytes b"
    and reflect_string: "is_text b \<Longrightarrow> reflect TyString (LengthDelimited b) = RString (of_bytes b)"

text \<open>The message as it is reflected with a guessed descriptor.\<close>

definition reflect_field :: "(pb_type \<Rightarrow> unknown_value \<Rightarrow> 'f rvalue) \<Rightarrow> unknown_value list \<Rightarrow> proto_field \<Rightarrow> 'f rfield" where
  "reflect_field reflect vs f =
     RField (pf_name f) (pf_number f) (pf_type f)
       (if pf_repeated f then RRepeated (map (reflect (pf_type f)) vs) else ROptional (Some (reflect (pf_type f) (hd vs))))"

definition reflect_fields ::
  "(pb_type \<Rightarrow> unknown_value \<Rightarrow> 'f rvalue) \<Rightarrow> proto \<Rightarrow> (u32 \<times> unknown_value) list \<Rightarrow> 'f rfield list" where
  "reflect_fields reflect d fs = map (\<lambda>f. reflect_field reflect (values_of (pf_number f) fs) f) (pr_fields d)"

fun wire_type :: "unknown_value \<Rightarrow> nat" where
  "wire_type (Varint _) = 0"
| "wire_type (Fixed64 _) = 1"
| "wire_type (LengthDelimited _) = 2"
| "wire_type (Fixed32 _) = 5"

fun value_fits :: "pb_type \<Rightarrow> unknown_value \<Rightarrow> bool" where
  "value_fits TyFixed32 (Fixed32 _) = True"
| "value_fits TyFixed64 (Fixed64 _) = True"
| "value_fits TyUint64 (Varint _) = True"
| "value_fits TyBytes (LengthDelimited _) = True"
| "value_fits TyString (LengthDelimited b) = is_text b"
| "value_fits _ _ = False"

text \<open>The field that a group of values gets.\<close>

definition group_field :: "u32 \<times> unknown_value list \<Rightarrow> proto_field \<Rightarrow> bool" where
  "group_field = (\<lambda>(n, vs) f.
     is_unknown_field (pf_name f) \<and> pf_number f = n \<and> pf_repeated f = (length vs > 1) \<and>
     (pf_type f = TyMessage \<or>
      ((\<forall>v\<in>set vs. wire_type v = wire_type (hd vs)) \<longrightarrow> (\<forall>v\<in>set vs. value_fits (pf_type f) v))))"

lemma add_group_field:
  assumes "add_group guess name (n, vs) d = Some (Inr d')" and "vs \<noteq> []"
    and "\<And>vals. guess n vals = Some GString \<Longrightarrow> list_all is_text vals"
  shows "\<exists>f. pr_fields d' = pr_fields d @ [f] \<and> group_field (n, vs) f"
proof -
  have u: "is_unknown_field (unknown_name n)" by (simp add: is_unknown_field_def unknown_name_def starts_with_def)
  show ?thesis
  proof (cases "hd vs")
    case (LengthDelimited b)
    then obtain vals where vals: "map_res length_delimited vs = Inr vals"
      using assms(1) by (auto simp: add_group_def Let_def split: sum.splits)
    have "list_all is_text vals" if "guess n vals = Some GString" using assms(3) that .
    then show ?thesis using assms(1) u vals map_length_delimited [of vs vals]
      by (auto simp: add_group_def Let_def LengthDelimited group_field_def list_all_iff split: option.splits guessed.splits)
  next
    case (Fixed32 x)
    have "value_fits TyFixed32 v" if "wire_type v = 5" for v using that by (cases v) auto
    then show ?thesis using assms(1) u by (auto simp: add_group_def Let_def Fixed32 group_field_def)
  next
    case (Fixed64 x)
    have "value_fits TyFixed64 v" if "wire_type v = 1" for v using that by (cases v) auto
    then show ?thesis using assms(1) u by (auto simp: add_group_def Let_def Fixed64 group_field_def)
  next
    case (Varint x)
    have "value_fits TyUint64 v" if "wire_type v = 0" for v using that by (cases v) auto
    then show ?thesis using assms(1) u by (auto simp: add_group_def Let_def Varint group_field_def)
  qed
qed

lemma add_groups_fields:
  assumes "add_groups guess name gs d = Some (Inr d')" and "\<And>n vs. (n, vs) \<in> set gs \<Longrightarrow> vs \<noteq> []"
    and "\<And>n vals. guess n vals = Some GString \<Longrightarrow> list_all is_text vals"
  shows "\<exists>fl. pr_fields d' = pr_fields d @ fl \<and> list_all2 group_field gs fl"
  using assms
proof (induction gs arbitrary: d)
  case (Cons g gs)
  obtain n vs where g: "g = (n, vs)" by (cases g)
  from Cons.prems(1) obtain d1 where d1: "add_group guess name g d = Some (Inr d1)" "add_groups guess name gs d1 = Some (Inr d')"
    by (auto split: option.splits sum.splits)
  obtain f where "pr_fields d1 = pr_fields d @ [f]" "group_field g f"
    using add_group_field [OF d1(1) [unfolded g]] Cons.prems(2,3) g by auto
  moreover obtain fl where "pr_fields d' = pr_fields d1 @ fl" "list_all2 group_field gs fl"
    using Cons.IH [OF d1(2)] Cons.prems(2,3) by auto
  ultimately show ?case by auto
qed simp

lemma as_bytes_of_bytes: "as_bytes (of_bytes b) = b"
proof (induction b)
  case (Cons x b)
  have "unat x mod 256 = unat x" using unsigned_less [of x, where 'a = nat] by simp
  with Cons show ?case by (simp add: as_bytes_def of_bytes_def)
qed (simp add: as_bytes_def of_bytes_def)

lemma field_key_number: "n < 2 ^ 31 \<Longrightarrow> field_key E d (YNumber (number_from_i32 n)) = Inr n"
proof -
  assume n: "n < 2 ^ 31"
  have "unat n < 2 ^ 32" using unsigned_less [of n, where 'a = nat] by simp
  then have "(ucast n :: u64) < 2 ^ 63" by (simp add: word_less_nat_alt unsigned_ucast_eq take_bit_nat_eq_self)
  then show ?thesis using n by (simp add: field_key_def number_from_i32_def ucast_ucast_u32)
qed

lemma add_fields_all:
  assumes "\<And>v. v \<in> set vs \<Longrightarrow> add_field E d n (y v) = Inr [(n, v)]"
  shows "add_fields E d n (map y vs) = Inr (map (Pair n) vs)"
  using assms by (induction vs) auto

lemma values_to_yaml_map: "values_to_yaml k xs ty u = map (\<lambda>x. value_to_yaml k x ty u) xs"
  by (induction xs) auto

context reflection begin

lemma add_reflected:
  assumes "value_fits ty v" "hex_laws k" "pe_field_type E e n = None"
  shows "add_field E e n (value_to_yaml k (reflect ty v) ty True) = Inr [(n, v)]"
  using assms(1)
proof (induction ty v rule: value_fits.induct)
  case (1 x)
  then show ?case by (simp add: reflect_fixed32 tag_number_def fixed32_value_def ucast_ucast_u32)
next
  case (2 y)
  then show ?case by (simp add: reflect_fixed64 tag_number_def fixed64_value_def)
next
  case (3 y)
  then show ?case by (simp add: reflect_varint tag_number_def int_value_def assms(3))
next
  case (4 b)
  then show ?case by (simp add: reflect_bytes hex_laws.encode_text [OF assms(2)] decode_hex_text)
next
  case (5 b)
  then show ?case by (simp add: reflect_string as_bytes_of_bytes)
qed simp_all

lemma merge_reflected:
  assumes "list_all2 group_field gs fl" "hex_laws k"
    and "\<And>n vs. (n, vs) \<in> set gs \<Longrightarrow> vs = values_of n fs \<and> vs \<noteq> [] \<and> (\<forall>v\<in>set vs. wire_type v = wire_type (hd vs))"
    and "\<And>n vs. (n, vs) \<in> set gs \<Longrightarrow> n < 2 ^ 31 \<and> pe_field_type E e n = None"
    and "\<And>f. f \<in> set fl \<Longrightarrow> pf_type f \<noteq> TyMessage"
  shows "merge_mapping E e (fields_to_yaml k (map (\<lambda>f. reflect_field reflect (values_of (pf_number f) fs) f) fl)) =
         Inr (concat (map (\<lambda>(n, vs). map (Pair n) vs) gs))"
  using assms
proof (induction gs fl rule: list_all2_induct)
  case (Cons g gs f fl)
  obtain n vs where g: "g = (n, vs)" by (cases g)
  have vs: "vs = values_of n fs" "vs \<noteq> []" "\<forall>v\<in>set vs. wire_type v = wire_type (hd vs)"
    and n: "n < 2 ^ 31" "pe_field_type E e n = None"
    using Cons.prems(2,3) [of n vs] unfolding g by (blast intro: list.set_intros)+
  have ty: "pf_type f \<noteq> TyMessage" using Cons.prems(4) by simp
  have f: "is_unknown_field (pf_name f)" "pf_number f = n" "pf_repeated f = (length vs > 1)"
    "\<And>v. v \<in> set vs \<Longrightarrow> value_fits (pf_type f) v"
    using Cons.hyps(1) vs(3) ty unfolding g group_field_def prod.case by blast+
  have val: "add_field E e n (value_to_yaml k (reflect (pf_type f) v) (pf_type f) True) = Inr [(n, v)]" if "v \<in> set vs" for v
    using add_reflected [OF f(4) [OF that] assms(2) n(2)] .
  have "\<exists>y. fvalue_to_yaml k (rf_value (reflect_field reflect vs f)) (pf_type f) True = Some y \<and>
            add_field E e n y = Inr (map (Pair n) vs)"
  proof (cases "length vs > 1")
    case True
    then show ?thesis using add_fields_all [of vs E e n, OF val] f(3) vs(2)
      by (simp add: reflect_field_def values_to_yaml_map comp_def)
  next
    case False
    then obtain v where v: "vs = [v]" using vs(2) by (cases vs) auto
    then show ?thesis using val [of v] f(3) by (simp add: reflect_field_def)
  qed
  then obtain y where y: "fvalue_to_yaml k (rf_value (reflect_field reflect vs f)) (pf_type f) True = Some y"
    "add_field E e n y = Inr (map (Pair n) vs)" by blast
  have "fields_to_yaml k (reflect_field reflect vs f # rest) = (YNumber (number_from_i32 n), y) # fields_to_yaml k rest" for rest
    using y(1) f(1,2) by (simp add: reflect_field_def Let_def)
  moreover have "merge_mapping E e (fields_to_yaml k (map (\<lambda>f. reflect_field reflect (values_of (pf_number f) fs) f) fl)) =
      Inr (concat (map (\<lambda>(n, vs). map (Pair n) vs) gs))"
    using Cons.IH [OF Cons.prems(1) Cons.prems(2) [OF list.set_intros(2)] Cons.prems(3) [OF list.set_intros(2)]
        Cons.prems(4) [OF list.set_intros(2)]] .
  ultimately show ?case using y(2) field_key_number [OF n(1), of E e] by (simp add: g f(2) vs(1) [symmetric])
qed simp

end

lemma filter_groups:
  assumes "distinct (map fst gs)"
  shows "filter (\<lambda>x. fst x = n) (concat (map (\<lambda>(m, vs). map (Pair m) vs) gs)) =
         (case map_of gs n of None \<Rightarrow> [] | Some vs \<Rightarrow> map (Pair n) vs)"
  using assms
proof (induction gs)
  case (Cons g gs)
  then show ?case
    by (cases g) (auto simp: filter_map comp_def map_of_eq_None_iff rev_image_eqI split: option.splits)
qed simp

lemma map_values_of: "map (Pair n) (values_of n fs) = filter (\<lambda>x. fst x = n) fs"
  by (induction fs) (auto simp: values_of_def)

text \<open>
  C31. Fields that no definition describes survive the view, on the level of YAML values.  Take a message
  all of whose fields are unknown, with numbers below \<open>2 ^ 31\<close>, the values of one number having one
  wire type, and none guessed to be a nested message.  The YAML value built from the message as it is
  reflected re-encodes to the fields of the message: each number keeps its values, their wire types and
  their order.  In the text, a number is replaced by a readable form: the form of a varint begins with an
  integer that re-encodes to the same varint, and so does the form of a fixed-size number if no float is
  among its representations.  (The printing and reading of the rest of the YAML text is serde's, and not part
  of this; a float that is shown first is formatted by the library.)
\<close>

theorem unknown_fields_roundtrip:
  assumes "reflection reflect" "hex_laws k"
    and parse: "ra_parse R existing data = Inr fs" "pr_fields (md_proto existing) = []"
    and create: "create_descriptor_proto R fuel data existing = Some (Inr d)"
    and plain: "\<forall>f\<in>set (pr_fields d). pf_type f \<noteq> TyMessage"
    and numbers: "\<forall>(n, v)\<in>set fs. n < 2 ^ 31 \<and> pe_field_type E e n = None"
    and same: "\<forall>(n, v)\<in>set fs. \<forall>(m, w)\<in>set fs. n = m \<longrightarrow> wire_type v = wire_type w"
  shows "(\<exists>out. reencode_yaml E e (message_to_yaml k (reflect_fields reflect d fs)) = pe_write E e out \<and>
               (\<forall>n. filter (\<lambda>x. fst x = n) out = filter (\<lambda>x. fst x = n) fs)) \<and>
     (\<forall>n v. (n, Varint v) \<in> set fs \<longrightarrow>
        (\<exists>y. shows_integer (varint_text v) y \<and> add_field E e n (YNumber y) = Inr [(n, Varint v)])) \<and>
     (\<forall>n v. (n, Fixed32 v) \<in> set fs \<and> f32 v = None \<longrightarrow>
        (\<exists>s y. fixed32_text f32 v = ''!fixed32 '' @ s \<and> shows_integer s y \<and>
           add_field E e n (YTagged FIXED32 (YNumber y)) = Inr [(n, Fixed32 v)])) \<and>
     (\<forall>n v. (n, Fixed64 v) \<in> set fs \<and> f64 v = None \<longrightarrow>
        (\<exists>s y. fixed64_text f64 v = ''!fixed64 '' @ s \<and> shows_integer s y \<and>
           add_field E e n (YTagged FIXED64 (YNumber y)) = Inr [(n, Fixed64 v)]))"
proof (intro conjI allI impI)
  show "\<exists>y. shows_integer (varint_text v) y \<and> add_field E e n (YNumber y) = Inr [(n, Varint v)]"
    if "(n, Varint v) \<in> set fs" for n v
  proof -
    have "pe_field_type E e n = None" using numbers that by auto
    then show ?thesis using varint_text_shows [of v E] by auto
  qed
  show "\<exists>s y. fixed32_text f32 v = ''!fixed32 '' @ s \<and> shows_integer s y \<and>
      add_field E e n (YTagged FIXED32 (YNumber y)) = Inr [(n, Fixed32 v)]" if "(n, Fixed32 v) \<in> set fs \<and> f32 v = None" for n v
    using fixed32_text_shows [of f32 v E] that by fastforce
  show "\<exists>s y. fixed64_text f64 v = ''!fixed64 '' @ s \<and> shows_integer s y \<and>
      add_field E e n (YTagged FIXED64 (YNumber y)) = Inr [(n, Fixed64 v)]" if "(n, Fixed64 v) \<in> set fs \<and> f64 v = None" for n v
    using fixed64_text_shows [of f64 v E] that by fastforce
  let ?gs = "field_groups fs"
  obtain f where f: "fuel = Suc f" using create by (cases fuel) auto
  have groups: "add_groups (guess_field_type R (create_descriptor_proto R f) existing) (full_name existing) ?gs (md_proto existing) = Some (Inr d)"
    using create by (simp add: f parse(1))
  have txts: "list_all is_text vals" if "guess_field_type R c existing n vals = Some GString" for c n vals
    using that by (auto simp: guess_field_type_def Let_def split: if_splits option.splits sum.splits)
  have fl: "list_all2 group_field ?gs (pr_fields d)"
    using add_groups_fields [OF groups field_groups_mem(2) txts] parse(2) by auto
  have mem: "vs = values_of n fs \<and> vs \<noteq> [] \<and> (\<forall>v\<in>set vs. wire_type v = wire_type (hd vs))" if g: "(n, vs) \<in> set ?gs" for n vs
    using field_groups_mem(1,2) [OF g] field_groups_mem(3) [OF g] same by (force dest: hd_in_set)
  have num: "n < 2 ^ 31 \<and> pe_field_type E e n = None" if "(n, vs) \<in> set ?gs" for n vs
    using field_groups_mem(2) [OF that] field_groups_mem(3) [OF that, of "hd vs"] numbers by auto
  have "reencode_yaml E e (message_to_yaml k (reflect_fields reflect d fs)) =
      pe_write E e (concat (map (\<lambda>(n, vs). map (Pair n) vs) ?gs))"
    using reflection.merge_reflected [OF assms(1) fl assms(2) mem num] plain
    by (simp add: reencode_yaml_def message_to_yaml_def reflect_fields_def)
  moreover have "filter (\<lambda>x. fst x = n) (concat (map (\<lambda>(n, vs). map (Pair n) vs) ?gs)) = filter (\<lambda>x. fst x = n) fs" for n
    unfolding filter_groups [OF field_groups_distinct] map_values_of [of n fs, symmetric]
    by (simp add: field_groups_map)
  ultimately show "\<exists>out. reencode_yaml E e (message_to_yaml k (reflect_fields reflect d fs)) = pe_write E e out \<and>
      (\<forall>n. filter (\<lambda>x. fst x = n) out = filter (\<lambda>x. fst x = n) fs)" by blast
qed

fun reflect_plain :: "pb_type \<Rightarrow> unknown_value \<Rightarrow> unit rvalue" where
  "reflect_plain ty (Fixed32 x) = RU32 x"
| "reflect_plain ty (Fixed64 y) = RU64 y"
| "reflect_plain ty (Varint y) = RU64 y"
| "reflect_plain ty (LengthDelimited b) = (if ty = TyString then RString (of_bytes b) else RBytes b)"

interpretation plain_reflection: reflection reflect_plain
  by unfold_locales simp_all

theorem unknown_fields_roundtrip_witness:
  "\<exists>out. reencode_yaml no_descriptors () (message_to_yaml ascii_hex (reflect_fields reflect_plain
       (Proto ''Unknown'' [Proto_Field (unknown_name 1) 1 TyString None False, Proto_Field (unknown_name 2) 2 TyUint64 None False] [])
       [(1, LengthDelimited [0x61]), (2, Varint 7)])) = pe_write no_descriptors () out \<and>
     (\<forall>n. filter (\<lambda>x. fst x = n) out = filter (\<lambda>x. fst x = n) [(1, LengthDelimited [0x61]), (2, Varint 7)])"
proof (rule unknown_fields_roundtrip [where R = wire_parser and existing = "fst default_descriptor"
        and data = "[0x0A, 1, 0x61, 0x10, 7]" and fuel = 1, OF plain_reflection.reflection_axioms ascii.hex_laws_axioms,
        THEN conjunct1])
  have parse: "parse_wire [0x0A, 1, 0x61, 0x10, 7] = Some [(1, LengthDelimited [0x61]), (2, Varint 7)]"
    by (simp add: parse_wire.simps cons_field_def Let_def)
  then show "ra_parse wire_parser (fst default_descriptor) [0x0A, 1, 0x61, 0x10, 7] = Inr [(1, LengthDelimited [0x61]), (2, Varint 7)]"
    by (simp add: wire_parser_def default_descriptor_def new_empty_descriptor_def)
  then show "create_descriptor_proto wire_parser 1 [0x0A, 1, 0x61, 0x10, 7] (fst default_descriptor) = Some (Inr
      (Proto ''Unknown'' [Proto_Field (unknown_name 1) 1 TyString None False, Proto_Field (unknown_name 2) 2 TyUint64 None False] []))"
    by (simp add: field_groups_def add_group_def guess_field_type_def is_text_def default_descriptor_def new_empty_descriptor_def)
qed (simp_all add: default_descriptor_def new_empty_descriptor_def no_descriptors_def)

end
