(* ===== verification/Highlight.thy ===== *)
theory Highlight
  imports Prelude
begin

text \<open>
  Syntax highlighting: \<^verbatim>\<open>mitmproxy-highlight\<close> and its Python functions
  (\<^verbatim>\<open>mitmproxy-rs/src/syntax_highlight.rs\<close>).  tree-sitter yields a sequence of events for the input,
  a parameter; the tables of the languages and the loop that turns events into tagged chunks are
  modelled.
\<close>

subsection \<open>Languages and tags\<close>

datatype language = LCss | LJavaScript | LXml | LYaml | LNone | LErr

datatype tag = TText | TName | TString | TNumber | TBoolean | TComment | TError

type_synonym chunk = "tag \<times> string"

definition language_values :: "language list" where
  "language_values = [LCss, LJavaScript, LXml, LYaml, LNone, LErr]"

fun language_as_str :: "language \<Rightarrow> string" where
  "language_as_str LCss = ''css''"
| "language_as_str LJavaScript = ''javascript''"
| "language_as_str LXml = ''xml''"
| "language_as_str LYaml = ''yaml''"
| "language_as_str LNone = ''none''"
| "language_as_str LErr = ''error''"

definition language_from_str :: "string \<Rightarrow> language res" where
  "language_from_str s =
     (if s = ''css'' then Inr LCss
      else if s = ''javascript'' then Inr LJavaScript
      else if s = ''xml'' then Inr LXml
      else if s = ''yaml'' then Inr LYaml
      else if s = ''none'' then Inr LNone
      else if s = ''error'' then Inr LErr
      else Inl (Failed ''Unsupported language''))"

definition tag_values :: "tag list" where
  "tag_values = [TText, TName, TString, TNumber, TBoolean, TComment, TError]"

fun tag_as_str :: "tag \<Rightarrow> string" where
  "tag_as_str TText = ''''"
| "tag_as_str TName = ''name''"
| "tag_as_str TString = ''string''"
| "tag_as_str TNumber = ''number''"
| "tag_as_str TBoolean = ''boolean''"
| "tag_as_str TComment = ''comment''"
| "tag_as_str TError = ''error''"

text \<open>The captures a language asks tree-sitter for, and the tags they get.\<close>

definition css_names :: "string list" where
  "css_names = [''tag'', ''property'', ''variable'', ''function'', ''number'', ''string'', ''comment'']"
definition css_tags :: "tag list" where
  "css_tags = [TName, TBoolean, TText, TText, TNumber, TString, TComment]"

definition javascript_names :: "string list" where
  "javascript_names =
     [''keyword'', ''function'', ''variable'', ''property'', ''constant'', ''string'', ''number'', ''comment'']"
definition javascript_tags :: "tag list" where
  "javascript_tags = [TName, TText, TText, TText, TBoolean, TString, TNumber, TComment]"

definition xml_names :: "string list" where
  "xml_names = [''tag'', ''property'', ''operator'', ''comment'', ''punctuation'', ''markup'']"
definition xml_tags :: "tag list" where
  "xml_tags = [TName, TName, TName, TComment, TName, TText]"

definition yaml_names :: "string list" where
  "yaml_names = [''boolean'', ''string'', ''number'', ''comment'', ''type'', ''property'']"
definition yaml_tags :: "tag list" where
  "yaml_tags = [TBoolean, TString, TNumber, TComment, TName, TName]"

subsection \<open>From events to chunks\<close>

datatype highlight_event = Source nat nat | HighlightStart nat | HighlightEnd

text \<open>
  tree-sitter: the events for an input (each may fail), and \<^verbatim>\<open>String::from_utf8_lossy\<close>.
\<close>

record highlighter =
  hl_run :: "language \<Rightarrow> string list \<Rightarrow> bytes \<Rightarrow> highlight_event res list res"
  hl_lossy :: "bytes \<Rightarrow> string"

definition ascii_blank :: "string \<Rightarrow> bool" where
  "ascii_blank = list_all (\<lambda>c. c \<in> {CHR '' '', CHR 0x09, CHR 0x0A, CHR 0x0C, CHR 0x0D})"

text \<open>\<^verbatim>\<open>chunks.last_mut()\<close> decides whether a piece continues the last chunk.\<close>

definition add_piece :: "tag \<Rightarrow> string \<Rightarrow> chunk list \<Rightarrow> chunk list" where
  "add_piece tag contents chunks =
     (if chunks \<noteq> [] \<and> (fst (last chunks) = tag \<or> ascii_blank contents)
      then butlast chunks @ [(fst (last chunks), snd (last chunks) @ contents)]
      else chunks @ [(tag, contents)])"

definition byte_range :: "nat \<Rightarrow> nat \<Rightarrow> bytes \<Rightarrow> bytes" where
  "byte_range start end input = take (end - start) (drop start input)"

fun highlight_loop ::
  "(bytes \<Rightarrow> string) \<Rightarrow> tag list \<Rightarrow> bytes \<Rightarrow> highlight_event res list \<Rightarrow> tag \<Rightarrow> chunk list \<Rightarrow> chunk list res" where
  "highlight_loop lossy tags input [] tag chunks = Inr chunks"
| "highlight_loop lossy tags input (Inl e # events) tag chunks = Inl (Failed ''highlighter failure'')"
| "highlight_loop lossy tags input (Inr (Source start end) # events) tag chunks =
     (if start \<le> end \<and> end \<le> length input
      then highlight_loop lossy tags input events tag (add_piece tag (lossy (byte_range start end input)) chunks)
      else Inl (Panicked ''range out of bounds''))"
| "highlight_loop lossy tags input (Inr (HighlightStart s) # events) tag chunks =
     (if s < length tags then highlight_loop lossy tags input events (tags ! s) chunks
      else Inl (Panicked ''index out of bounds''))"
| "highlight_loop lossy tags input (Inr HighlightEnd # events) tag chunks =
     highlight_loop lossy tags input events TText chunks"

definition common_highlight :: "highlighter \<Rightarrow> language \<Rightarrow> string list \<Rightarrow> tag list \<Rightarrow> bytes \<Rightarrow> chunk list res" where
  "common_highlight H language names tags input =
     (case hl_run H language names input of
        Inl e \<Rightarrow> Inl (Failed ''failed to highlight'')
      | Inr highlights \<Rightarrow> highlight_loop (hl_lossy H) tags input highlights TText [])"

fun language_highlight :: "highlighter \<Rightarrow> language \<Rightarrow> bytes \<Rightarrow> chunk list res" where
  "language_highlight H LCss input = common_highlight H LCss css_names css_tags input"
| "language_highlight H LJavaScript input = common_highlight H LJavaScript javascript_names javascript_tags input"
| "language_highlight H LXml input = common_highlight H LXml xml_names xml_tags input"
| "language_highlight H LYaml input = common_highlight H LYaml yaml_names yaml_tags input"
| "language_highlight H LNone input = Inr [(TText, hl_lossy H input)]"
| "language_highlight H LErr input = Inr [(TError, hl_lossy H input)]"

subsection \<open>The Python functions\<close>

definition py_highlight :: "highlighter \<Rightarrow> string \<Rightarrow> string \<Rightarrow> (string \<times> string) list res" where
  "py_highlight H txt language =
     res_bind (language_from_str language) (\<lambda>language.
     res_bind (language_highlight H language (as_bytes txt)) (\<lambda>chunks.
       Inr (map (\<lambda>(tag, t). (tag_as_str tag, t)) chunks)))"

definition py_tags :: "string list" where
  "py_tags = filter (\<lambda>x. x \<noteq> []) (map tag_as_str tag_values)"

definition py_languages :: "string list" where
  "py_languages = map language_as_str language_values"

subsection \<open>What highlighting keeps\<close>

lemma add_piece_text: "concat (map snd (add_piece tag s chunks)) = concat (map snd chunks) @ s"
  by (cases chunks rule: rev_cases) (simp_all add: add_piece_def)

lemma add_piece_adjacent: "distinct_adj (map fst chunks) \<Longrightarrow> distinct_adj (map fst (add_piece tag s chunks))"
  by (cases chunks rule: rev_cases) (auto simp: add_piece_def distinct_adj_append_iff)

text \<open>The pieces follow each other from one position to another.\<close>

fun covers :: "nat \<Rightarrow> highlight_event list \<Rightarrow> nat \<Rightarrow> bool" where
  "covers p [] n \<longleftrightarrow> p = n"
| "covers p (Source s e # es) n \<longleftrightarrow> s = p \<and> s \<le> e \<and> e \<le> n \<and> covers e es n"
| "covers p (_ # es) n \<longleftrightarrow> covers p es n"

text \<open>
  tree-sitter's contract: pieces are ranges of the input, highlights name one of the captures that were
  asked for, and without an error the pieces cover the input; the boundaries of nodes are those of
  characters.
\<close>

locale highlighter_laws =
  fixes H :: highlighter and valid_utf8 :: "bytes \<Rightarrow> bool"
  assumes event_range: "hl_run H l names input = Inr evs \<Longrightarrow> Inr (Source s e) \<in> set evs \<Longrightarrow> s \<le> e \<and> e \<le> length input"
    and event_capture: "hl_run H l names input = Inr evs \<Longrightarrow> Inr (HighlightStart i) \<in> set evs \<Longrightarrow> i < length names"
    and event_cover: "hl_run H l names input = Inr (map Inr es) \<Longrightarrow> covers 0 es (length input)"
    and event_utf8: "hl_run H l names input = Inr evs \<Longrightarrow> Inr (Source s e) \<in> set evs \<Longrightarrow> valid_utf8 input \<Longrightarrow>
      valid_utf8 (byte_range s e input)"
    and lossy_valid: "valid_utf8 b \<Longrightarrow> hl_lossy H b = of_bytes b"

fun event_ok :: "nat \<Rightarrow> nat \<Rightarrow> highlight_event res \<Rightarrow> bool" where
  "event_ok n captures (Inr (Source s e)) \<longleftrightarrow> s \<le> e \<and> e \<le> n"
| "event_ok n captures (Inr (HighlightStart i)) \<longleftrightarrow> i < captures"
| "event_ok n captures _ \<longleftrightarrow> True"

lemma loop_total:
  assumes "list_all (event_ok (length input) (length tags)) evs" and "distinct_adj (map fst chunks)"
  shows "case highlight_loop lossy tags input evs tag chunks of
      Inl err \<Rightarrow> err = Failed ''highlighter failure'' \<and> (\<exists>e. Inl e \<in> set evs)
    | Inr r \<Rightarrow> distinct_adj (map fst r) \<and> (\<forall>e. Inl e \<notin> set evs)"
  using assms
  by (induction lossy tags input evs tag chunks rule: highlight_loop.induct)
    (auto simp: add_piece_adjacent split: sum.splits)

lemma all_Inr: "(\<And>e. Inl e \<notin> set evs) \<Longrightarrow> \<exists>es. evs = map Inr es"
proof (induction evs)
  case (Cons x evs)
  then obtain es y where "evs = map Inr es" "x = Inr y" by (cases x) auto
  then show ?case by (intro exI [of _ "y # es"]) simp
qed simp

lemma loop_text:
  assumes "covers p es (length input)" and "p \<le> length input"
    and "\<And>s e. Source s e \<in> set es \<Longrightarrow> lossy (byte_range s e input) = of_bytes (byte_range s e input)"
    and "highlight_loop lossy tags input (map Inr es) tag chunks = Inr r"
  shows "concat (map snd r) = concat (map snd chunks) @ of_bytes (drop p input)"
  using assms
proof (induction es arbitrary: p tag chunks)
  case (Cons x es)
  show ?case
  proof (cases x)
    case (Source s e)
    have pos: "s = p" "p \<le> e" "e \<le> length input" "covers e es (length input)" using Cons.prems(1) Source by auto
    have piece: "lossy (byte_range p e input) = of_bytes (byte_range p e input)" using Cons.prems(3) Source pos(1) by auto
    have "highlight_loop lossy tags input (map Inr es) tag (add_piece tag (lossy (byte_range p e input)) chunks) = Inr r"
      using Cons.prems(4) Source pos(1-3) by simp
    then have "concat (map snd r) = concat (map snd (add_piece tag (lossy (byte_range p e input)) chunks)) @ of_bytes (drop e input)"
      using Cons.IH [OF pos(4,3)] Cons.prems(3) by simp
    moreover have "drop p input = byte_range p e input @ drop e input"
      using pos(2) append_take_drop_id [of "e - p" "drop p input"] by (simp add: byte_range_def)
    then have "of_bytes (drop p input) = of_bytes (byte_range p e input) @ of_bytes (drop e input)"
      by (simp only: of_bytes_def map_append)
    ultimately show ?thesis by (simp only: add_piece_text piece append_assoc)
  next
    case (HighlightStart i)
    then have "highlight_loop lossy tags input (map Inr es) (tags ! i) chunks = Inr r" using Cons.prems(4) by (simp split: if_splits)
    then show ?thesis using Cons.IH [of p] Cons.prems(1-3) HighlightStart by simp
  next
    case HighlightEnd
    then have "highlight_loop lossy tags input (map Inr es) TText chunks = Inr r" using Cons.prems(4) by simp
    then show ?thesis using Cons.IH [of p] Cons.prems(1-3) HighlightEnd by simp
  qed
qed (simp add: of_bytes_def)

context highlighter_laws begin

lemma common_ok:
  assumes "length names = length tags" "valid_utf8 input"
  shows "case common_highlight H l names tags input of
      Inl err \<Rightarrow> (\<exists>m. err = Failed m) \<and> (\<forall>es. hl_run H l names input \<noteq> Inr (map Inr es))
    | Inr r \<Rightarrow> distinct_adj (map fst r) \<and> concat (map snd r) = of_bytes input"
proof (cases "hl_run H l names input")
  case run: (Inr evs)
  have "event_ok (length input) (length tags) x" if "x \<in> set evs" for x
    using event_range [OF run] event_capture [OF run] that assms(1)
    by (cases "(length input, length tags, x)" rule: event_ok.cases) auto
  then have ok: "list_all (event_ok (length input) (length tags)) evs" by (simp add: list_all_iff)
  show ?thesis
  proof (cases "highlight_loop (hl_lossy H) tags input evs TText []")
    case (Inl err)
    then show ?thesis using loop_total [OF ok, of "[]" "hl_lossy H" TText] run by (auto simp: common_highlight_def)
  next
    case (Inr r)
    then have r: "distinct_adj (map fst r)" and "\<forall>e. Inl e \<notin> set evs"
      using loop_total [OF ok, of "[]" "hl_lossy H" TText] by simp_all
    then obtain es where es: "evs = map Inr es" using all_Inr by blast
    have "hl_lossy H (byte_range s e input) = of_bytes (byte_range s e input)" if "Source s e \<in> set es" for s e
      using event_utf8 [OF run _ assms(2), of s e] that es by (intro lossy_valid) auto
    then have "concat (map snd r) = of_bytes input"
      using loop_text [OF event_cover [of l names input es] _ _ Inr [unfolded es]] run es by simp
    then show ?thesis using r Inr by (simp add: common_highlight_def run)
  qed
qed (simp add: common_highlight_def)

end

lemma language_tables:
  "length css_names = length css_tags" "length javascript_names = length javascript_tags"
  "length xml_names = length xml_tags" "length yaml_names = length yaml_tags"
  by (simp_all add: css_names_def css_tags_def javascript_names_def javascript_tags_def xml_names_def xml_tags_def
      yaml_names_def yaml_tags_def)

lemma language_roundtrip: "language_from_str (language_as_str l) = Inr l"
  by (cases l) (simp_all add: language_from_str_def)

lemma language_from_str_cases: "language_from_str s = Inr l \<Longrightarrow> s = language_as_str l"
  by (auto simp: language_from_str_def split: if_splits)

lemma tag_as_str_inj: "tag_as_str a = tag_as_str b \<longleftrightarrow> a = b"
  by (cases a; cases b) simp_all

lemma tag_as_str_listed: "tag_as_str t = [] \<or> tag_as_str t \<in> set py_tags"
  by (cases t) (simp_all add: py_tags_def tag_values_def)

lemma distinct_adj_tags: "distinct_adj (map (\<lambda>x. tag_as_str (fst x)) r) \<longleftrightarrow> distinct_adj (map fst r)"
  by (induction r rule: induct_list012) (simp_all add: tag_as_str_inj)

context highlighter_laws begin

lemma language_ok:
  assumes "valid_utf8 input"
  shows "case language_highlight H l input of
      Inl err \<Rightarrow> \<exists>m. err = Failed m
    | Inr r \<Rightarrow> distinct_adj (map fst r) \<and> concat (map snd r) = of_bytes input"
  using assms
    common_ok [OF language_tables(1) assms, of LCss] common_ok [OF language_tables(2) assms, of LJavaScript]
    common_ok [OF language_tables(3) assms, of LXml] common_ok [OF language_tables(4) assms, of LYaml]
  by (cases l) (auto simp: lossy_valid split: sum.splits)

end

text \<open>
  C36. Highlighting never changes the text and never panics: for every language the chunks, put together,
  are the text again, neighbouring chunks have different tags, every tag is one that
  \<^verbatim>\<open>tags()\<close> lists (or none), and what goes wrong (an unknown language, a failure of
  tree-sitter) is an error.  In particular the table of tags is long enough for every capture.
\<close>

theorem highlight_lossless:
  assumes "highlighter_laws H valid_utf8" and "valid_utf8 (as_bytes txt)"
  shows "case py_highlight H txt lang of
      Inl err \<Rightarrow> \<exists>m. err = Failed m
    | Inr r \<Rightarrow> concat (map snd r) = txt \<and> distinct_adj (map fst r) \<and> lang \<in> set py_languages \<and>
        (\<forall>c\<in>set r. fst c = [] \<or> fst c \<in> set py_tags)"
proof (cases "language_from_str lang")
  case (Inl e)
  then show ?thesis by (auto simp: py_highlight_def language_from_str_def split: if_splits)
next
  case (Inr l)
  have "lang \<in> set py_languages"
    unfolding language_from_str_cases [OF Inr] by (cases l) (simp_all add: py_languages_def language_values_def)
  then show ?thesis
    using highlighter_laws.language_ok [OF assms, of l]
    by (auto simp: py_highlight_def Inr case_prod_unfold comp_def distinct_adj_tags tag_as_str_listed split: sum.splits)
qed

text \<open>An instance of the contract: the input as one piece with the first capture.\<close>

definition whole_highlighter :: highlighter where
  "whole_highlighter =
     \<lparr>hl_run = (\<lambda>l names input.
        if names = [] then Inr [Inr (Source 0 (length input))]
        else Inr [Inr (HighlightStart 0), Inr (Source 0 (length input)), Inr HighlightEnd]),
      hl_lossy = of_bytes\<rparr>"

interpretation whole: highlighter_laws whole_highlighter "\<lambda>b. True"
proof unfold_locales
  show "covers 0 es (length input)" if "hl_run whole_highlighter l names input = Inr (map Inr es)" for l names input es
  proof -
    have "es = [Source 0 (length input)] \<or> es = [HighlightStart 0, Source 0 (length input), HighlightEnd]"
      using that by (auto simp: whole_highlighter_def map_eq_Cons_conv split: if_splits)
    then show ?thesis by auto
  qed
qed (auto simp: whole_highlighter_def split: if_splits)

theorem highlight_lossless_witness:
  "py_highlight whole_highlighter ''a: 1'' ''yaml'' = Inr [(''boolean'', ''a: 1'')] \<and> ''yaml'' \<in> set py_languages"
proof -
  have "py_highlight whole_highlighter ''a: 1'' ''yaml'' = Inr [(''boolean'', ''a: 1'')]"
    by (simp add: py_highlight_def language_from_str_def common_highlight_def whole_highlighter_def yaml_names_def
        yaml_tags_def add_piece_def byte_range_def)
  with highlight_lossless [OF whole.highlighter_laws_axioms, of "''a: 1''" "''yaml''"] show ?thesis by simp
qed

end
