(* ===== verification/Servers.thy ===== *)
theory Servers
  imports Python_Api Contentviews
begin

text \<open>
  The Python servers (\<^verbatim>\<open>mitmproxy-rs/src/server\<close>): starting and closing them, the local redirector and
  the specification it is given, the installation of the macOS app; the end of the task that runs Python
  handlers (\<^verbatim>\<open>task.rs\<close>); keys (\<^verbatim>\<open>util.rs\<close>); and the content views as Python sees them
  (\<^verbatim>\<open>contentviews.rs\<close>).  A call of Python, tokio or the file system is an answer given to the
  definition.
\<close>

subsection \<open>Keys\<close>

text \<open>\<^verbatim>\<open>BASE64\<close> of data-encoding, and the public key of a private one (x25519).\<close>

record key_codec =
  kc_decode :: "string \<Rightarrow> bytes option"
  kc_encode :: "bytes \<Rightarrow> string"
  kc_public :: "bytes \<Rightarrow> bytes"

definition string_to_key :: "key_codec \<Rightarrow> string \<Rightarrow> bytes res" where
  "string_to_key K data =
     (case Option.bind (kc_decode K data) (\<lambda>b. if length b = 32 then Some b else None) of
        Some key \<Rightarrow> Inr key
      | None \<Rightarrow> Inl (Failed ''Invalid key.''))"

text \<open>\<open>secret\<close> is what the random generator gives.\<close>

definition genkey :: "key_codec \<Rightarrow> bytes \<Rightarrow> string" where
  "genkey K secret = kc_encode K secret"

definition pubkey :: "key_codec \<Rightarrow> string \<Rightarrow> string res" where
  "pubkey K private_key =
     res_bind (string_to_key K private_key) (\<lambda>private_key. Inr (kc_encode K (kc_public K private_key)))"

definition socketaddr_to_py :: "(ip_addr \<Rightarrow> string) \<Rightarrow> socket_addr \<Rightarrow> string \<times> u16" where
  "socketaddr_to_py to_text s = (to_text (sock_ip s), sock_port s)"

subsection \<open>Starting a server\<close>

text \<open>
  \<^verbatim>\<open>Server::init\<close>: the packet source is built, then the Python task, for which the event loop is needed;
  only then tasks are spawned.  \<open>'d\<close> is what the packet source hands to the caller.
\<close>

datatype 't server_task = PacketSourceRun 't | PyInteropRun

record 't started =
  sd_server :: server
  sd_tasks :: "'t server_task list"

definition py_interop_new :: "unit res \<Rightarrow> unit res" where
  "py_interop_new locals = (case locals of Inr u \<Rightarrow> Inr () | Inl e \<Rightarrow> Inl (Failed ''failed to get python task locals''))"

definition server_init :: "('t \<times> 'd) res \<Rightarrow> unit res \<Rightarrow> ('t started \<times> 'd) res" where
  "server_init build locals =
     (let (shutdown_start, shutdown_start_rx) = shutdown_channel in
      res_bind build (\<lambda>(packet_source_task, data).
      res_bind (py_interop_new locals) (\<lambda>_.
        Inr (\<lparr>sd_server = \<lparr>sv_start_shutdown = True, sv_start = shutdown_start\<rparr>,
              sd_tasks = [PacketSourceRun packet_source_task, PyInteropRun]\<rparr>, data))))"

text \<open>\<^verbatim>\<open>wait_closed\<close> is ready when the channel announces that all tasks have ended.\<close>

definition server_wait_closed :: "watch_chan \<Rightarrow> shutdown_receiver \<Rightarrow> bool" where
  "server_wait_closed shutdown_done receiver \<longleftrightarrow> shutdown_recv shutdown_done receiver \<noteq> None"

record wireguard_conf =
  wc_listen_addr :: socket_addr
  wc_private_key :: bytes
  wc_peer_public_keys :: "bytes list"

definition start_wireguard_server ::
  "key_codec \<Rightarrow> (wireguard_conf \<Rightarrow> ('t \<times> socket_addr) res) \<Rightarrow> unit res \<Rightarrow> ip_addr \<Rightarrow> u16 \<Rightarrow> string \<Rightarrow> string list \<Rightarrow>
     ('t started \<times> socket_addr) res" where
  "start_wireguard_server K build locals host port private_key peer_public_keys =
     res_bind (string_to_key K private_key) (\<lambda>private_key.
     res_bind (map_res (string_to_key K) peer_public_keys) (\<lambda>peer_public_keys.
       server_init (build \<lparr>wc_listen_addr = sock_new host port, wc_private_key = private_key,
                           wc_peer_public_keys = peer_public_keys\<rparr>) locals))"

definition start_udp_server ::
  "(socket_addr \<Rightarrow> ('t \<times> socket_addr) res) \<Rightarrow> unit res \<Rightarrow> ip_addr \<Rightarrow> u16 \<Rightarrow> ('t started \<times> socket_addr) res" where
  "start_udp_server build locals host port = server_init (build (sock_new host port)) locals"

datatype host_os = OsWindows | OsMacos | OsLinux | OsOther string

definition tun_unavailable_reason :: "host_os \<Rightarrow> bool \<Rightarrow> string option" where
  "tun_unavailable_reason os is_root =
     (case os of
        OsLinux \<Rightarrow> if \<not> is_root then Some ''mitmproxy is not running as root'' else None
      | _ \<Rightarrow> Some ''OS not supported for TUN proxy mode'')"

definition create_tun_interface ::
  "host_os \<Rightarrow> (string option \<Rightarrow> ('t \<times> string) res) \<Rightarrow> unit res \<Rightarrow> string option \<Rightarrow> ('t started \<times> string) res" where
  "create_tun_interface os build locals tun_name =
     (case os of
        OsLinux \<Rightarrow> server_init (build tun_name) locals
      | _ \<Rightarrow> Inl (Failed ''OS not supported for TUN proxy mode''))"

subsection \<open>The local redirector\<close>

text \<open>\<open>lr_conf_open\<close>: the task that receives configurations is running.\<close>

record local_redirector =
  lr_server :: server
  lr_conf_open :: bool
  lr_spec :: string

definition lr_new :: "server \<Rightarrow> local_redirector" where
  "lr_new server = \<lparr>lr_server = server, lr_conf_open = True, lr_spec = ''inactive''\<rparr>"

definition describe_spec :: "string \<Rightarrow> string res" where
  "describe_spec spec = res_bind (conf_try_from spec) (\<lambda>conf. Inr (conf_description conf))"

text \<open>The configurations sent, the result, and the object afterwards.\<close>

definition set_intercept :: "string \<Rightarrow> local_redirector \<Rightarrow> intercept_conf list \<times> unit res \<times> local_redirector" where
  "set_intercept spec lr =
     (case conf_try_from spec of
        Inl e \<Rightarrow> ([], Inl e, lr)
      | Inr conf \<Rightarrow>
          let lr = lr\<lparr>lr_spec := spec\<rparr> in
          if lr_conf_open lr then ([conf], Inr (), lr)
          else ([], Inl (Failed ''Server has been shut down.''), lr))"

definition lr_close :: "local_redirector \<Rightarrow> local_redirector" where
  "lr_close lr = lr\<lparr>lr_server := server_close (lr_server lr)\<rparr>"

definition lr_repr :: "local_redirector \<Rightarrow> string" where
  "lr_repr lr = ''Local Redirector('' @ lr_spec lr @ '')''"

definition local_unavailable_reason :: "host_os \<Rightarrow> bool \<Rightarrow> string option" where
  "local_unavailable_reason os is_root =
     (case os of
        OsWindows \<Rightarrow> None
      | OsMacos \<Rightarrow> None
      | OsLinux \<Rightarrow> if is_root then None else Some ''mitmproxy is not running as root.''
      | OsOther name \<Rightarrow> Some (''Local redirect mode is not supported on '' @ name))"

subsubsection \<open>Installing the macOS app\<close>

text \<open>
  What \<^verbatim>\<open>copy_redirector_app\<close> looks at: the environment variable, the directory of the Python module, the
  modification time of the archive beside it (none if it is not there), and the one of the installed app's
  \<^verbatim>\<open>Info.plist\<close>.
\<close>

record app_env =
  ae_keep :: "string option"
  ae_module_dir :: "string option res"
  ae_tar_mtime :: "string \<Rightarrow> nat res option"

record app_fs =
  af_installed :: bool
  af_plist_mtime :: "nat option"

definition copy_redirector_app :: "app_env \<Rightarrow> app_fs \<Rightarrow> (string \<times> nat) option res" where
  "copy_redirector_app env fs =
     (if ae_keep env = Some ''1'' then Inr None
      else
        res_bind (ae_module_dir env) (\<lambda>dir.
        res_bind (case dir of Some d \<Rightarrow> Inr (d @ ''/Mitmproxy Redirector.app.tar'') | None \<Rightarrow> Inl (Failed ''invalid path'')) (\<lambda>path.
        res_bind (case ae_tar_mtime env path of
                    None \<Rightarrow> Inl (Failed (path @ '' does not exist''))
                  | Some (Inl e) \<Rightarrow> Inl (Failed ''failed to get mtime for redirector'')
                  | Some (Inr t) \<Rightarrow> Inr t) (\<lambda>expected_mtime.
        if af_plist_mtime fs = Some expected_mtime then Inr None else Inr (Some (path, expected_mtime))))))"

text \<open>
  The closure it returns: the answers are for opening the archive, removing the old app, unpacking (with
  the time the archive gives \<^verbatim>\<open>Info.plist\<close>), and setting the time.
\<close>

record copy_answers =
  ca_open :: "unit res"
  ca_remove :: "unit res"
  ca_unpack :: "nat res"
  ca_set_modified :: "unit res"

definition copy_task :: "copy_answers \<Rightarrow> nat \<Rightarrow> app_fs \<Rightarrow> app_fs \<times> unit res" where
  "copy_task A expected_mtime fs =
     (case ca_open A of
        Inl e \<Rightarrow> (fs, Inl e)
      | Inr _ \<Rightarrow>
          let (fs, removed) =
                (if af_installed fs
                 then (case ca_remove A of
                         Inl e \<Rightarrow> (fs, Inl (Failed ''failed to remove existing mitmproxy redirector app''))
                       | Inr _ \<Rightarrow> (\<lparr>af_installed = False, af_plist_mtime = None\<rparr>, Inr ()))
                 else (fs, Inr ())) in
          (case removed of
             Inl e \<Rightarrow> (fs, Inl e)
           | Inr _ \<Rightarrow>
               (case ca_unpack A of
                  Inl e \<Rightarrow> (fs, Inl (Failed ''failed to unpack redirector''))
                | Inr t \<Rightarrow>
                    let fs = \<lparr>af_installed = True, af_plist_mtime = Some t\<rparr> in
                    (case ca_set_modified A of
                       Inl e \<Rightarrow> (fs, Inl (Failed ''failed to set redirector mtime''))
                     | Inr _ \<Rightarrow> (fs\<lparr>af_plist_mtime := Some expected_mtime\<rparr>, Inr ())))))"

text \<open>
  \<open>executable\<close> is what the platform's Python package says (Windows, Linux); \<open>build\<close> the packet source.
\<close>

definition start_local_redirector ::
  "host_os \<Rightarrow> string res \<Rightarrow> (string \<Rightarrow> bool) \<Rightarrow> (string option \<Rightarrow> ('t \<times> unit) res) \<Rightarrow> unit res \<Rightarrow>
     app_env \<Rightarrow> copy_answers \<Rightarrow> app_fs \<Rightarrow> app_fs \<times> (local_redirector \<times> 't server_task list) res" where
  "start_local_redirector os executable exists_path build locals env answers fs =
     (let init = (\<lambda>conf. res_bind (server_init (build conf) locals) (\<lambda>(started, conf_tx).
                    Inr (lr_new (sd_server started), sd_tasks started)));
          with_executable = res_bind executable (\<lambda>path.
                    if \<not> exists_path path then Inl (Failed (path @ '' does not exist'')) else init (Some path)) in
      case os of
        OsWindows \<Rightarrow> (fs, with_executable)
      | OsLinux \<Rightarrow> (fs, with_executable)
      | OsMacos \<Rightarrow>
          (case copy_redirector_app env fs of
             Inl e \<Rightarrow> (fs, Inl e)
           | Inr None \<Rightarrow> (fs, init None)
           | Inr (Some (tar, mtime)) \<Rightarrow>
               (case copy_task answers mtime fs of
                  (fs, Inl e) \<Rightarrow> (fs, Inl e)
                | (fs, Inr _) \<Rightarrow> (fs, init None)))
      | OsOther name \<Rightarrow> (fs, Inl (Failed (''Local redirect mode is not supported on '' @ name))))"

subsection \<open>UDP clients\<close>

definition open_udp_connection :: "'s res \<Rightarrow> ('s \<Rightarrow> socket_addr res) \<Rightarrow> ('s \<Rightarrow> socket_addr res) \<Rightarrow> stream res" where
  "open_udp_connection connected peer_addr local_addr =
     res_bind connected (\<lambda>socket.
     res_bind (peer_addr socket) (\<lambda>peername.
     res_bind (local_addr socket) (\<lambda>sockname.
       Inr \<lparr>st_connection_id = unassigned_udp, st_state = Open, st_peername = peername, st_sockname = sockname,
            st_tunnel_info = NoTunnel\<rparr>)))"

subsection \<open>The end of the Python task\<close>

text \<open>
  The handlers that are still registered when the loop of \<^verbatim>\<open>PyInteropTask::run\<close> has ended, each finished
  or not, and how joining it ends.  What happens to a handler: it is joined, or aborted and joined, with a
  message where joining fails.
\<close>

datatype join_result = Joined | JoinCancelled | JoinPanicked

record py_handle =
  ph_finished :: bool
  ph_join :: join_result

datatype handler_end = HandlerJoined connection_id "string option" | HandlerAborted connection_id "string option"

text \<open>
  \<^verbatim>\<open>active_streams.lock().await.drain().next()\<close>: the first entry; the rest of the drained entries goes
  with the iterator, at the end of the round.
\<close>

definition drain_next :: "(connection_id \<times> py_handle) list \<Rightarrow> ((connection_id \<times> py_handle) \<times> (connection_id \<times> py_handle) list) option" where
  "drain_next active = (case active of [] \<Rightarrow> None | entry # _ \<Rightarrow> Some (entry, []))"

definition end_handler :: "connection_id \<times> py_handle \<Rightarrow> handler_end" where
  "end_handler entry =
     (let (c, handle) = entry in
      if ph_finished handle
      then HandlerJoined c (if ph_join handle = Joined then None
                            else Some ''TCP connection handler coroutine could not be joined'')
      else HandlerAborted c (if ph_join handle = JoinPanicked
                             then Some ''TCP connection handler coroutine panicked'' else None))"

function end_handlers :: "(connection_id \<times> py_handle) list \<Rightarrow> handler_end list" where
  "end_handlers active =
     (case drain_next active of
        None \<Rightarrow> []
      | Some (entry, rest) \<Rightarrow> end_handler entry # end_handlers rest)"
  by pat_completeness auto
termination
  by (relation "measure length") (auto simp: drain_next_def split: list.splits)

declare end_handlers.simps [simp del]

subsection \<open>Content views in Python\<close>

text \<open>
  \<^verbatim>\<open>PythonMetadata\<close> caches three attributes of a Python object in \<^verbatim>\<open>OnceCell\<close>s; \<open>read\<close> is what
  reading the attribute gives now.
\<close>

record 'p py_metadata =
  pm_content_type :: "string option option"
  pm_protobuf_definitions :: "'p option option"
  pm_path :: "string option option"

definition py_metadata_new :: "'p py_metadata" where
  "py_metadata_new = \<lparr>pm_content_type = None, pm_protobuf_definitions = None, pm_path = None\<rparr>"

definition get_or_init :: "'v \<Rightarrow> 'v option \<Rightarrow> 'v \<times> 'v option" where
  "get_or_init v cell = (case cell of Some w \<Rightarrow> (w, cell) | None \<Rightarrow> (v, Some v))"

definition meta_content_type :: "string option \<Rightarrow> 'p py_metadata \<Rightarrow> string option \<times> 'p py_metadata" where
  "meta_content_type read m = (let (v, c) = get_or_init read (pm_content_type m) in (v, m\<lparr>pm_content_type := c\<rparr>))"

definition meta_get_path :: "string option \<Rightarrow> 'p py_metadata \<Rightarrow> string option \<times> 'p py_metadata" where
  "meta_get_path read m = (let (v, c) = get_or_init read (pm_path m) in (v, m\<lparr>pm_path := c\<rparr>))"

definition meta_protobuf_definitions :: "'p option \<Rightarrow> 'p py_metadata \<Rightarrow> 'p option \<times> 'p py_metadata" where
  "meta_protobuf_definitions read m =
     (let (v, c) = get_or_init read (pm_protobuf_definitions m) in (v, m\<lparr>pm_protobuf_definitions := c\<rparr>))"

text \<open>\<open>getattr obj name\<close> and \<open>get_item\<close>; \<open>'o\<close> are Python objects, compared by identity.\<close>

definition meta_get_header ::
  "('o \<Rightarrow> string \<Rightarrow> 'o option) \<Rightarrow> ('o \<Rightarrow> string \<Rightarrow> 'o option) \<Rightarrow> ('o \<Rightarrow> string option) \<Rightarrow> 'o \<Rightarrow> string \<Rightarrow> string option" where
  "meta_get_header getattr get_item extract inner name =
     Option.bind (getattr inner ''http_message'') (\<lambda>http_message.
     Option.bind (getattr http_message ''headers'') (\<lambda>headers.
     Option.bind (get_item headers name) extract))"

definition meta_is_http_request :: "('o \<Rightarrow> string \<Rightarrow> 'o option) \<Rightarrow> 'o \<Rightarrow> bool" where
  "meta_is_http_request getattr inner =
     (case getattr inner ''http_message'' of
        None \<Rightarrow> False
      | Some http_message \<Rightarrow>
          (case Option.bind (getattr inner ''flow'') (\<lambda>flow. getattr flow ''request'') of
             None \<Rightarrow> False
           | Some request \<Rightarrow> http_message = request))"

datatype py_exception = ValueError string

fun fault_text :: "fault \<Rightarrow> string" where
  "fault_text (Failed m) = m"
| "fault_text (Panicked m) = m"

definition contentview_prettify :: "string res \<Rightarrow> py_exception + string" where
  "contentview_prettify r = map_sum (\<lambda>e. ValueError (fault_text e)) id r"

definition contentview_reencode :: "bytes res \<Rightarrow> py_exception + bytes" where
  "contentview_reencode r = map_sum (\<lambda>e. ValueError (fault_text e)) id r"

text \<open>\<^verbatim>\<open>__lt__\<close> compares the names, byte by byte.\<close>

fun str_less :: "string \<Rightarrow> string \<Rightarrow> bool" where
  "str_less _ [] \<longleftrightarrow> False"
| "str_less [] (d # ds) \<longleftrightarrow> True"
| "str_less (c # cs) (d # ds) \<longleftrightarrow>
     (of_char c :: nat) < of_char d \<or> c = d \<and> str_less cs ds"

definition contentview_lt :: "string \<Rightarrow> string res \<Rightarrow> bool res" where
  "contentview_lt name other_name = res_bind other_name (\<lambda>n. Inr (str_less name n))"

definition contentview_repr :: "string \<Rightarrow> string" where
  "contentview_repr name = ''<mitmproxy_rs.contentview.Contentview: '' @ name @ ''>''"


section \<open>Properties\<close>

subsection \<open>Keys\<close>

locale key_codec_laws =
  fixes K :: key_codec
  assumes decode_encode: "kc_decode K (kc_encode K b) = Some b"
    and public_length: "length s = 32 \<Longrightarrow> length (kc_public K s) = 32"
begin

lemma key_roundtrip: "length b = 32 \<Longrightarrow> string_to_key K (kc_encode K b) = Inr b"
  by (simp add: string_to_key_def decode_encode)

lemma generated_keys:
  assumes "length s = 32"
  shows "\<exists>public. pubkey K (genkey K s) = Inr public \<and> string_to_key K public = Inr (kc_public K s)"
  using assms by (simp add: pubkey_def genkey_def key_roundtrip public_length)

end

text \<open>The laws hold for the hexadecimal alphabet.\<close>

definition hex_keys :: key_codec where
  "hex_keys = \<lparr>kc_decode = hex_decode, kc_encode = hex_text, kc_public = (\<lambda>s. s)\<rparr>"

interpretation hex_key: key_codec_laws hex_keys
  by unfold_locales (simp_all add: hex_keys_def hex_decode_text)

lemma string_to_key_length: "string_to_key K data = Inr key \<Longrightarrow> length key = 32"
  by (auto simp: string_to_key_def bind_eq_Some_conv split: option.splits if_splits)

lemma wireguard_conf_wf:
  assumes "start_wireguard_server K build locals host port private_key peers = Inr r"
  shows "\<exists>conf data. build conf = Inr data \<and> length (wc_private_key conf) = 32 \<and>
     length (wc_peer_public_keys conf) = length peers \<and> (\<forall>k\<in>set (wc_peer_public_keys conf). length k = 32)"
proof -
  obtain k ks where k: "string_to_key K private_key = Inr k" and ks: "map_res (string_to_key K) peers = Inr ks"
    and init: "server_init (build \<lparr>wc_listen_addr = sock_new host port, wc_private_key = k, wc_peer_public_keys = ks\<rparr>) locals = Inr r"
    using assms by (auto simp: start_wireguard_server_def res_bind_eq_Inr)
  have m: "map (string_to_key K) peers = map Inr ks" using ks by (simp add: map_res_Inr_iff)
  then have "length ks = length peers" by (metis length_map)
  moreover have "length x = 32" if "x \<in> set ks" for x
  proof -
    have "Inr x \<in> set (map (string_to_key K) peers)" using m that by simp
    then show ?thesis by (auto dest: string_to_key_length [OF sym])
  qed
  moreover obtain data where "build \<lparr>wc_listen_addr = sock_new host port, wc_private_key = k, wc_peer_public_keys = ks\<rparr> = Inr data"
    using init by (auto simp: server_init_def Let_def res_bind_eq_Inr split: prod.splits)
  ultimately show ?thesis
    using string_to_key_length [OF k]
    by (intro exI [of _ "\<lparr>wc_listen_addr = sock_new host port, wc_private_key = k, wc_peer_public_keys = ks\<rparr>"] exI) auto
qed

subsection \<open>Servers\<close>

lemma started_server_closes:
  assumes "server_init build locals = Inr (started, data)"
  shows "\<not> is_shutting_down (sv_start (sd_server started)) (snd shutdown_channel) \<and>
     is_shutting_down (sv_start (server_close (sd_server started))) (snd shutdown_channel) \<and>
     shutdown_recv (sv_start (server_close (sd_server started))) (snd shutdown_channel) \<noteq> None \<and>
     server_close (server_close (sd_server started)) = server_close (sd_server started)"
  using assms
  by (auto simp: server_init_def shutdown_channel_def res_bind_eq_Inr server_close_def is_shutting_down_def
      shutdown_recv_def)

lemma copy_task_up_to_date:
  assumes "copy_task A t fs = (fs', Inr u)"
  shows "fs' = \<lparr>af_installed = True, af_plist_mtime = Some t\<rparr>"
  using assms by (auto simp: copy_task_def Let_def split: sum.splits if_splits prod.splits)

lemma copy_redirector_app_fresh:
  assumes "copy_redirector_app env fs = Inr (Some (tar, t))" and "af_plist_mtime fs' = Some t"
  shows "copy_redirector_app env fs' = Inr None"
  using assms
  by (auto simp: copy_redirector_app_def res_bind_eq_Inr split: if_splits)

text \<open>
  The macOS app is installed once.  When a local redirector has been started, the app beside the Python
  package is the installed one (or the user keeps the app): starting again copies nothing and leaves the
  file system alone, whatever the copy would have done.
\<close>

theorem redirector_app_installed_once:
  assumes "start_local_redirector OsMacos executable ex build locals env answers fs = (fs', Inr started)"
  shows "copy_redirector_app env fs' = Inr None \<and>
     fst (start_local_redirector OsMacos executable' ex' build' locals' env answers' fs') = fs'"
proof -
  have "copy_redirector_app env fs' = Inr None"
  proof (cases "copy_redirector_app env fs")
    case (Inl e)
    with assms show ?thesis by (simp add: start_local_redirector_def)
  next
    case (Inr task)
    show ?thesis
    proof (cases task)
      case None
      with Inr assms show ?thesis by (auto simp: start_local_redirector_def)
    next
      case (Some tm)
      obtain tar t where tm: "tm = (tar, t)" by force
      from Inr Some tm assms obtain u where "copy_task answers t fs = (fs', Inr u)"
        by (auto simp: start_local_redirector_def Let_def split: prod.splits sum.splits)
      from copy_task_up_to_date [OF this] have "af_plist_mtime fs' = Some t" by simp
      with Inr Some tm show ?thesis using copy_redirector_app_fresh by blast
    qed
  qed
  then show ?thesis by (simp add: start_local_redirector_def)
qed

definition fresh_mac :: app_env where
  "fresh_mac = \<lparr>ae_keep = None, ae_module_dir = Inr (Some ''/lib''), ae_tar_mtime = (\<lambda>p. Some (Inr 17))\<rparr>"

definition good_copy :: copy_answers where
  "good_copy = \<lparr>ca_open = Inr (), ca_remove = Inr (), ca_unpack = Inr 3, ca_set_modified = Inr ()\<rparr>"

lemma fresh_mac_starts:
  "start_local_redirector OsMacos (Inl (Failed [])) (\<lambda>p. False) (\<lambda>c. Inr (0 :: nat, ())) (Inr ()) fresh_mac good_copy
     \<lparr>af_installed = True, af_plist_mtime = Some 5\<rparr> =
   (\<lparr>af_installed = True, af_plist_mtime = Some 17\<rparr>,
    Inr (lr_new \<lparr>sv_start_shutdown = True, sv_start = fst shutdown_channel\<rparr>, [PacketSourceRun 0, PyInteropRun]))"
  by (simp add: start_local_redirector_def copy_redirector_app_def fresh_mac_def good_copy_def copy_task_def
      server_init_def py_interop_new_def shutdown_channel_def)

theorem redirector_app_installed_once_witness:
  "copy_redirector_app fresh_mac \<lparr>af_installed = True, af_plist_mtime = Some 17\<rparr> = Inr None"
  using redirector_app_installed_once [OF fresh_mac_starts] by blast

subsection \<open>The end of the Python task\<close>

lemma end_handlers_eq: "end_handlers active = (case active of [] \<Rightarrow> [] | e # _ \<Rightarrow> [end_handler e])"
  by (cases active) (simp_all add: end_handlers.simps drain_next_def)

fun ended_connection :: "handler_end \<Rightarrow> connection_id" where
  "ended_connection (HandlerJoined c m) = c"
| "ended_connection (HandlerAborted c m) = c"

lemma ended_connection_end_handler [simp]: "ended_connection (end_handler e) = fst e"
  by (simp add: end_handler_def case_prod_beta Let_def)

text \<open>
  When the Python task ends, at most one of the handlers that are still running is joined or aborted:
  the iterator that empties the map takes all entries with it, so the handlers of all other connections are
  neither aborted nor waited for.
\<close>

theorem handlers_left_running:
  assumes "distinct (map fst active)" and "e \<in> set (tl active)"
  shows "length (end_handlers active) = 1 \<and> fst e \<notin> ended_connection ` set (end_handlers active)"
  using assms by (cases active) (auto simp: end_handlers_eq)

theorem handlers_left_running_witness:
  "ConnectionId 2 \<notin> ended_connection ` set (end_handlers
     [(ConnectionId 0, \<lparr>ph_finished = False, ph_join = JoinCancelled\<rparr>),
      (ConnectionId 2, \<lparr>ph_finished = False, ph_join = JoinCancelled\<rparr>)])"
  using handlers_left_running [of
      "[(ConnectionId 0, \<lparr>ph_finished = False, ph_join = JoinCancelled\<rparr>),
        (ConnectionId 2, \<lparr>ph_finished = False, ph_join = JoinCancelled\<rparr>)]"
      "(ConnectionId 2, \<lparr>ph_finished = False, ph_join = JoinCancelled\<rparr>)"]
  by simp

subsection \<open>Content views\<close>

text \<open>An attribute is read once: later reads give what the first one gave.\<close>

lemma get_or_init_again: "get_or_init v cell = (w, cell') \<Longrightarrow> get_or_init v' cell' = (w, cell')"
  by (auto simp: get_or_init_def split: option.splits)

lemma meta_content_type_once:
  "meta_content_type v m = (w, m') \<Longrightarrow> meta_content_type v' m' = (w, m')"
  using get_or_init_again [of v "pm_content_type m" w _ v']
  by (auto simp: meta_content_type_def Let_def split: prod.splits)

lemma str_less_irrefl: "\<not> str_less s s"
  by (induction s) auto

lemma str_less_trans: "str_less s t \<Longrightarrow> str_less t u \<Longrightarrow> str_less s u"
proof (induction s t arbitrary: u rule: str_less.induct)
  case (3 c cs d ds)
  then show ?case by (cases u) auto
qed (auto elim: str_less.elims)

lemma str_less_total: "s = t \<or> str_less s t \<or> str_less t s"
proof (induction s t rule: str_less.induct)
  case (3 c cs d ds)
  then show ?case using less_linear [of "of_char c :: nat" "of_char d"] by (auto simp: of_char_eq_iff)
next
  case (1 s)
  then show ?case by (cases s) auto
qed simp_all

text \<open>The content views are ordered by their names.\<close>

interpretation view_order: linorder "\<lambda>s t. s = t \<or> str_less s t" str_less
  by unfold_locales (use str_less_total in \<open>auto simp: str_less_irrefl dest: str_less_trans\<close>)

end
