(* ===== verification/View_Registry.thy ===== *)
theory View_Registry
  imports Raw_Proto Highlight Servers
begin

text \<open>
  How the content views meet the outside: the metadata they are given (\<^verbatim>\<open>mitmproxy-contentviews/src/lib.rs\<close>,
  \<^verbatim>\<open>test_inspect_metadata.rs\<close>), the protobuf definitions they load from a file or a directory
  (\<^verbatim>\<open>protobuf/existing_proto_definitions.rs\<close>), and their registration in the Python module
  (\<^verbatim>\<open>mitmproxy-rs/src/lib.rs\<close>).  The file system is a tree, the parser of \<^verbatim>\<open>.proto\<close> files and
  YAML are parameters.
\<close>

subsection \<open>Metadata\<close>

text \<open>The methods of the trait, with the answers of its provided methods.\<close>

record 'p metadata =
  md_content_type :: "string option"
  md_get_header :: "string \<Rightarrow> string option"
  md_get_path :: "string option"
  md_is_http_request :: bool
  md_protobuf_definitions :: "'p option"

definition metadata_provided :: "string option \<Rightarrow> (string \<Rightarrow> string option) \<Rightarrow> 'p metadata" where
  "metadata_provided content_type get_header =
     \<lparr>md_content_type = content_type, md_get_header = get_header, md_get_path = None, md_is_http_request = False,
      md_protobuf_definitions = None\<rparr>"

text \<open>\<^verbatim>\<open>TestMetadata\<close>; the names of headers are ASCII, so that \<^verbatim>\<open>to_lowercase\<close> is \<open>ascii_lower\<close> on each character.\<close>

record 'p test_metadata =
  tm_content_type :: "string option"
  tm_headers :: "string \<rightharpoonup> string"
  tm_protobuf_definitions :: "'p option"
  tm_path :: "string option"
  tm_is_http_request :: bool

definition test_metadata_default :: "'p test_metadata" where
  "test_metadata_default =
     \<lparr>tm_content_type = None, tm_headers = Map.empty, tm_protobuf_definitions = None, tm_path = None, tm_is_http_request = False\<rparr>"

definition with_content_type :: "string \<Rightarrow> 'p test_metadata \<Rightarrow> 'p test_metadata" where
  "with_content_type content_type m = m\<lparr>tm_content_type := Some content_type\<rparr>"

definition with_header :: "string \<Rightarrow> string \<Rightarrow> 'p test_metadata \<Rightarrow> 'p test_metadata" where
  "with_header name value m = m\<lparr>tm_headers := (tm_headers m)(map ascii_lower name \<mapsto> value)\<rparr>"

definition with_path :: "string \<Rightarrow> 'p test_metadata \<Rightarrow> 'p test_metadata" where
  "with_path path m = m\<lparr>tm_path := Some path\<rparr>"

definition with_protobuf_definitions :: "'p \<Rightarrow> 'p test_metadata \<Rightarrow> 'p test_metadata" where
  "with_protobuf_definitions definitions m = m\<lparr>tm_protobuf_definitions := Some definitions\<rparr>"

definition with_is_http_request :: "bool \<Rightarrow> 'p test_metadata \<Rightarrow> 'p test_metadata" where
  "with_is_http_request is_http_request m = m\<lparr>tm_is_http_request := is_http_request\<rparr>"

definition test_metadata_methods :: "'p test_metadata \<Rightarrow> 'p metadata" where
  "test_metadata_methods m =
     \<lparr>md_content_type = tm_content_type m, md_get_header = tm_headers m, md_get_path = tm_path m,
      md_is_http_request = tm_is_http_request m, md_protobuf_definitions = tm_protobuf_definitions m\<rparr>"

text \<open>\<^verbatim>\<open>TestInspectMetadata::prettify\<close>; \<open>to_yaml\<close> is \<^verbatim>\<open>serde_yaml::to_string\<close>.\<close>

definition inspected :: "'p metadata \<Rightarrow> 'p test_metadata" where
  "inspected metadata =
     (let headers = (case md_get_header metadata ''host'' of Some host \<Rightarrow> [''host'' \<mapsto> host] | None \<Rightarrow> Map.empty)
      in \<lparr>tm_content_type = md_content_type metadata, tm_headers = headers,
          tm_protobuf_definitions = md_protobuf_definitions metadata, tm_path = md_get_path metadata,
          tm_is_http_request = md_is_http_request metadata\<rparr>)"

definition inspect_prettify :: "('p test_metadata \<Rightarrow> string option) \<Rightarrow> bytes \<Rightarrow> 'p metadata \<Rightarrow> string res" where
  "inspect_prettify to_yaml data metadata =
     (case to_yaml (inspected metadata) of
        None \<Rightarrow> Inl (Failed ''Failed to convert to YAML'')
      | Some s \<Rightarrow> Inr s)"

subsection \<open>The views\<close>

datatype view = HexDump | HexStream | MsgPack | Protobuf | GRPC | TestInspectMetadata

fun view_name :: "view \<Rightarrow> string" where
  "view_name HexDump = ''Hex Dump''"
| "view_name HexStream = ''Hex Stream''"
| "view_name MsgPack = ''MsgPack''"
| "view_name Protobuf = ''Protobuf''"
| "view_name GRPC = ''gRPC''"
| "view_name TestInspectMetadata = ''Inspect Metadata (test only)''"

fun view_instance_name :: "view \<Rightarrow> string" where
  "view_instance_name TestInspectMetadata = ''_test_inspect_metadata''"
| "view_instance_name v = instance_name (view_name v)"

fun view_syntax_highlight :: "view \<Rightarrow> language" where
  "view_syntax_highlight MsgPack = LYaml"
| "view_syntax_highlight Protobuf = LYaml"
| "view_syntax_highlight GRPC = LYaml"
| "view_syntax_highlight _ = LNone"

text \<open>\<^verbatim>\<open>HexDump::prettify\<close>; the dump itself is written by the crate \<^verbatim>\<open>pretty_hex\<close> (\<open>hex_conf\<close>).\<close>

record hex_config =
  hc_title :: bool
  hc_ascii :: bool
  hc_width :: nat
  hc_group :: nat
  hc_chunk :: nat
  hc_max_bytes :: u64
  hc_display_offset :: nat

definition hex_dump_config :: hex_config where
  "hex_dump_config =
     \<lparr>hc_title = False, hc_ascii = True, hc_width = 16, hc_group = 4, hc_chunk = 1, hc_max_bytes = - 1, hc_display_offset = 0\<rparr>"

definition hex_dump_prettify :: "(hex_config \<Rightarrow> bytes \<Rightarrow> string) \<Rightarrow> bytes \<Rightarrow> string res" where
  "hex_dump_prettify hex_conf data = Inr (hex_conf hex_dump_config data)"

text \<open>In tenths, as in \<open>Contentviews\<close>.\<close>

fun view_render_priority :: "view \<Rightarrow> bytes \<Rightarrow> 'p metadata \<Rightarrow> nat" where
  "view_render_priority HexDump data metadata = hex_dump_priority data"
| "view_render_priority HexStream data metadata = hex_stream_priority data"
| "view_render_priority MsgPack data metadata = msgpack_priority (md_content_type metadata)"
| "view_render_priority Protobuf data metadata = protobuf_priority (md_content_type metadata)"
| "view_render_priority GRPC data metadata = grpc_priority (md_content_type metadata)"
| "view_render_priority TestInspectMetadata data metadata = 0"

text \<open>The getters of the Python class.\<close>

definition contentview_name :: "view \<Rightarrow> string" where
  "contentview_name v = view_name v"

definition contentview_syntax_highlight :: "view \<Rightarrow> string" where
  "contentview_syntax_highlight v = language_as_str (view_syntax_highlight v)"

subsection \<open>Registration in Python\<close>

text \<open>
  A Python module: its \<^verbatim>\<open>__all__\<close> and its attributes.  Creating an object and adding it to a module may
  fail (\<open>pe_new\<close>, \<open>pe_add\<close>, by name); the first error ends the initialisation.
\<close>

datatype view_object = Contentview view | InteractiveContentview view

record 'o py_module =
  py_all :: "string list"
  py_attrs :: "string \<rightharpoonup> 'o"

record py_env =
  pe_new :: "view_object \<Rightarrow> fault option"
  pe_add :: "string \<Rightarrow> fault option"

definition module_add :: "py_env \<Rightarrow> string \<Rightarrow> 'o \<Rightarrow> 'o py_module \<Rightarrow> 'o py_module res" where
  "module_add P name v m =
     (case pe_add P name of
        Some e \<Rightarrow> Inl e
      | None \<Rightarrow> Inr (m\<lparr>py_all := py_all m @ [name], py_attrs := (py_attrs m)(name \<mapsto> v)\<rparr>))"

definition add_contentview :: "py_env \<Rightarrow> view \<Rightarrow> view_object py_module \<Rightarrow> view_object py_module res" where
  "add_contentview P cv m =
     (case pe_new P (Contentview cv) of
        Some e \<Rightarrow> Inl e
      | None \<Rightarrow> module_add P (view_instance_name cv) (Contentview cv) m)"

definition add_interactive_contentview :: "py_env \<Rightarrow> view \<Rightarrow> view_object py_module \<Rightarrow> view_object py_module res" where
  "add_interactive_contentview P cv m =
     (case pe_new P (InteractiveContentview cv) of
        Some e \<Rightarrow> Inl e
      | None \<Rightarrow> module_add P (view_instance_name cv) (InteractiveContentview cv) m)"

definition contentviews_init :: "py_env \<Rightarrow> view_object py_module \<Rightarrow> view_object py_module res" where
  "contentviews_init P m =
     res_bind (add_contentview P HexDump m) (\<lambda>m.
     res_bind (add_interactive_contentview P HexStream m) (\<lambda>m.
     res_bind (add_interactive_contentview P MsgPack m) (\<lambda>m.
     res_bind (add_interactive_contentview P Protobuf m) (\<lambda>m.
     res_bind (add_interactive_contentview P GRPC m) (\<lambda>m.
     add_contentview P TestInspectMetadata m)))))"

fun interactive :: "view \<Rightarrow> bool" where
  "interactive HexDump = False"
| "interactive TestInspectMetadata = False"
| "interactive _ = True"

definition view_object_of :: "view \<Rightarrow> view_object" where
  "view_object_of v = (if interactive v then InteractiveContentview v else Contentview v)"

text \<open>
  The logger: \<^verbatim>\<open>LOGGER_INITIALIZED\<close> is the state, \<open>try_init\<close> the result of \<^verbatim>\<open>pyo3_log::try_init\<close>.
\<close>

definition init_logger :: "bool \<Rightarrow> bool \<Rightarrow> unit res \<times> bool" where
  "init_logger try_init initialized =
     (if initialized then (Inr (), initialized)
      else if try_init then (Inr (), True)
      else (Inl (Failed ''Failed to initialize mitmproxy_rs logger.''), initialized))"

datatype platform = PlatformMacos | PlatformLinux | PlatformLinuxDocs | PlatformWindows | PlatformOther

fun platform_module :: "platform \<Rightarrow> string option" where
  "platform_module PlatformMacos = Some ''mitmproxy_macos''"
| "platform_module PlatformLinux = Some ''mitmproxy_linux''"
| "platform_module PlatformLinuxDocs = None"
| "platform_module PlatformWindows = Some ''mitmproxy_windows''"
| "platform_module PlatformOther = None"

definition module_init :: "platform \<Rightarrow> (string \<Rightarrow> unit res) \<Rightarrow> bool \<Rightarrow> bool \<Rightarrow> unit res \<times> bool" where
  "module_init p py_import try_init initialized =
     (case init_logger try_init initialized of
        (Inl e, s) \<Rightarrow> (Inl e, s)
      | (Inr _, s) \<Rightarrow>
          ((case platform_module p of None \<Rightarrow> Inr () | Some name \<Rightarrow> py_import name), s))"

subsection \<open>Loading protobuf definitions\<close>

text \<open>
  A node of the file system is a directory, a directory that cannot be read, or anything else (a link
  is not followed and counts as a file).  An entry of a directory may itself be an error, which
  \<^verbatim>\<open>flatten\<close> skips, or have no metadata, which ends the walk.  Paths are lists of names.
\<close>

datatype fs_node = FsFile | FsDir "fs_entry list" | FsUnreadable
  and fs_entry = EntryErr | Entry string fs_node | EntryNoMetadata string

type_synonym path = "string list"

record proto_parser =
  pp_includes :: "path list"
  pp_inputs :: "path list"

definition parser_new :: proto_parser where
  "parser_new = \<lparr>pp_includes = [], pp_inputs = []\<rparr>"

definition parser_include :: "path \<Rightarrow> proto_parser \<Rightarrow> proto_parser" where
  "parser_include p parser = parser\<lparr>pp_includes := pp_includes parser @ [p]\<rparr>"

definition parser_input :: "path \<Rightarrow> proto_parser \<Rightarrow> proto_parser" where
  "parser_input p parser = parser\<lparr>pp_inputs := pp_inputs parser @ [p]\<rparr>"

definition is_proto :: "string \<Rightarrow> bool" where
  "is_proto name \<longleftrightarrow> drop (length name - 6) name = ''.proto''"

fun is_dir :: "fs_node \<Rightarrow> bool" where
  "is_dir FsFile = False"
| "is_dir (FsDir es) = True"
| "is_dir FsUnreadable = True"

fun walk_proto_directory :: "path \<Rightarrow> fs_node \<Rightarrow> proto_parser \<Rightarrow> proto_parser res"
  and walk_entries :: "path \<Rightarrow> fs_entry list \<Rightarrow> proto_parser \<Rightarrow> proto_parser res" where
  "walk_proto_directory p FsFile parser = Inl (Failed ''failed to read protobuf directory'')"
| "walk_proto_directory p FsUnreadable parser = Inl (Failed ''failed to read protobuf directory'')"
| "walk_proto_directory p (FsDir es) parser = walk_entries p es (parser_include p parser)"
| "walk_entries p [] parser = Inr parser"
| "walk_entries p (EntryErr # es) parser = walk_entries p es parser"
| "walk_entries p (EntryNoMetadata name # es) parser = Inl (Failed ''metadata'')"
| "walk_entries p (Entry name node # es) parser =
     (if is_dir node then
        (case walk_proto_directory (p @ [name]) node parser of
           Inl e \<Rightarrow> Inl e
         | Inr parser \<Rightarrow> walk_entries p es parser)
      else if is_proto name then walk_entries p es (parser_input (p @ [name]) parser)
      else walk_entries p es parser)"

text \<open>
  \<^verbatim>\<open>parse_file_descriptor_set\<close>: \<open>run\<close> is \<^verbatim>\<open>Parser::file_descriptor_set\<close>, \<open>build\<close>
  \<^verbatim>\<open>FileDescriptor::new_dynamic_fds\<close>.
\<close>

definition parse_file_descriptor_set ::
  "(proto_parser \<Rightarrow> 'd res) \<Rightarrow> ('d \<Rightarrow> 'm file_def list res) \<Rightarrow> path \<Rightarrow> fs_node \<Rightarrow> 'm file_def list res" where
  "parse_file_descriptor_set run build definitions_path node =
     res_bind
       (if is_dir node then walk_proto_directory definitions_path node parser_new
        else
          Inr (parser_input definitions_path
                (if definitions_path = [] then parser_new else parser_include (butlast definitions_path) parser_new)))
       (\<lambda>parser. res_bind (run parser) build)"

text \<open>\<^verbatim>\<open>impl Display for RpcInfo\<close>.\<close>

definition rpc_fmt :: "rpc_info \<Rightarrow> string" where
  "rpc_fmt r =
     (if rpc_package r = [] then [] else rpc_package r @ ''.'') @
     (if rpc_service r = [] then [] else rpc_service r @ ''.'') @ rpc_method r"

subsection \<open>What the walk finds\<close>

text \<open>\<open>fs_path root q node\<close>: following the names \<open>q\<close> from \<open>root\<close> leads to \<open>node\<close>.\<close>

inductive fs_path :: "fs_node \<Rightarrow> path \<Rightarrow> fs_node \<Rightarrow> bool" where
  fs_here: "fs_path node [] node"
| fs_step: "Entry name node \<in> set es \<Longrightarrow> fs_path node q target \<Longrightarrow> fs_path (FsDir es) (name # q) target"

inductive_simps fs_path_simps: "fs_path FsFile q n" "fs_path FsUnreadable q n" "fs_path (FsDir es) (x # q) n" "fs_path n [] m"

text \<open>The files whose names end in \<^verbatim>\<open>.proto\<close>, the directories, and whether all of the tree can be read.\<close>

definition proto_files :: "fs_node \<Rightarrow> path set" where
  "proto_files root = {q. q \<noteq> [] \<and> (\<exists>stem. last q = stem @ ''.proto'') \<and> (\<exists>n. fs_path root q n \<and> \<not> is_dir n)}"

definition sub_dirs :: "fs_node \<Rightarrow> path set" where
  "sub_dirs root = {q. \<exists>n. fs_path root q n \<and> is_dir n}"

definition readable :: "fs_node \<Rightarrow> bool" where
  "readable root \<longleftrightarrow>
     (\<forall>q. \<not> fs_path root q FsUnreadable) \<and> (\<forall>q es name. fs_path root q (FsDir es) \<longrightarrow> EntryNoMetadata name \<notin> set es)"

lemma is_proto_iff: "(\<exists>stem. name = stem @ ''.proto'') \<longleftrightarrow> is_proto name"
  proof
  assume "\<exists>stem. name = stem @ ''.proto''"
  then show "is_proto name" by (auto simp: is_proto_def)
next
  assume "is_proto name"
  then have "name = take (length name - 6) name @ ''.proto''" by (metis is_proto_def append_take_drop_id)
  then show "\<exists>stem. name = stem @ ''.proto''" by blast
qed

lemma fs_path_dir_Nil: "fs_path (FsDir []) q n \<longleftrightarrow> q = [] \<and> n = FsDir []"
  by (cases q) (auto simp: fs_path_simps)

lemma fs_path_dir_Entry:
  "q \<noteq> [] \<Longrightarrow> fs_path (FsDir (Entry a n # es)) q m \<longleftrightarrow> (\<exists>q'. q = a # q' \<and> fs_path n q' m) \<or> fs_path (FsDir es) q m"
  by (cases q) (auto simp: fs_path_simps)

lemma fs_path_dir_skip:
  "q \<noteq> [] \<Longrightarrow> fs_path (FsDir (EntryErr # es)) q m \<longleftrightarrow> fs_path (FsDir es) q m"
  by (cases q) (auto simp: fs_path_simps)

lemma proto_files_dir:
  "proto_files (FsDir []) = {}" "proto_files (FsDir (EntryErr # es)) = proto_files (FsDir es)"
  "proto_files (FsDir (Entry a n # es)) =
     (if is_dir n then (#) a ` proto_files n else if is_proto a then {[a]} else {}) \<union> proto_files (FsDir es)"
proof -
  show "proto_files (FsDir []) = {}" "proto_files (FsDir (EntryErr # es)) = proto_files (FsDir es)"
    by (auto simp: proto_files_def fs_path_dir_Nil fs_path_dir_skip)
  have leaf: "is_proto (last (a # q')) \<and> (\<exists>m. fs_path n q' m \<and> \<not> is_dir m) \<longleftrightarrow>
      (if is_dir n then q' \<in> proto_files n else q' = [] \<and> is_proto a)" for q'
    by (cases n; cases "q' = []") (auto simp: fs_path_simps proto_files_def is_proto_iff)
  have "q \<in> proto_files (FsDir (Entry a n # es)) \<longleftrightarrow>
      (\<exists>q'. q = a # q' \<and> is_proto (last (a # q')) \<and> (\<exists>m. fs_path n q' m \<and> \<not> is_dir m)) \<or> q \<in> proto_files (FsDir es)" for q
    by (cases "q = []") (auto simp: proto_files_def is_proto_iff fs_path_dir_Entry simp del: last.simps)
  then show "proto_files (FsDir (Entry a n # es)) =
     (if is_dir n then (#) a ` proto_files n else if is_proto a then {[a]} else {}) \<union> proto_files (FsDir es)"
    unfolding leaf by auto
qed

lemma sub_dirs_dir:
  "sub_dirs (FsDir []) = {[]}" "sub_dirs (FsDir (EntryErr # es)) = sub_dirs (FsDir es)"
  "sub_dirs (FsDir (Entry a n # es)) = (if is_dir n then (#) a ` sub_dirs n else {}) \<union> sub_dirs (FsDir es)"
proof -
  show "sub_dirs (FsDir []) = {[]}" by (auto simp: sub_dirs_def fs_path_dir_Nil)
  have "q \<in> sub_dirs (FsDir (EntryErr # es)) \<longleftrightarrow> q \<in> sub_dirs (FsDir es)" for q
    by (cases "q = []") (auto simp: sub_dirs_def fs_path_dir_skip fs_path_simps)
  then show "sub_dirs (FsDir (EntryErr # es)) = sub_dirs (FsDir es)" by blast
  have "q \<in> sub_dirs (FsDir (Entry a n # es)) \<longleftrightarrow> (\<exists>q'. q = a # q' \<and> q' \<in> sub_dirs n) \<or> q \<in> sub_dirs (FsDir es)" for q
    by (cases "q = []") (auto simp: sub_dirs_def fs_path_dir_Entry fs_path_simps)
  moreover have "\<not> is_dir n \<Longrightarrow> sub_dirs n = {}" by (cases n) (auto simp: sub_dirs_def fs_path_simps)
  ultimately show "sub_dirs (FsDir (Entry a n # es)) = (if is_dir n then (#) a ` sub_dirs n else {}) \<union> sub_dirs (FsDir es)"
    by auto
qed

lemma readable_dir:
  "readable (FsDir [])" "readable (FsDir (EntryErr # es)) = readable (FsDir es)"
  "\<not> readable (FsDir (EntryNoMetadata a # es))" "\<not> readable FsUnreadable" "readable FsFile"
  "readable (FsDir (Entry a n # es)) \<longleftrightarrow> readable n \<and> readable (FsDir es)"
proof -
  show "readable (FsDir [])" "readable FsFile" "\<not> readable FsUnreadable"
    by (auto simp: readable_def fs_path_dir_Nil fs_path_simps)
  show "\<not> readable (FsDir (EntryNoMetadata a # es))" using fs_here by (fastforce simp: readable_def)
  have split: "(\<forall>q. P q) \<longleftrightarrow> P [] \<and> (\<forall>q. q \<noteq> [] \<longrightarrow> P q)" for P :: "path \<Rightarrow> bool" by metis
  show "readable (FsDir (EntryErr # es)) = readable (FsDir es)"
    unfolding readable_def split [of "\<lambda>q. \<not> fs_path _ q _"] split [of "\<lambda>q. \<forall>es name. fs_path _ q (FsDir es) \<longrightarrow> _ es name"]
    by (auto simp: fs_path_dir_skip fs_path_simps)
  show "readable (FsDir (Entry a n # es)) \<longleftrightarrow> readable n \<and> readable (FsDir es)"
    unfolding readable_def split [of "\<lambda>q. \<not> fs_path (FsDir _) q _"]
      split [of "\<lambda>q. \<forall>es name. fs_path (FsDir _) q (FsDir es) \<longrightarrow> _ es name"]
    by (auto simp: fs_path_dir_Entry fs_path_simps) blast+
qed

lemmas tree_simps = proto_files_dir sub_dirs_dir readable_dir

lemma sub_dirs_Nil: "is_dir n \<Longrightarrow> [] \<in> sub_dirs n"
  by (auto simp: sub_dirs_def intro: fs_here)

lemma walk_finds:
  "case walk_proto_directory p n parser of
     Inl e \<Rightarrow> is_dir n \<longrightarrow> \<not> readable n
   | Inr r \<Rightarrow> readable n \<and> set (pp_inputs r) = set (pp_inputs parser) \<union> (@) p ` proto_files n \<and>
       set (pp_includes r) = set (pp_includes parser) \<union> (@) p ` sub_dirs n"
  "case walk_entries p es parser of
     Inl e \<Rightarrow> \<not> readable (FsDir es)
   | Inr r \<Rightarrow> readable (FsDir es) \<and> set (pp_inputs r) = set (pp_inputs parser) \<union> (@) p ` proto_files (FsDir es) \<and>
       set (pp_includes r) = set (pp_includes parser) \<union> (@) p ` (sub_dirs (FsDir es) - {[]})"
proof (induction p n parser and p es parser rule: walk_proto_directory_walk_entries.induct)
  case (3 p es parser)
  have "insert p (A \<union> (@) p ` (sub_dirs (FsDir es) - {[]})) = A \<union> (@) p ` sub_dirs (FsDir es)" for A
    using sub_dirs_Nil [of "FsDir es"] by force
  then show ?case using 3 by (auto simp: parser_include_def split: sum.splits)
next
  case (7 p a n es parser)
  show ?case
  proof (cases "is_dir n")
    case True
    have paths: "(@) p ` ((#) a ` X) = (@) (p @ [a]) ` X" for X by (simp add: image_image)
    have diff: "(#) a ` X \<union> Y - {[]} = (#) a ` X \<union> (Y - {[]})" for X Y by auto
    show ?thesis
      using 7(1) [OF True] 7(2) [OF True] True
      by (auto simp: tree_simps diff image_Un paths split: sum.splits)
  next
    case False
    then have "readable n" by (cases n) (simp_all add: tree_simps)
    then show ?thesis using 7(3,4) False
      by (cases "is_proto a") (auto simp: tree_simps parser_input_def split: sum.splits)
  qed
qed (auto simp: tree_simps split: sum.splits)

text \<open>
  The tree without the directory entries that could not be read: \<^verbatim>\<open>read_dir\<close> reports them as
  errors, and \<^verbatim>\<open>flatten\<close> drops them.
\<close>

fun without_errors :: "fs_node \<Rightarrow> fs_node"
  and without_error_entries :: "fs_entry list \<Rightarrow> fs_entry list" where
  "without_errors (FsDir es) = FsDir (without_error_entries es)"
| "without_errors FsFile = FsFile"
| "without_errors FsUnreadable = FsUnreadable"
| "without_error_entries [] = []"
| "without_error_entries (EntryErr # es) = without_error_entries es"
| "without_error_entries (EntryNoMetadata a # es) = EntryNoMetadata a # without_error_entries es"
| "without_error_entries (Entry a n # es) = Entry a (without_errors n) # without_error_entries es"

lemma is_dir_without_errors [simp]: "is_dir (without_errors n) = is_dir n"
  by (cases n) simp_all

lemma walk_skips_errors:
  "walk_proto_directory p (without_errors n) parser = walk_proto_directory p n parser"
  "walk_entries p (without_error_entries es) parser = walk_entries p es parser"
  by (induction p n parser and p es parser rule: walk_proto_directory_walk_entries.induct)
    (auto split: sum.splits)

text \<open>
  C39. Loading protobuf definitions from a directory finds everything below it that can be listed.  An entry
  whose reading fails is skipped without notice: the result is that of the tree without such entries.
  For the rest, loading fails exactly if some directory of the tree cannot be opened or some entry has no
  metadata; otherwise the parser is given exactly the files whose names end in \<^verbatim>\<open>.proto\<close>, at any
  depth, and exactly the directories as include paths.
\<close>

theorem proto_directory_loaded:
  "walk_proto_directory p (FsDir es) parser_new = walk_proto_directory p (without_errors (FsDir es)) parser_new \<and>
   (case walk_proto_directory p (FsDir es) parser_new of
     Inl e \<Rightarrow> \<not> readable (without_errors (FsDir es))
   | Inr parser \<Rightarrow> readable (without_errors (FsDir es)) \<and>
       set (pp_inputs parser) = (@) p ` proto_files (without_errors (FsDir es)) \<and>
       set (pp_includes parser) = (@) p ` sub_dirs (without_errors (FsDir es)))"
  using walk_finds(1) [where p = p and n = "without_errors (FsDir es)" and parser = parser_new]
  by (simp add: parser_new_def walk_skips_errors(1) del: walk_proto_directory.simps without_errors.simps split: sum.splits)

subsection \<open>The registered views\<close>

text \<open>The attributes of the module after its initialisation.\<close>

lemma instance_names:
  "view_instance_name HexDump = ''hex_dump''" "view_instance_name HexStream = ''hex_stream''"
  "view_instance_name MsgPack = ''msgpack''" "view_instance_name Protobuf = ''protobuf''"
  "view_instance_name GRPC = ''grpc''"
  by code_simp+

lemma view_instance_name_inj: "view_instance_name v = view_instance_name w \<longleftrightarrow> v = w"
  by (cases v; cases w) (simp_all add: instance_names del: view_instance_name.simps(2-6))

lemma module_add_Inr:
  "module_add P name v m = Inr m' \<longleftrightarrow> pe_add P name = None \<and> m' = m\<lparr>py_all := py_all m @ [name], py_attrs := (py_attrs m)(name \<mapsto> v)\<rparr>"
  by (auto simp: module_add_def split: option.splits)

definition all_views :: "view list" where
  "all_views = [HexDump, HexStream, MsgPack, Protobuf, GRPC, TestInspectMetadata]"

lemma all_views_UNIV: "set all_views = UNIV"
  using view.exhaust by (auto simp: all_views_def)

lemma contentviews_init_Inr:
  assumes "contentviews_init P m = Inr m'"
  shows "py_all m' = py_all m @ map view_instance_name all_views \<and>
     py_attrs m' = (py_attrs m)(map view_instance_name all_views [\<mapsto>] map view_object_of all_views)"
  using assms
  by (simp add: contentviews_init_def add_contentview_def add_interactive_contentview_def res_bind_eq_Inr module_add_Inr
      all_views_def view_object_of_def del: view_instance_name.simps split: option.splits)

text \<open>
  After a successful initialisation every view is an attribute under its own name, none has
  overwritten another, \<^verbatim>\<open>__all__\<close> has each name once more, other attributes are as before, and the
  syntax highlighting of every view is a language the highlighter accepts.
\<close>

lemma views_registered:
  assumes "contentviews_init P m = Inr m'"
  shows "py_attrs m' (view_instance_name v) = Some (view_object_of v)"
    and "distinct (map view_instance_name all_views)" and "py_all m' = py_all m @ map view_instance_name all_views"
    and "name \<notin> range view_instance_name \<Longrightarrow> py_attrs m' name = py_attrs m name"
    and "language_from_str (contentview_syntax_highlight v) = Inr (view_syntax_highlight v)"
proof -
  note init = contentviews_init_Inr [OF assms]
  show distinct: "distinct (map view_instance_name all_views)"
    unfolding distinct_map by (simp add: all_views_def inj_on_def view_instance_name_inj)
  have "map_of (rev (zip (map view_instance_name all_views) (map view_object_of all_views))) (view_instance_name v) = Some (view_object_of v)"
    using distinct all_views_UNIV
    by (subst map_of_eq_Some_iff) (auto simp: rev_map [symmetric] zip_map_map zip_same_conv_map comp_def)
  then show "py_attrs m' (view_instance_name v) = Some (view_object_of v)"
    using init by (simp add: map_upds_def map_add_def)
  show "py_all m' = py_all m @ map view_instance_name all_views" using init by simp
  show "name \<notin> range view_instance_name \<Longrightarrow> py_attrs m' name = py_attrs m name"
    using init map_upds_apply_nontin [of name "map view_instance_name all_views"] all_views_UNIV by auto
  show "language_from_str (contentview_syntax_highlight v) = Inr (view_syntax_highlight v)"
    by (simp add: contentview_syntax_highlight_def language_roundtrip)
qed

text \<open>
  The automatic choice of a view is never a matter of order: two views of the same positive priority are
  the same view, and for a content type some view is made for, that view has the highest priority of
  all, whatever the data.
\<close>

lemmas priority_defs = hex_dump_priority_def hex_stream_priority_def msgpack_priority_def protobuf_priority_def grpc_priority_def

lemma best_view_unique:
  assumes "view_render_priority v data metadata = view_render_priority w data metadata"
    and "0 < view_render_priority v data metadata"
  shows "v = w"
  using assms by (cases v; cases w) (auto simp: priority_defs split: if_splits)

lemma content_type_wins:
  assumes "view_render_priority v data metadata = 10" and "w \<noteq> v"
  shows "view_render_priority w data' metadata < 10"
  using assms by (cases v; cases w) (auto simp: priority_defs split: if_splits)

subsection \<open>Metadata and the module\<close>

text \<open>
  The header of a \<^verbatim>\<open>TestMetadata\<close> is found under its name in lower case only, although the
  trait promises that the name is case-insensitive.
\<close>

lemma header_lower_case:
  "md_get_header (test_metadata_methods (with_header name value m)) (map ascii_lower name) = Some value"
  "md_get_header (test_metadata_methods (with_header ''Host'' value test_metadata_default)) ''Host'' = None"
proof -
  show "md_get_header (test_metadata_methods (with_header name value m)) (map ascii_lower name) = Some value"
    by (simp add: test_metadata_methods_def with_header_def)
  have "map ascii_lower ''Host'' \<noteq> ''Host''" by code_simp
  then show "md_get_header (test_metadata_methods (with_header ''Host'' value test_metadata_default)) ''Host'' = None"
    by (auto simp: test_metadata_methods_def with_header_def test_metadata_default_def)
qed

text \<open>Inspecting what has been inspected changes nothing.\<close>

lemma inspected_idem: "inspected (test_metadata_methods (inspected m)) = inspected m"
  by (auto simp: inspected_def test_metadata_methods_def Let_def split: option.splits)

text \<open>
  Once the module has been initialised, initialising it again does not depend on the logger, and
  fails only if the platform's module cannot be imported.
\<close>

lemma module_init_again:
  assumes "module_init p py_import try_init initialized = (Inr (), s)"
  shows "s \<and> module_init p py_import try_init' s = (Inr (), True)"
  using assms by (auto simp: module_init_def init_logger_def split: if_splits option.splits)

text \<open>What the log prints of an RPC is its path with dots.\<close>

lemma rpc_fmt_path:
  assumes "{CHR ''/'', CHR ''?''} \<inter> set (pkg @ svc @ m) = {}" and "CHR ''.'' \<notin> set svc" and "pkg \<noteq> []" and "svc \<noteq> []"
  shows "map_option rpc_fmt (from_metadata (Some (''/'' @ pkg @ ''.'' @ svc @ ''/'' @ m))) = Some (pkg @ ''.'' @ svc @ ''.'' @ m)"
  unfolding from_metadata_path [OF assms(1,2)] using assms(3,4) by (simp add: rpc_fmt_def)

end
