(* ===== verification/Dns.thy ===== *)
theory Dns
  imports Messages "HOL-Library.Multiset"
begin

text \<open>
  \<^verbatim>\<open>src/dns.rs\<close> and its Python class (\<^verbatim>\<open>mitmproxy-rs/src/dns_resolver.rs\<close>): the resolver.  Queries and the system's configuration are those of
  hickory-resolver, and parameters; the configuration of the resolver, the filters and the order of the
  addresses are modelled.
\<close>

subsection \<open>Configuration\<close>

datatype dns_protocol = DnsUdp | DnsTcp | DnsOther

datatype resolve_hosts = HostsAlways | HostsNever | HostsAuto

datatype ip_strategy = Ipv4AndIpv6 | OtherStrategy

record dns_opts =
  do_use_hosts_file :: resolve_hosts
  do_ip_strategy :: ip_strategy

type_synonym dns_config = "(socket_addr \<times> dns_protocol) list"

text \<open>\<open>DNS_SERVERS\<close>: the system's servers that speak UDP, as text.\<close>

definition dns_servers :: "(ip_addr \<Rightarrow> string) \<Rightarrow> (dns_config \<times> dns_opts) res \<Rightarrow> string list res" where
  "dns_servers to_text system_conf =
     res_bind system_conf (\<lambda>(config, opts).
       Inr (map (\<lambda>ns. to_text (sock_ip (fst ns))) (filter (\<lambda>ns. snd ns = DnsUdp) config)))"

definition dns_resolver_new ::
  "(dns_config \<times> dns_opts) res \<Rightarrow> dns_opts \<Rightarrow> socket_addr list option \<Rightarrow> bool \<Rightarrow> (dns_config \<times> dns_opts) res" where
  "dns_resolver_new system_conf default_opts name_servers use_hosts_file =
     res_bind
       (case name_servers of
          Some ns \<Rightarrow>
            Inr (concat (map (\<lambda>addr. [(addr, DnsUdp), (addr, DnsTcp)]) ns),
                 case system_conf of Inr (c, opts) \<Rightarrow> opts | Inl e \<Rightarrow> default_opts)
        | None \<Rightarrow> system_conf)
       (\<lambda>(config, opts).
          Inr (config, opts\<lparr>do_use_hosts_file := (if use_hosts_file then HostsAlways else HostsNever),
                           do_ip_strategy := Ipv4AndIpv6\<rparr>))"

subsection \<open>Queries\<close>

text \<open>
  The loop of \<^verbatim>\<open>_interleave_addrinfos\<close>: addresses are taken from the end of both vectors, and what is
  left of the IPv6 addresses is appended as it is.
\<close>

function interleave_loop :: "ip_addr list \<Rightarrow> ip_addr list \<Rightarrow> ip_addr list" where
  "interleave_loop ipv4_addrs ipv6_addrs =
     (if ipv4_addrs = [] then ipv6_addrs
      else if ipv6_addrs = [] then last ipv4_addrs # interleave_loop (butlast ipv4_addrs) []
      else last ipv4_addrs # last ipv6_addrs # interleave_loop (butlast ipv4_addrs) (butlast ipv6_addrs))"
  by pat_completeness auto
termination
  by (relation "measure (\<lambda>(a, b). length a)") auto

declare interleave_loop.simps [simp del]

definition interleave_addrinfos :: "ip_addr list \<Rightarrow> ip_addr list" where
  "interleave_addrinfos lookup_ip =
     interleave_loop (filter is_ipv4 lookup_ip) (filter (\<lambda>a. \<not> is_ipv4 a) lookup_ip)"

text \<open>
  An error of a query: the domain does not exist, it has no (such) records, or anything else.
\<close>

datatype resolve_error = NxDomain | NoRecords | OtherError string

type_synonym dns_answer = "resolve_error + ip_addr list"

definition dns_lookup_ip :: "dns_answer \<Rightarrow> dns_answer" where
  "dns_lookup_ip lookup = map_sum id interleave_addrinfos lookup"

text \<open>
  The error made for an empty selection is hickory's \<^verbatim>\<open>nx_error\<close> with the response code
  \<^verbatim>\<open>NoError\<close>, which hickory classifies as an answer without records (not as a missing domain).
\<close>

definition lookup_ipvx :: "dns_answer \<Rightarrow> (ip_addr \<Rightarrow> bool) \<Rightarrow> dns_answer" where
  "lookup_ipvx lookup keep =
     (case lookup of
        Inl e \<Rightarrow> Inl e
      | Inr l \<Rightarrow>
          let addrs = filter keep l in
          if addrs = [] then Inl NoRecords else Inr addrs)"

definition lookup_ipv4 :: "dns_answer \<Rightarrow> dns_answer" where
  "lookup_ipv4 lookup = lookup_ipvx lookup is_ipv4"

definition lookup_ipv6 :: "dns_answer \<Rightarrow> dns_answer" where
  "lookup_ipv6 lookup = lookup_ipvx lookup (\<lambda>a. \<not> is_ipv4 a)"

subsection \<open>The Python class\<close>

text \<open>\<^verbatim>\<open>socket.gaierror\<close>, with the name of the constant it carries.\<close>

datatype gaierror = Gaierror (gai_const: string) (gai_text: string)

definition resolve_result_to_py :: "(ip_addr \<Rightarrow> string) \<Rightarrow> dns_answer \<Rightarrow> gaierror + string list" where
  "resolve_result_to_py to_text resolved =
     (case resolved of
        Inr resp \<Rightarrow> Inr (map to_text resp)
      | Inl NxDomain \<Rightarrow> Inl (Gaierror ''EAI_NONAME'' ''NXDOMAIN'')
      | Inl NoRecords \<Rightarrow> Inl (Gaierror ''EAI_NODATA'' ''NOERROR'')
      | Inl (OtherError e) \<Rightarrow> Inl (Gaierror ''EAI_AGAIN'' e))"

text \<open>
  The number a constant of the module \<^verbatim>\<open>socket\<close> has, read once; \<open>lookup\<close> is the import, the attribute and
  its conversion, all of which may fail.
\<close>

record addr_info_error_const =
  ac_identifier :: string
  ac_cell :: "int option"

definition addr_const_new :: "string \<Rightarrow> addr_info_error_const" where
  "addr_const_new identifier = \<lparr>ac_identifier = identifier, ac_cell = None\<rparr>"

definition addr_const_get :: "(string \<Rightarrow> int option) \<Rightarrow> addr_info_error_const \<Rightarrow> int \<times> addr_info_error_const" where
  "addr_const_get lookup c =
     (case ac_cell c of
        Some v \<Rightarrow> (v, c)
      | None \<Rightarrow>
          let v = (case lookup (ac_identifier c) of Some v \<Rightarrow> v | None \<Rightarrow> 0) in (v, c\<lparr>ac_cell := Some v\<rparr>))"

definition py_get_system_dns_servers :: "string list res \<Rightarrow> string + string list" where
  "py_get_system_dns_servers servers =
     (case servers of
        Inr s \<Rightarrow> Inr s
      | Inl (Failed e) \<Rightarrow> Inl (''failed to get dns servers: '' @ e)
      | Inl (Panicked e) \<Rightarrow> Inl (''failed to get dns servers: '' @ e))"

lemma addr_const_once: "addr_const_get lookup c = (v, c') \<Longrightarrow> addr_const_get lookup' c' = (v, c')"
  by (auto simp: addr_const_get_def Let_def split: option.splits)

definition py_dns_resolver_new ::
  "(dns_config \<times> dns_opts) res \<Rightarrow> dns_opts \<Rightarrow> ip_addr list option \<Rightarrow> bool \<Rightarrow> (dns_config \<times> dns_opts) res" where
  "py_dns_resolver_new system_conf default_opts name_servers use_hosts_file =
     dns_resolver_new system_conf default_opts (map_option (map (\<lambda>ip. sock_new ip 53)) name_servers) use_hosts_file"

definition py_lookup_ip :: "(ip_addr \<Rightarrow> string) \<Rightarrow> dns_answer \<Rightarrow> gaierror + string list" where
  "py_lookup_ip to_text lookup = resolve_result_to_py to_text (dns_lookup_ip lookup)"

definition py_lookup_ipv4 :: "(ip_addr \<Rightarrow> string) \<Rightarrow> dns_answer \<Rightarrow> gaierror + string list" where
  "py_lookup_ipv4 to_text lookup = resolve_result_to_py to_text (lookup_ipv4 lookup)"

definition py_lookup_ipv6 :: "(ip_addr \<Rightarrow> string) \<Rightarrow> dns_answer \<Rightarrow> gaierror + string list" where
  "py_lookup_ipv6 to_text lookup = resolve_result_to_py to_text (lookup_ipv6 lookup)"

subsection \<open>Interleaving loses no address\<close>

lemma interleave_loop_Nil: "interleave_loop a [] = rev a"
  by (induction a rule: rev_induct) (simp_all add: interleave_loop.simps)

lemma interleave_loop_snoc: "interleave_loop (a @ [x]) (b @ [y]) = x # y # interleave_loop a b"
  by (subst interleave_loop.simps) simp

lemma interleave_loop_mset: "mset (interleave_loop a b) = mset a + mset b"
proof (induction a arbitrary: b rule: rev_induct)
  case (snoc x a)
  then show ?case by (cases b rule: rev_cases) (simp_all add: interleave_loop_Nil interleave_loop_snoc)
qed (simp add: interleave_loop.simps)

lemma interleave_loop_alternates:
  "i < min (length a) (length b) \<Longrightarrow>
   interleave_loop a b ! (2 * i) = rev a ! i \<and> interleave_loop a b ! (2 * i + 1) = rev b ! i"
proof (induction a arbitrary: b i rule: rev_induct)
  case (snoc x a)
  then obtain b' y where b: "b = b' @ [y]" by (cases b rule: rev_cases) auto
  show ?case
  proof (cases i)
    case (Suc j)
    then show ?thesis using snoc.IH [of j b'] snoc.prems by (simp add: b interleave_loop_snoc)
  qed (simp add: b interleave_loop_snoc)
qed simp

text \<open>
  C37. Python gets every address that was found, as often as it was found, and as long as there are
  addresses of both families they alternate, IPv4 first.  Asking for one family gives exactly the
  addresses of that family in their order; if there is none although the name exists, the error is
  \<^verbatim>\<open>EAI_NODATA\<close> and not that of an unknown name.
\<close>

theorem lookup_complete:
  assumes "found4 = filter is_ipv4 found" and "found6 = filter (\<lambda>a. \<not> is_ipv4 a) found"
  shows "\<exists>r. py_lookup_ip to_text (Inr found) = Inr (map to_text r) \<and> mset r = mset found \<and>
     (\<forall>i < min (length found4) (length found6). r ! (2 * i) \<in> set found4 \<and> r ! (2 * i + 1) \<in> set found6) \<and>
     py_lookup_ipv4 to_text (Inr found) =
       (if found4 = [] then Inl (Gaierror ''EAI_NODATA'' ''NOERROR'') else Inr (map to_text found4)) \<and>
     py_lookup_ipv6 to_text (Inr found) =
       (if found6 = [] then Inl (Gaierror ''EAI_NODATA'' ''NOERROR'') else Inr (map to_text found6))"
proof -
  let ?r = "interleave_loop found4 found6"
  have r: "py_lookup_ip to_text (Inr found) = Inr (map to_text ?r)"
    by (simp add: py_lookup_ip_def dns_lookup_ip_def resolve_result_to_py_def interleave_addrinfos_def assms)
  have "mset ?r = mset found" unfolding interleave_loop_mset assms by (induction found) auto
  moreover have "?r ! (2 * i) \<in> set found4 \<and> ?r ! (2 * i + 1) \<in> set found6" if "i < min (length found4) (length found6)" for i
    using interleave_loop_alternates [OF that] that nth_mem [of i "rev found4"] nth_mem [of i "rev found6"] by simp
  ultimately show ?thesis
    using r by (intro exI [of _ ?r])
      (simp add: py_lookup_ipv4_def py_lookup_ipv6_def resolve_result_to_py_def lookup_ipv4_def lookup_ipv6_def
        lookup_ipvx_def Let_def assms)
qed

theorem lookup_complete_witness:
  "\<exists>r. py_lookup_ip (\<lambda>a. ''ip'') (Inr [IpV6 1, IpV6 2]) = Inr (map (\<lambda>a. ''ip'') r) \<and> mset r = {#IpV6 1, IpV6 2#} \<and>
     py_lookup_ipv4 (\<lambda>a. ''ip'') (Inr [IpV6 1, IpV6 2]) = Inl (Gaierror ''EAI_NODATA'' ''NOERROR'')"
  using lookup_complete [of "[]" "[IpV6 1, IpV6 2]" "[IpV6 1, IpV6 2]" "\<lambda>a. ''ip''"] by auto

end
