(* ===== verification/Processes.thy ===== *)
theory Processes
  imports Contentviews "HOL-Library.AList"
begin

text \<open>
  The list of running executables (\<^verbatim>\<open>src/processes\<close>: \<^verbatim>\<open>nix_list.rs\<close> for Linux and macOS,
  \<^verbatim>\<open>windows_list.rs\<close> for Windows) and its Python function.  The system's calls (sysinfo, Core
  Graphics, the Win32 functions) are parameters; the grouping of processes by executable, the flags and
  the display names, the enumeration with a growing buffer and the cache of display names are modelled.
  A \<^verbatim>\<open>HashMap\<close> that is iterated is an association list; the order of its entries is the
  order of their insertion here and unspecified in Rust.
\<close>

subsection \<open>Data\<close>

record exec_info =
  ei_executable :: string
  ei_display_name :: string
  ei_visible :: bool
  ei_system :: bool

subsection \<open>Paths\<close>

text \<open>
  \<^verbatim>\<open>Path::components\<close> on Unix: repeated separators and inner \<open>.\<close> are ignored.  Two
  \<^verbatim>\<open>PathBuf\<close>s are equal when their components are.
\<close>

datatype path_component = RootDir | CurDir | ParentDir | Normal string

definition normal_components :: "string list \<Rightarrow> path_component list" where
  "normal_components ps =
     map (\<lambda>p. if p = ''..'' then ParentDir else Normal p) (filter (\<lambda>p. p \<noteq> [] \<and> p \<noteq> ''.'') ps)"

definition path_components :: "string \<Rightarrow> path_component list" where
  "path_components path =
     (let parts = split_on CHR ''/'' path in
      if starts_with path ''/'' then RootDir # normal_components parts
      else if hd parts = ''.'' then CurDir # normal_components (tl parts)
      else normal_components parts)"

definition path_starts_with :: "string \<Rightarrow> string \<Rightarrow> bool" where
  "path_starts_with path base \<longleftrightarrow> starts_with (path_components path) (path_components base)"

text \<open>\<^verbatim>\<open>Path::file_name\<close>: the last component, when it is a name.\<close>

definition path_file_name :: "string \<Rightarrow> string option" where
  "path_file_name path =
     (case rev (path_components path) of Normal n # _ \<Rightarrow> Some n | _ \<Rightarrow> None)"

subsection \<open>Linux and macOS\<close>

datatype unix_os = Linux | Macos

text \<open>What sysinfo reports of a process.\<close>

record nix_process =
  np_exe :: "string option"
  np_user_id :: "u32 option"

text \<open>
  A window is what its dictionary has under \<^verbatim>\<open>kCGWindowOwnerPID\<close>: nothing, a number that does not
  convert, or a process id.
\<close>

type_synonym window_owner = "u32 option option"

definition macos_visible_windows :: "window_owner list \<Rightarrow> u32 set" where
  "macos_visible_windows windows =
     (let count = length windows in
      fold (\<lambda>i pids. case windows ! i of Some (Some pid) \<Rightarrow> insert pid pids | _ \<Rightarrow> pids) [0..<count - 1] {})"

definition nix_visible_windows :: "unix_os \<Rightarrow> window_owner list \<Rightarrow> u32 set res" where
  "nix_visible_windows os windows =
     (case os of Macos \<Rightarrow> Inr (macos_visible_windows windows) | Linux \<Rightarrow> Inr {})"

definition nix_is_system :: "unix_os \<Rightarrow> nix_process \<Rightarrow> bool" where
  "nix_is_system os process =
     (case os of
        Macos \<Rightarrow> (case np_exe process of Some path \<Rightarrow> path_starts_with path ''/System/'' | None \<Rightarrow> False)
      | Linux \<Rightarrow> (case np_user_id process of Some uid \<Rightarrow> uid < 1000 | None \<Rightarrow> False))"

type_synonym 'k exec_map = "('k \<times> exec_info) list"

text \<open>One iteration of the loop; \<open>lossy\<close> is \<^verbatim>\<open>OsStr::to_string_lossy\<close>.\<close>

definition nix_add ::
  "(string \<Rightarrow> string) \<Rightarrow> unix_os \<Rightarrow> u32 set \<Rightarrow> u32 \<times> nix_process \<Rightarrow> path_component list exec_map \<Rightarrow>
     path_component list exec_map" where
  "nix_add lossy os visible pp executables =
     (case np_exe (snd pp) of
        None \<Rightarrow> executables
      | Some path \<Rightarrow>
          let pid = fst pp; executable = path_components path in
          (case map_of executables executable of
             Some process_info \<Rightarrow>
               if \<not> ei_visible process_info \<and> pid \<in> visible
               then AList.update executable (process_info\<lparr>ei_visible := True\<rparr>) executables
               else executables
           | None \<Rightarrow>
               executables @
                 [(executable,
                   \<lparr>ei_executable = path,
                    ei_display_name = lossy (case path_file_name path of Some n \<Rightarrow> n | None \<Rightarrow> path),
                    ei_visible = (pid \<in> visible),
                    ei_system = nix_is_system os (snd pp)\<rparr>)]))"

definition nix_active_executables ::
  "(string \<Rightarrow> string) \<Rightarrow> unix_os \<Rightarrow> window_owner list \<Rightarrow> (u32 \<times> nix_process) list \<Rightarrow> exec_info list res" where
  "nix_active_executables lossy os windows processes =
     res_bind (nix_visible_windows os windows) (\<lambda>visible.
       Inr (map snd (fold (nix_add lossy os visible) processes [])))"

subsection \<open>Windows\<close>

text \<open>
  The Win32 calls: opening and closing a process, its name (\<open>True\<close> asks for the native form), whether it
  is critical; the windows with what the calls say about them, and how \<^verbatim>\<open>EnumWindows\<close> ended; the
  version information of a file.  \<open>wa_enum n b\<close> is the \<open>n\<close>-th call of \<^verbatim>\<open>EnumProcesses\<close> with a
  buffer of \<open>b\<close> bytes: the ids it wrote and the number of bytes it reports.
\<close>

record win_window =
  ww_thread :: u32
  ww_pid :: u32
  ww_visible :: bool
  ww_iconic :: bool
  ww_cloaked :: "bool res"

record win_api =
  wa_open :: "u32 \<Rightarrow> nat res"
  wa_query_name :: "nat \<Rightarrow> bool \<Rightarrow> string res"
  wa_critical :: "nat \<Rightarrow> bool res"
  wa_close :: "nat \<Rightarrow> unit res"
  wa_enum :: "nat \<Rightarrow> u32 \<Rightarrow> (u32 list \<times> u32) res"
  wa_windows :: "win_window list"
  wa_windows_end :: "unit res"
  wa_encode_wide :: "string \<Rightarrow> u16 list"
  wa_version_size :: "u16 list \<Rightarrow> u32"
  wa_last_error :: fault
  wa_version_info :: "u16 list \<Rightarrow> u32 \<Rightarrow> bytes res"
  wa_ver_query :: "bytes \<Rightarrow> u16 list \<Rightarrow> (u16 list \<times> u32) res"
  wa_utf16_lossy :: "u16 list \<Rightarrow> string"

definition process_name :: "win_api \<Rightarrow> nat \<Rightarrow> string res" where
  "process_name api handle =
     (case wa_query_name api handle False of
        Inr path \<Rightarrow> Inr path
      | Inl e \<Rightarrow> wa_query_name api handle True)"

definition get_process_name :: "win_api \<Rightarrow> u32 \<Rightarrow> string res" where
  "get_process_name api pid =
     res_bind (wa_open api pid) (\<lambda>handle.
       let path = process_name api handle in
       res_bind (wa_close api handle) (\<lambda>u. path))"

definition is_critical :: "win_api \<Rightarrow> nat \<Rightarrow> bool res" where
  "is_critical api handle = wa_critical api handle"

definition get_is_critical :: "win_api \<Rightarrow> u32 \<Rightarrow> bool res" where
  "get_is_critical api pid =
     res_bind (wa_open api pid) (\<lambda>handle.
       let critical = is_critical api handle in
       res_bind (wa_close api handle) (\<lambda>u. critical))"

text \<open>
  \<^verbatim>\<open>enumerate_pids\<close>: the vector is empty until the loop ends, so \<^verbatim>\<open>reserve(2 * capacity)\<close> doubles
  its capacity.  The size of the buffer is cast to \<open>u32\<close>.  \<open>None\<close> is a loop that has not ended within
  the fuel.
\<close>

fun enumerate_loop :: "win_api \<Rightarrow> nat \<Rightarrow> nat \<Rightarrow> nat \<Rightarrow> u32 list res option" where
  "enumerate_loop api 0 n capacity = None"
| "enumerate_loop api (Suc fuel) n capacity =
     (let bytes_available = (word_of_nat (4 * capacity) :: u32) in
      case wa_enum api n bytes_available of
        Inl e \<Rightarrow> Some (Inl e)
      | Inr (pids, bytes_needed) \<Rightarrow>
          if bytes_needed < bytes_available then Some (Inr (take (unat (bytes_needed div 4)) pids))
          else enumerate_loop api fuel (Suc n) (2 * capacity))"

definition enumerate_pids :: "win_api \<Rightarrow> nat \<Rightarrow> u32 list res option" where
  "enumerate_pids api fuel = enumerate_loop api fuel 0 1024"

text \<open>\<^verbatim>\<open>{:04x}\<close>, and ASCII as UTF-16.\<close>

definition hex4 :: "u16 \<Rightarrow> string" where
  "hex4 w = map (\<lambda>i. hex_digit (unat w div 16 ^ i mod 16)) [3, 2, 1, 0]"

definition ascii_utf16 :: "string \<Rightarrow> u16 list" where
  "ascii_utf16 s = map (\<lambda>c. of_nat (of_char c)) s"

text \<open>
  The pointers returned by \<^verbatim>\<open>VerQueryValueW\<close> are the units found there.  Reading units that are not
  there is a fault of its own, as the code reads two units of the first value whatever its length.
\<close>

definition get_display_name :: "win_api \<Rightarrow> string \<Rightarrow> string res" where
  "get_display_name api executable =
     (let executable_path = wa_encode_wide api executable @ [0];
          version_info_size = wa_version_size api executable_path in
      if version_info_size = 0 then Inl (wa_last_error api)
      else res_bind (wa_version_info api executable_path version_info_size) (\<lambda>version_info_buf.
        res_bind (wa_ver_query api version_info_buf (ascii_utf16 (CHR 0x5C # ''VarFileInfo'' @ CHR 0x5C # ''Translation''))) (\<lambda>(lang_ptr, len).
        if len = 0 then Inl (Failed ''no translation info'')
        else case lang_ptr of
          lang # codepage # _ \<Rightarrow>
            let sub_block = ascii_utf16 (CHR 0x5C # ''StringFileInfo'' @ CHR 0x5C # hex4 lang @ hex4 codepage @ CHR 0x5C # ''FileDescription'') in
            res_bind (wa_ver_query api version_info_buf sub_block) (\<lambda>(file_description_ptr, len).
            if len = 0 then Inl (Failed ''no file description'')
            else if length file_description_ptr < unat len - 1 then Inl (Panicked ''read past the file description'')
            else Inr (wa_utf16_lossy api (take (unat len - 1) file_description_ptr)))
        | _ \<Rightarrow> Inl (Panicked ''read past the translation info''))))"

text \<open>\<open>DisplayNameCache\<close>; \<open>key\<close> is what makes two paths equal.\<close>

type_synonym 'k name_cache = "('k \<times> string res) list"

definition name_cache_get ::
  "(string \<Rightarrow> 'k) \<Rightarrow> win_api \<Rightarrow> string \<Rightarrow> 'k name_cache \<Rightarrow> string res \<times> 'k name_cache" where
  "name_cache_get key api executable cache =
     (case map_of cache (key executable) of
        Some r \<Rightarrow> (r, cache)
      | None \<Rightarrow> let r = get_display_name api executable in (r, (key executable, r) # cache))"

text \<open>
  What the loop finds out about a process: nothing (\<^verbatim>\<open>continue\<close>) when it cannot be opened, otherwise
  its executable and whether it is critical.
\<close>

definition win_probe :: "win_api \<Rightarrow> u32 \<Rightarrow> (string \<times> bool) option res" where
  "win_probe api pid =
     (case wa_open api pid of
        Inl e \<Rightarrow> Inr None
      | Inr handle \<Rightarrow>
          let path = process_name api handle; critical = is_critical api handle in
          res_bind (wa_close api handle) (\<lambda>u.
            res_bind path (\<lambda>p. res_bind critical (\<lambda>c. Inr (Some (p, c))))))"

text \<open>The last piece of the path.\<close>

definition win_base_name :: "(string \<Rightarrow> string) \<Rightarrow> string \<Rightarrow> string" where
  "win_base_name lossy executable = last (split_on CHR 0x5C (lossy executable))"

definition win_add ::
  "(string \<Rightarrow> 'k) \<Rightarrow> (string \<Rightarrow> string) \<Rightarrow> win_api \<Rightarrow> u32 set \<Rightarrow> u32 \<Rightarrow> string \<Rightarrow> bool \<Rightarrow>
     'k name_cache \<times> 'k exec_map \<Rightarrow> 'k name_cache \<times> 'k exec_map" where
  "win_add key lossy api visible pid executable critical st =
     (let (cache, executables) = st in
      case map_of executables (key executable) of
        Some process_info \<Rightarrow>
          if \<not> ei_visible process_info \<and> pid \<in> visible
          then let (r, cache') = name_cache_get key api (ei_executable process_info) cache;
                   named = (case r of Inr d \<Rightarrow> process_info\<lparr>ei_display_name := d\<rparr> | Inl e \<Rightarrow> process_info) in
               (cache', AList.update (key executable) (named\<lparr>ei_visible := True\<rparr>) executables)
          else (cache, executables)
      | None \<Rightarrow>
          let is_visible = (pid \<in> visible);
              (dn, cache') =
                (if is_visible
                 then let (r, c) = name_cache_get key api executable cache in
                      (case r of Inr d \<Rightarrow> Some d | Inl e \<Rightarrow> None, c)
                 else (None, cache)) in
          (cache',
           executables @
             [(key executable,
               \<lparr>ei_executable = executable,
                ei_display_name = (case dn of Some d \<Rightarrow> d | None \<Rightarrow> win_base_name lossy executable),
                ei_visible = is_visible,
                ei_system = critical\<rparr>)]))"

fun win_loop ::
  "(string \<Rightarrow> 'k) \<Rightarrow> (string \<Rightarrow> string) \<Rightarrow> win_api \<Rightarrow> u32 set \<Rightarrow> u32 list \<Rightarrow>
     'k name_cache \<times> 'k exec_map \<Rightarrow> 'k name_cache \<times> 'k exec_map res" where
  "win_loop key lossy api visible [] st = (fst st, Inr (snd st))"
| "win_loop key lossy api visible (pid # pids) st =
     (case win_probe api pid of
        Inl e \<Rightarrow> (fst st, Inl e)
      | Inr None \<Rightarrow> win_loop key lossy api visible pids st
      | Inr (Some (executable, critical)) \<Rightarrow>
          win_loop key lossy api visible pids (win_add key lossy api visible pid executable critical st))"

text \<open>\<^verbatim>\<open>EnumWindows\<close> calls the function on each window until it returns false.\<close>

fun enum_windows :: "('s \<Rightarrow> 'h \<Rightarrow> 's \<times> bool) \<Rightarrow> 'h list \<Rightarrow> 's \<Rightarrow> 's" where
  "enum_windows func [] s = s"
| "enum_windows func (hwnd # hwnds) s =
     (let (s', go_on) = func s hwnd in if go_on then enum_windows func hwnds s' else s')"

definition add_window :: "u32 set \<Rightarrow> win_window \<Rightarrow> u32 set \<times> bool" where
  "add_window pids window =
     (if ww_thread window = 0 then (pids, True)
      else
        let is_cloaked = (case ww_cloaked window of Inl e \<Rightarrow> False | Inr c \<Rightarrow> c) in
        if ww_visible window \<and> \<not> ww_iconic window \<and> \<not> is_cloaked
        then (insert (ww_pid window) pids, True) else (pids, True))"

definition win_visible_windows :: "win_api \<Rightarrow> u32 set res" where
  "win_visible_windows api =
     (let pids = enum_windows add_window (wa_windows api) {} in
      res_bind (wa_windows_end api) (\<lambda>u. Inr pids))"

text \<open>The cache of names is a static of the program, so it outlives the call.\<close>

definition win_active_executables ::
  "(string \<Rightarrow> 'k) \<Rightarrow> (string \<Rightarrow> string) \<Rightarrow> win_api \<Rightarrow> nat \<Rightarrow> 'k name_cache \<Rightarrow>
     ('k name_cache \<times> exec_info list res) option" where
  "win_active_executables key lossy api fuel cache =
     (case win_visible_windows api of
        Inl e \<Rightarrow> Some (cache, Inl e)
      | Inr visible \<Rightarrow>
          (case enumerate_pids api fuel of
             None \<Rightarrow> None
           | Some (Inl e) \<Rightarrow> Some (cache, Inl e)
           | Some (Inr pids) \<Rightarrow>
               let (cache', r) = win_loop key lossy api visible pids (cache, []) in
               Some (cache', map_sum id (map snd) r)))"

text \<open>The Python function turns an error into a \<open>RuntimeError\<close> with its message.\<close>

datatype py_error = RuntimeError string | NotImplementedError string

fun fault_message :: "fault \<Rightarrow> string" where
  "fault_message (Failed m) = m"
| "fault_message (Panicked m) = m"

definition py_active_executables :: "exec_info list res \<Rightarrow> py_error + exec_info list" where
  "py_active_executables r = map_sum (\<lambda>e. RuntimeError (fault_message e)) id r"


section \<open>Grouping by executable\<close>

text \<open>The first of the elements of each class of \<open>f\<close>, in order.\<close>

fun firsts :: "('a \<Rightarrow> 'k) \<Rightarrow> 'a list \<Rightarrow> 'a list" where
  "firsts f [] = []"
| "firsts f (x # xs) = x # filter (\<lambda>y. f y \<noteq> f x) (firsts f xs)"

lemma firsts_key_set: "f ` set (firsts f xs) = f ` set xs"
proof (induction xs)
  case (Cons a xs)
  have "f ` set (firsts f (a # xs)) = insert (f a) (f ` set (firsts f xs) - {f a})" by auto
  then show ?case by (simp add: Cons)
qed simp

lemma firsts_subset: "set (firsts f xs) \<subseteq> set xs"
  by (induction xs) auto

lemma firsts_distinct: "distinct (map f (firsts f xs))"
  by (induction xs) (auto simp: distinct_map inj_on_def)

lemma firsts_snoc: "firsts f (xs @ [x]) = firsts f xs @ (if f x \<in> f ` set xs then [] else [x])"
  by (induction xs) auto

text \<open>Some element of the class of \<open>x\<close> is visible.\<close>

definition class_visible :: "('a \<Rightarrow> 'k) \<Rightarrow> ('a \<Rightarrow> bool) \<Rightarrow> 'a list \<Rightarrow> 'a \<Rightarrow> bool" where
  "class_visible f vis xs x \<longleftrightarrow> (\<exists>y\<in>set xs. f y = f x \<and> vis y)"

text \<open>
  Both loops add elements to a map by the class \<open>f\<close> they belong to: a new class gets a value made of its
  first element, and the value of a known class is replaced the first time one of its elements is
  visible.  \<open>mk x b\<close> is the value for the first element \<open>x\<close> when the class is visible (\<open>b\<close>) or not.
\<close>

locale grouping =
  fixes f :: "'a \<Rightarrow> 'k"
    and vis :: "'a \<Rightarrow> bool"
    and mk :: "'a \<Rightarrow> bool \<Rightarrow> 'v"
    and add :: "'a \<Rightarrow> ('k \<times> 'v) list \<Rightarrow> ('k \<times> 'v) list"
  assumes add_new: "map_of m (f x) = None \<Longrightarrow> add x m = m @ [(f x, mk x (vis x))]"
    and add_known: "map_of m (f x) = Some (mk y b) \<Longrightarrow> f y = f x \<Longrightarrow>
          add x m = (if vis x then AList.update (f x) (mk y True) m else m) \<or>
          add x m = m \<and> (vis x \<longrightarrow> b)"
begin

definition grouped :: "'a list \<Rightarrow> 'a list \<Rightarrow> ('k \<times> 'v) list" where
  "grouped xs zs = map (\<lambda>x. (f x, mk x (class_visible f vis xs x))) zs"

lemma update_grouped:
  "distinct (map f zs) \<Longrightarrow> y \<in> set zs \<Longrightarrow>
   AList.update (f y) v (grouped xs zs) = map (\<lambda>z. (f z, if f z = f y then v else mk z (class_visible f vis xs z))) zs"
  unfolding grouped_def by (induction zs) (auto simp: image_iff intro!: map_cong)

lemma map_of_grouped:
  "distinct (map f zs) \<Longrightarrow> y \<in> set zs \<Longrightarrow> map_of (grouped xs zs) (f y) = Some (mk y (class_visible f vis xs y))"
  unfolding grouped_def by (induction zs) (auto simp: image_iff)

lemma map_of_grouped_None: "f x \<notin> f ` set zs \<Longrightarrow> map_of (grouped xs zs) (f x) = None"
  unfolding grouped_def by (induction zs) auto

lemma grouped_snoc_other:
  "f x \<notin> f ` set zs \<Longrightarrow> grouped (xs @ [x]) zs = grouped xs zs"
  unfolding grouped_def class_visible_def by (intro map_cong arg_cong [where f = "\<lambda>b. (_, mk _ b)"]) (auto simp: image_iff)

lemma fold_add: "fold add xs [] = grouped xs (firsts f xs)"
proof (induction xs rule: rev_induct)
  case Nil
  show ?case by (simp add: grouped_def)
next
  case (snoc x xs)
  let ?zs = "firsts f xs"
  show ?case
  proof (cases "f x \<in> f ` set xs")
    case False
    then have "map_of (grouped xs ?zs) (f x) = None"
      by (intro map_of_grouped_None) (simp add: firsts_key_set)
    moreover have "class_visible f vis (xs @ [x]) x = vis x" using False by (auto simp: class_visible_def image_iff)
    moreover have "grouped (xs @ [x]) ?zs = grouped xs ?zs"
      using False by (intro grouped_snoc_other) (simp add: firsts_key_set)
    ultimately show ?thesis
      using snoc False by (simp add: firsts_snoc add_new) (simp add: grouped_def)
  next
    case True
    then obtain y where y: "y \<in> set ?zs" and eq: "f y = f x"
      by (metis (no_types, lifting) firsts_key_set imageE)
    note d = firsts_distinct [of f xs]
    have known: "map_of (grouped xs ?zs) (f x) = Some (mk y (class_visible f vis xs y))"
      using map_of_grouped [OF d y, of xs] eq by simp
    have unchanged: "grouped (xs @ [x]) ?zs = grouped xs ?zs" if "vis x \<longrightarrow> class_visible f vis xs y"
    proof -
      have "class_visible f vis (xs @ [x]) z = class_visible f vis xs z" for z
        using that eq by (auto simp: class_visible_def)
      then show ?thesis by (simp add: grouped_def)
    qed
    have updated: "grouped (xs @ [x]) ?zs = AList.update (f x) (mk y True) (grouped xs ?zs)" if "vis x"
    proof -
      have same: "z = y" if "z \<in> set ?zs" "f z = f y" for z
        using that y d by (auto simp: distinct_map dest: inj_onD)
      have "grouped (xs @ [x]) ?zs =
            map (\<lambda>z. (f z, if f z = f y then mk y True else mk z (class_visible f vis xs z))) ?zs"
        unfolding grouped_def using that eq same by (intro map_cong) (auto simp: class_visible_def)
      then show ?thesis using update_grouped [OF d y, of "mk y True" xs] eq by simp
    qed
    from add_known [OF known eq]
    have "add x (grouped xs ?zs) = grouped (xs @ [x]) ?zs"
      using unchanged updated by (auto split: if_splits)
    then show ?thesis using snoc True by (simp add: firsts_snoc)
  qed
qed

end


subsection \<open>Linux and macOS\<close>

text \<open>A process with an executable: its id, the executable, whether it is a system process.\<close>

type_synonym exec_item = "u32 \<times> string \<times> bool"

definition nix_items :: "unix_os \<Rightarrow> (u32 \<times> nix_process) list \<Rightarrow> exec_item list" where
  "nix_items os processes =
     concat (map (\<lambda>(pid, p). case np_exe p of None \<Rightarrow> [] | Some path \<Rightarrow> [(pid, path, nix_is_system os p)]) processes)"

definition item_key :: "(string \<Rightarrow> 'k) \<Rightarrow> exec_item \<Rightarrow> 'k" where
  "item_key key x = key (fst (snd x))"

definition nix_entry :: "(string \<Rightarrow> string) \<Rightarrow> exec_item \<Rightarrow> bool \<Rightarrow> exec_info" where
  "nix_entry lossy x b =
     \<lparr>ei_executable = fst (snd x),
      ei_display_name = lossy (case path_file_name (fst (snd x)) of Some n \<Rightarrow> n | None \<Rightarrow> fst (snd x)),
      ei_visible = b, ei_system = snd (snd x)\<rparr>"

definition nix_add_item ::
  "(string \<Rightarrow> string) \<Rightarrow> u32 set \<Rightarrow> exec_item \<Rightarrow> path_component list exec_map \<Rightarrow> path_component list exec_map" where
  "nix_add_item lossy visible x m =
     (case map_of m (item_key path_components x) of
        Some info \<Rightarrow>
          if \<not> ei_visible info \<and> fst x \<in> visible
          then AList.update (item_key path_components x) (info\<lparr>ei_visible := True\<rparr>) m else m
      | None \<Rightarrow> m @ [(item_key path_components x, nix_entry lossy x (fst x \<in> visible))])"

lemma nix_entry_simps [simp]:
  "ei_visible (nix_entry lossy x b) = b"
  "(nix_entry lossy x b)\<lparr>ei_visible := c\<rparr> = nix_entry lossy x c"
  "ei_executable (nix_entry lossy x b) = fst (snd x)"
  by (simp_all add: nix_entry_def)

interpretation nix: grouping "item_key path_components" "\<lambda>x. fst x \<in> visible" "nix_entry lossy"
  "nix_add_item lossy visible" for lossy visible
  by unfold_locales (auto simp: nix_add_item_def)

lemma fold_nix_add:
  "fold (nix_add lossy os visible) processes m = fold (nix_add_item lossy visible) (nix_items os processes) m"
proof (induction processes arbitrary: m)
  case (Cons pp processes)
  have "nix_add lossy os visible pp m =
        fold (nix_add_item lossy visible) (nix_items os [pp]) m"
    by (cases pp) (auto simp: nix_add_def nix_items_def nix_add_item_def item_key_def nix_entry_def Let_def
        split: option.splits)
  then show ?case using Cons by (simp add: nix_items_def)
qed (simp add: nix_items_def)

definition visible_on :: "unix_os \<Rightarrow> window_owner list \<Rightarrow> u32 set" where
  "visible_on os windows = (case os of Macos \<Rightarrow> macos_visible_windows windows | Linux \<Rightarrow> {})"

lemma nix_active_executables_eq:
  "nix_active_executables lossy os windows processes =
     Inr (map (\<lambda>x. nix_entry lossy x
                     (class_visible (item_key path_components) (\<lambda>y. fst y \<in> visible_on os windows)
                        (nix_items os processes) x))
            (firsts (item_key path_components) (nix_items os processes)))"
  by (cases os)
    (simp_all add: nix_active_executables_def nix_visible_windows_def visible_on_def fold_nix_add
      nix.fold_add nix.grouped_def comp_def)


lemma macos_visible_windows_eq: "macos_visible_windows windows = {pid. Some (Some pid) \<in> set (butlast windows)}"
proof -
  have loop: "fold (\<lambda>i pids. case windows ! i of Some (Some pid) \<Rightarrow> insert pid pids | _ \<Rightarrow> pids) is S =
        S \<union> {pid. \<exists>i\<in>set is. windows ! i = Some (Some pid)}" for "is" S
    by (induction "is" arbitrary: S) (auto split: option.splits)
  have "(\<exists>i\<in>{0..<length windows - 1}. windows ! i = w) \<longleftrightarrow> w \<in> set (butlast windows)" for w
    by (auto simp: in_set_conv_nth nth_butlast Bex_def)
  then show ?thesis by (simp add: macos_visible_windows_def loop Let_def)
qed

lemma nix_items_set:
  "x \<in> set (nix_items os processes) \<longleftrightarrow>
   (\<exists>p. (fst x, p) \<in> set processes \<and> np_exe p = Some (fst (snd x)) \<and> nix_is_system os p = snd (snd x))"
  by (cases x) (force simp: nix_items_def split: option.splits)

lemma nix_items_bex:
  "(\<exists>y\<in>set (nix_items os processes). P (fst y) (fst (snd y))) \<longleftrightarrow>
   (\<exists>(pid, p)\<in>set processes. \<exists>path. np_exe p = Some path \<and> P pid path)"
proof (induction processes)
  case (Cons pp processes)
  have step: "nix_items os (pp # processes) =
      (case np_exe (snd pp) of None \<Rightarrow> [] | Some path \<Rightarrow> [(fst pp, path, nix_is_system os (snd pp))]) @
      nix_items os processes"
    by (simp add: nix_items_def case_prod_beta)
  show ?case
    by (cases "np_exe (snd pp)")
      (simp_all only: step option.case append.simps list.set bex_simps set_append bex_Un Cons case_prod_beta
        prod.sel option.inject, simp_all)
qed (simp add: nix_items_def)

lemma nix_items_keys:
  "c \<in> item_key path_components ` set (nix_items os processes) \<longleftrightarrow>
   (\<exists>(pid, p)\<in>set processes. \<exists>path. np_exe p = Some path \<and> path_components path = c)"
  using nix_items_bex [of os processes "\<lambda>pid path. path_components path = c"]
  by (simp add: image_iff item_key_def eq_commute [of c])

lemma visible_on_eq: "pid \<in> visible_on os windows \<longleftrightarrow> os = Macos \<and> Some (Some pid) \<in> set (butlast windows)"
  by (cases os) (simp_all add: visible_on_def macos_visible_windows_eq)

lemma nix_class_visible:
  "class_visible (item_key path_components) (\<lambda>y. fst y \<in> visible_on os windows) (nix_items os processes) x \<longleftrightarrow>
     os = Macos \<and>
     (\<exists>(pid, p)\<in>set processes. \<exists>path. np_exe p = Some path \<and>
        path_components path = path_components (fst (snd x)) \<and> Some (Some pid) \<in> set (butlast windows))"
  using nix_items_bex [of os processes "\<lambda>pid path. path_components path = path_components (fst (snd x)) \<and>
        os = Macos \<and> Some (Some pid) \<in> set (butlast windows)"]
  by (auto simp: class_visible_def visible_on_eq item_key_def)

lemma nix_item_process:
  "x \<in> set (nix_items os processes) \<Longrightarrow>
   \<exists>(pid, p)\<in>set processes. np_exe p = Some (fst (snd x)) \<and> ei_system (nix_entry lossy x b) = nix_is_system os p"
  by (auto simp: nix_items_set nix_entry_def)

text \<open>
  C38. The list of executables on Linux and macOS.  The call succeeds; every executable that some process
  runs is listed and no other is, each of them once (paths are equal when their components are).  On Linux
  no entry is ever visible.  On macOS an entry is visible exactly when one of the processes of its
  executable owns an on-screen window other than the last of the system's list, which does not count
  because the loop over the windows stops one short.  Its
  path and its system flag are those of one of the processes that run it, and its display name is the
  last component of the path.
\<close>

theorem nix_executables:
  "\<exists>ps. nix_active_executables lossy os windows processes = Inr ps \<and>
     distinct (map (\<lambda>i. path_components (ei_executable i)) ps) \<and>
     (\<forall>c. (\<exists>i\<in>set ps. path_components (ei_executable i) = c) \<longleftrightarrow>
          (\<exists>(pid, p)\<in>set processes. \<exists>path. np_exe p = Some path \<and> path_components path = c)) \<and>
     (\<forall>i\<in>set ps.
        (ei_visible i \<longleftrightarrow>
          os = Macos \<and>
          (\<exists>(pid, p)\<in>set processes. \<exists>path. np_exe p = Some path \<and>
             path_components path = path_components (ei_executable i) \<and>
             Some (Some pid) \<in> set (butlast windows))) \<and>
        (\<exists>(pid, p)\<in>set processes. np_exe p = Some (ei_executable i) \<and> ei_system i = nix_is_system os p) \<and>
        ei_display_name i =
          lossy (case path_file_name (ei_executable i) of Some n \<Rightarrow> n | None \<Rightarrow> ei_executable i))"
proof -
  let ?f = "item_key path_components"
  let ?xs = "nix_items os processes"
  let ?mk = "\<lambda>x. nix_entry lossy x (class_visible ?f (\<lambda>y. fst y \<in> visible_on os windows) ?xs x)"
  let ?ps = "map ?mk (firsts ?f ?xs)"
  have keys: "map (\<lambda>i. path_components (ei_executable i)) ?ps = map ?f (firsts ?f ?xs)"
    by (simp add: item_key_def)
  have all: "(\<exists>i\<in>set ?ps. path_components (ei_executable i) = c) \<longleftrightarrow> c \<in> ?f ` set ?xs" for c
  proof -
    have "(\<exists>i\<in>set ?ps. path_components (ei_executable i) = c) \<longleftrightarrow>
          c \<in> set (map (\<lambda>i. path_components (ei_executable i)) ?ps)"
      unfolding set_map by blast
    then show ?thesis unfolding keys set_map firsts_key_set .
  qed
  have entry: "x \<in> set ?xs" if "x \<in> set (firsts ?f ?xs)" for x
    using that firsts_subset by (rule rev_subsetD)
  show ?thesis
    unfolding nix_active_executables_eq
  proof (intro exI [of _ ?ps] conjI refl allI ballI)
    show "distinct (map (\<lambda>i. path_components (ei_executable i)) ?ps)"
      unfolding keys by (rule firsts_distinct)
  next
    fix c
    show "(\<exists>i\<in>set ?ps. path_components (ei_executable i) = c) \<longleftrightarrow>
          (\<exists>(pid, p)\<in>set processes. \<exists>path. np_exe p = Some path \<and> path_components path = c)"
      unfolding all nix_items_keys by simp
  next
    fix i assume "i \<in> set ?ps"
    then obtain x where "x \<in> set (firsts ?f ?xs)" and i: "i = ?mk x" unfolding set_map by (rule imageE)
    then have x: "x \<in> set ?xs" by (intro entry)
    show "ei_visible i \<longleftrightarrow>
          os = Macos \<and>
          (\<exists>(pid, p)\<in>set processes. \<exists>path. np_exe p = Some path \<and>
             path_components path = path_components (ei_executable i) \<and>
             Some (Some pid) \<in> set (butlast windows))"
      unfolding i nix_entry_simps nix_class_visible ..
    show "\<exists>(pid, p)\<in>set processes. np_exe p = Some (ei_executable i) \<and> ei_system i = nix_is_system os p"
      unfolding i nix_entry_simps by (rule nix_item_process [OF x])
    show "ei_display_name i = lossy (case path_file_name (ei_executable i) of Some n \<Rightarrow> n | None \<Rightarrow> ei_executable i)"
      unfolding i nix_entry_simps by (simp add: nix_entry_def)
  qed
qed


definition mac_processes :: "(u32 \<times> nix_process) list" where
  "mac_processes =
     [(7, \<lparr>np_exe = Some ''/usr/bin/a'', np_user_id = None\<rparr>), (9, \<lparr>np_exe = Some ''/bin//b'', np_user_id = None\<rparr>),
      (8, \<lparr>np_exe = Some ''/bin/b'', np_user_id = None\<rparr>)]"

theorem nix_executables_witness:
  "\<exists>ps. nix_active_executables id Macos [Some (Some 7), Some (Some 9)] mac_processes = Inr ps \<and>
     (\<exists>i\<in>set ps. path_components (ei_executable i) = [RootDir, Normal ''bin'', Normal ''b''] \<and> \<not> ei_visible i)"
proof -
  let ?c = "[RootDir, Normal ''bin'', Normal ''b'']"
  have eval: "path_components ''/bin/b'' = ?c" "path_components ''/bin//b'' = ?c" "path_components ''/usr/bin/a'' \<noteq> ?c"
    by (simp_all add: path_components_def normal_components_def starts_with_def)
  obtain ps where ps: "nix_active_executables id Macos [Some (Some 7), Some (Some 9)] mac_processes = Inr ps"
    and all: "(\<exists>i\<in>set ps. path_components (ei_executable i) = ?c) \<longleftrightarrow>
      (\<exists>(pid, p)\<in>set mac_processes. \<exists>path. np_exe p = Some path \<and> path_components path = ?c)"
    and vis: "\<forall>i\<in>set ps. ei_visible i \<longrightarrow>
      (\<exists>(pid, p)\<in>set mac_processes. \<exists>path. np_exe p = Some path \<and>
         path_components path = path_components (ei_executable i) \<and>
         Some (Some pid) \<in> set (butlast [Some (Some 7), Some (Some 9)]))"
    using nix_executables [of id Macos "[Some (Some 7), Some (Some 9)]" mac_processes]
    by (elim exE conjE) (rule that, assumption, erule spec, intro ballI impI, drule (1) bspec, simp only: simp_thms)
  from all eval obtain i where i: "i \<in> set ps" "path_components (ei_executable i) = ?c"
    by (auto simp: mac_processes_def)
  moreover have "\<not> ei_visible i"
    using bspec [OF vis i(1)] i(2) eval by (auto simp: mac_processes_def)
  ultimately show ?thesis using ps by blast
qed

subsection \<open>Windows\<close>

definition win_items :: "win_api \<Rightarrow> u32 list \<Rightarrow> exec_item list" where
  "win_items api pids =
     concat (map (\<lambda>pid. case win_probe api pid of Inr (Some (path, c)) \<Rightarrow> [(pid, path, c)] | _ \<Rightarrow> []) pids)"

definition win_display_name :: "(string \<Rightarrow> string) \<Rightarrow> win_api \<Rightarrow> string \<Rightarrow> bool \<Rightarrow> string" where
  "win_display_name lossy api path b =
     (case (if b then get_display_name api path else Inl (Failed [])) of
        Inr d \<Rightarrow> d | Inl e \<Rightarrow> win_base_name lossy path)"

definition win_entry :: "(string \<Rightarrow> string) \<Rightarrow> win_api \<Rightarrow> exec_item \<Rightarrow> bool \<Rightarrow> exec_info" where
  "win_entry lossy api x b =
     \<lparr>ei_executable = fst (snd x), ei_display_name = win_display_name lossy api (fst (snd x)) b,
      ei_visible = b, ei_system = snd (snd x)\<rparr>"

definition win_add_item ::
  "(string \<Rightarrow> 'k) \<Rightarrow> (string \<Rightarrow> string) \<Rightarrow> win_api \<Rightarrow> u32 set \<Rightarrow> exec_item \<Rightarrow> 'k exec_map \<Rightarrow> 'k exec_map" where
  "win_add_item key lossy api visible x m =
     (case map_of m (item_key key x) of
        Some info \<Rightarrow>
          if \<not> ei_visible info \<and> fst x \<in> visible
          then AList.update (item_key key x)
                 ((case get_display_name api (ei_executable info) of
                     Inr d \<Rightarrow> info\<lparr>ei_display_name := d\<rparr> | Inl e \<Rightarrow> info)\<lparr>ei_visible := True\<rparr>) m
          else m
      | None \<Rightarrow> m @ [(item_key key x, win_entry lossy api x (fst x \<in> visible))])"

interpretation win: grouping "item_key key" "\<lambda>x. fst x \<in> visible" "win_entry lossy api"
  "win_add_item key lossy api visible" for key lossy api visible
  by unfold_locales
    (auto simp: win_add_item_def win_entry_def win_display_name_def split: sum.splits)

text \<open>The cache holds what a lookup would compute.\<close>

definition name_cache_ok :: "(string \<Rightarrow> 'k) \<Rightarrow> win_api \<Rightarrow> 'k name_cache \<Rightarrow> bool" where
  "name_cache_ok key api cache \<longleftrightarrow> (\<forall>p r. map_of cache (key p) = Some r \<longrightarrow> r = get_display_name api p)"

definition names_respect :: "(string \<Rightarrow> 'k) \<Rightarrow> win_api \<Rightarrow> bool" where
  "names_respect key api \<longleftrightarrow> (\<forall>p q. key p = key q \<longrightarrow> get_display_name api p = get_display_name api q)"

lemma name_cache_get_ok:
  assumes "name_cache_ok key api cache" and "names_respect key api"
  shows "\<exists>cache'. name_cache_get key api p cache = (get_display_name api p, cache') \<and> name_cache_ok key api cache'"
proof (cases "map_of cache (key p)")
  case None
  have "name_cache_ok key api ((key p, get_display_name api p) # cache)"
    unfolding name_cache_ok_def
  proof (intro allI impI)
    fix q r assume r: "map_of ((key p, get_display_name api p) # cache) (key q) = Some r"
    show "r = get_display_name api q"
    proof (cases "key q = key p")
      case True
      with assms(2) have "get_display_name api q = get_display_name api p" unfolding names_respect_def by blast
      with r True show ?thesis by simp
    qed (use r assms(1) in \<open>simp add: name_cache_ok_def\<close>)
  qed
  with None show ?thesis by (simp add: name_cache_get_def Let_def)
next
  case (Some r)
  with assms(1) have "r = get_display_name api p" unfolding name_cache_ok_def by blast
  with Some assms(1) show ?thesis by (simp add: name_cache_get_def)
qed

lemma win_add_ok:
  assumes "name_cache_ok key api cache" and "names_respect key api"
  shows "\<exists>cache'. win_add key lossy api visible pid path c (cache, m) =
      (cache', win_add_item key lossy api visible (pid, path, c) m) \<and> name_cache_ok key api cache'"
proof (cases "map_of m (key path)")
  case None
  obtain cache' where "name_cache_get key api path cache = (get_display_name api path, cache')"
    "name_cache_ok key api cache'" using name_cache_get_ok [OF assms] by blast
  with None assms(1) show ?thesis
    by (auto simp: win_add_def win_add_item_def item_key_def win_entry_def win_display_name_def Let_def
        split: sum.splits)
next
  case (Some info)
  obtain cache' where "name_cache_get key api (ei_executable info) cache = (get_display_name api (ei_executable info), cache')"
    "name_cache_ok key api cache'" using name_cache_get_ok [OF assms] by blast
  with Some assms(1) show ?thesis
    by (auto simp: win_add_def win_add_item_def item_key_def Let_def split: sum.splits)
qed

lemma win_loop_ok:
  assumes "names_respect key api" and "\<forall>pid\<in>set pids. isl (win_probe api pid) \<longrightarrow> False"
    and "name_cache_ok key api cache"
  shows "\<exists>cache'. win_loop key lossy api visible pids (cache, m) =
      (cache', Inr (fold (win_add_item key lossy api visible) (win_items api pids) m)) \<and> name_cache_ok key api cache'"
  using assms(2,3)
proof (induction pids arbitrary: cache m)
  case Nil
  then show ?case by (simp add: win_items_def)
next
  case (Cons pid pids)
  then obtain found where found: "win_probe api pid = Inr found" by (cases "win_probe api pid") auto
  show ?case
  proof (cases found)
    case None
    with Cons found show ?thesis by (simp add: win_items_def)
  next
    case (Some pc)
    obtain path c where pc: "pc = (path, c)" by force
    obtain cache' where "win_add key lossy api visible pid path c (cache, m) =
      (cache', win_add_item key lossy api visible (pid, path, c) m)" "name_cache_ok key api cache'"
      using win_add_ok [OF Cons.prems(2) assms(1)] by blast
    with Cons found Some pc show ?thesis by (simp add: win_items_def)
  qed
qed


subsection \<open>Enumerating processes\<close>

text \<open>
  What \<^verbatim>\<open>EnumProcesses\<close> promises: at the \<open>n\<close>-th call the processes are \<open>table n\<close>; it writes as
  many of their ids as fit, and reports the bytes it wrote, so that a full buffer may be too small.
\<close>

definition snapshot_enum :: "(nat \<Rightarrow> u32 list) \<Rightarrow> nat \<Rightarrow> u32 \<Rightarrow> (u32 list \<times> u32) res" where
  "snapshot_enum table n bytes_available =
     (let ps = take (unat bytes_available div 4) (table n) in Inr (ps, word_of_nat (4 * length ps)))"

locale process_enumeration =
  fixes api :: win_api
    and table :: "nat \<Rightarrow> u32 list"
  assumes enum_snapshot: "wa_enum api n b = snapshot_enum table n b"
begin

lemma loop_step:
  assumes "4 * capacity < 2 ^ 32"
  shows "enumerate_loop api (Suc fuel) n capacity =
    (if length (table n) < capacity then Some (Inr (table n))
     else enumerate_loop api fuel (Suc n) (2 * capacity))"
proof -
  have avail: "unat (word_of_nat (4 * capacity) :: u32) = 4 * capacity"
    using assms by (simp add: unat_of_nat take_bit_nat_def del: of_nat_mult)
  let ?k = "length (take capacity (table n))"
  have needed: "unat (word_of_nat (4 * ?k) :: u32) = 4 * ?k"
    using assms by (simp add: unat_of_nat take_bit_nat_def min_def del: of_nat_mult)
  have "unat ((word_of_nat (4 * ?k) :: u32) div 4) = ?k"
    by (simp only: unat_div_distrib needed) simp
  moreover have "(word_of_nat (4 * ?k) :: u32) < word_of_nat (4 * capacity) \<longleftrightarrow> length (table n) < capacity"
    by (simp only: word_less_nat_alt needed avail) auto
  ultimately show ?thesis
    by (simp add: enum_snapshot snapshot_enum_def Let_def avail del: of_nat_mult)
qed

lemma loop_returns:
  assumes "\<forall>n. length (table n) < 2 ^ 29"
  shows "n < 20 \<Longrightarrow> 20 \<le> n + fuel \<Longrightarrow>
    \<exists>m. n \<le> m \<and> m < 20 \<and> enumerate_loop api fuel n (1024 * 2 ^ n) = Some (Inr (table m))"
proof (induction fuel arbitrary: n)
  case (Suc fuel)
  have "(2 :: nat) ^ n \<le> 2 ^ 19" using Suc.prems by (intro power_increasing) auto
  then have fits: "4 * (1024 * 2 ^ n) < (2 :: nat) ^ 32" by simp
  show ?case
  proof (cases "length (table n) < 1024 * 2 ^ n")
    case True
    then show ?thesis using loop_step [OF fits] Suc.prems by auto
  next
    case False
    then have "n \<noteq> 19" using assms [rule_format, of n] by auto
    then have "Suc n < 20" using Suc.prems by simp
    from Suc.IH [OF this] Suc.prems obtain m where "Suc n \<le> m" "m < 20"
      "enumerate_loop api fuel (Suc n) (1024 * 2 ^ Suc n) = Some (Inr (table m))" by auto
    with False loop_step [OF fits] show ?thesis by (auto simp: mult.left_commute intro!: exI [of _ m])
  qed
qed simp

end

text \<open>
  C35. \<^verbatim>\<open>enumerate_pids\<close> returns: as long as there are fewer than \<open>2 ^ 29\<close> processes, twenty rounds are
  enough, and the result is the whole table of processes at one of the calls, never a part of it.
\<close>

theorem enumerate_complete:
  assumes "process_enumeration api table" and "\<forall>n. length (table n) < 2 ^ 29" and "20 \<le> fuel"
  shows "\<exists>n<20. enumerate_pids api fuel = Some (Inr (table n))"
  using process_enumeration.loop_returns [OF assms(1,2), of 0 fuel] assms(3)
  by (auto simp: enumerate_pids_def)

text \<open>A system with a fixed table of processes, each given by its executable and whether it is critical.\<close>

definition table_api :: "(u32 \<times> string \<times> bool) list \<Rightarrow> win_window list \<Rightarrow> win_api" where
  "table_api procs windows =
     \<lparr>wa_open = (\<lambda>pid. if pid \<in> fst ` set procs then Inr (unat pid) else Inl (Failed ''access denied'')),
      wa_query_name = (\<lambda>h native. case map_of procs (word_of_nat h) of
          Some (path, c) \<Rightarrow> Inr path | None \<Rightarrow> Inl (Failed ''no such process'')),
      wa_critical = (\<lambda>h. case map_of procs (word_of_nat h) of
          Some (path, c) \<Rightarrow> Inr c | None \<Rightarrow> Inl (Failed ''no such process'')),
      wa_close = (\<lambda>h. Inr ()),
      wa_enum = snapshot_enum (\<lambda>n. map fst procs),
      wa_windows = windows,
      wa_windows_end = Inr (),
      wa_encode_wide = ascii_utf16,
      wa_version_size = (\<lambda>p. 0),
      wa_last_error = Failed ''no version information'',
      wa_version_info = (\<lambda>p n. Inl (Failed ''no version information'')),
      wa_ver_query = (\<lambda>b q. Inl (Failed ''no such value'')),
      wa_utf16_lossy = map (\<lambda>w. char_of (unat w))\<rparr>"

interpretation table_system: process_enumeration "table_api procs windows" "\<lambda>n. map fst procs"
  for procs windows
  by unfold_locales (simp add: table_api_def)

lemma table_api_enumeration: "process_enumeration (table_api procs windows) (\<lambda>n. map fst procs)"
  by (rule table_system.process_enumeration_axioms)

theorem enumerate_complete_witness:
  "\<exists>n<20. enumerate_pids (table_api [(4, ''System'', True), (8, ''a.exe'', False)] []) 20 =
     Some (Inr ((\<lambda>n :: nat. [4, 8]) n))"
  using enumerate_complete [OF table_api_enumeration [of "[(4, ''System'', True), (8, ''a.exe'', False)]" "[]"], of 20]
  by simp


subsection \<open>The list on Windows\<close>

text \<open>
  C33. The list of executables on Windows, when the system lists windows and processes, every process that
  can be opened answers, and the cache of descriptions holds for each path it knows what reading the file
  gives (as the empty cache does): one entry for each executable, made of the first of its processes.  It
  is visible when one of its processes is, whichever comes first, and then carries the file description of
  the executable if there is one, otherwise the last piece of its path.  The cache is of that kind again
  afterwards.  (An entry that is older than a change of its file would be served instead of the new
  description.)
\<close>

theorem win_executables:
  assumes "names_respect key api" and "name_cache_ok key api cache"
    and "win_visible_windows api = Inr visible" and "enumerate_pids api fuel = Some (Inr pids)"
    and "\<forall>pid\<in>set pids. \<exists>r. win_probe api pid = Inr r"
  shows "\<exists>cache'. win_active_executables key lossy api fuel cache =
      Some (cache', Inr (map (\<lambda>x. win_entry lossy api x
                                (class_visible (item_key key) (\<lambda>y. fst y \<in> visible) (win_items api pids) x))
                           (firsts (item_key key) (win_items api pids)))) \<and>
      name_cache_ok key api cache'"
proof -
  have "\<forall>pid\<in>set pids. isl (win_probe api pid) \<longrightarrow> False" using assms(5) by auto
  from win_loop_ok [OF assms(1) this assms(2), of lossy visible "[]"]
  obtain cache' where "win_loop key lossy api visible pids (cache, []) =
      (cache', Inr (fold (win_add_item key lossy api visible) (win_items api pids) []))"
    and "name_cache_ok key api cache'" by blast
  then show ?thesis
    using assms(3,4) by (simp add: win_active_executables_def win.fold_add win.grouped_def comp_def)
qed

definition win_desktop :: win_api where
  "win_desktop = table_api [(4, ''a.exe'', True), (8, ''a.exe'', False)]
     [\<lparr>ww_thread = 1, ww_pid = 8, ww_visible = True, ww_iconic = False, ww_cloaked = Inl (Failed [])\<rparr>]"

lemma enumerate_first_try:
  assumes "process_enumeration api table" and "length (table 0) < 1024"
  shows "enumerate_pids api (Suc fuel) = Some (Inr (table 0))"
  using process_enumeration.loop_step [OF assms(1), of 1024 fuel 0] assms(2) by (simp add: enumerate_pids_def)

lemma win_desktop_enumeration: "process_enumeration (win_desktop\<lparr>wa_critical := c\<rparr>) (\<lambda>n. [4, 8])"
  by unfold_locales (simp add: win_desktop_def table_api_def)

lemma win_desktop_pids: "enumerate_pids (win_desktop\<lparr>wa_critical := c\<rparr>) (Suc fuel) = Some (Inr [4, 8])"
  using enumerate_first_try [OF win_desktop_enumeration] by simp

lemma win_desktop_visible: "win_visible_windows (win_desktop\<lparr>wa_critical := c\<rparr>) = Inr {8}"
  by (simp add: win_desktop_def table_api_def win_visible_windows_def add_window_def)

lemma win_desktop_facts:
  "win_probe win_desktop 4 = Inr (Some (''a.exe'', True))"
  "win_probe win_desktop 8 = Inr (Some (''a.exe'', False))"
  "get_display_name win_desktop p = Inl (Failed ''no version information'')"
  by (simp_all add: win_desktop_def table_api_def win_probe_def process_name_def is_critical_def
      get_display_name_def)

theorem win_executables_witness:
  "\<exists>cache'. win_active_executables id id win_desktop 1 [] =
     Some (cache', Inr [\<lparr>ei_executable = ''a.exe'', ei_display_name = ''a.exe'', ei_visible = True, ei_system = True\<rparr>])"
proof -
  have "names_respect id win_desktop" "name_cache_ok id win_desktop []"
    by (simp_all add: names_respect_def name_cache_ok_def)
  moreover have "win_desktop\<lparr>wa_critical := wa_critical win_desktop\<rparr> = win_desktop" by simp
  then have "win_visible_windows win_desktop = Inr {8}" "enumerate_pids win_desktop 1 = Some (Inr [4, 8])"
    using win_desktop_visible win_desktop_pids by (metis, metis One_nat_def)
  moreover have items: "win_items win_desktop [4, 8] = [(4, ''a.exe'', True), (8, ''a.exe'', False)]"
    by (simp add: win_items_def win_desktop_facts)
  ultimately show ?thesis
    using win_executables [of id win_desktop "[]" "{8}" 1 "[4, 8]" id]
    by (auto simp: win_desktop_facts item_key_def class_visible_def win_entry_def win_display_name_def
        win_base_name_def)
qed

lemma win_loop_fails:
  "\<exists>pid\<in>set pids. isl (win_probe api pid) \<Longrightarrow> isl (snd (win_loop key lossy api visible pids st))"
proof (induction pids arbitrary: st)
  case (Cons pid pids)
  show ?case
  proof (cases "win_probe api pid")
    case (Inr found)
    with Cons.prems have "\<exists>pid\<in>set pids. isl (win_probe api pid)" by auto
    note later = Cons.IH [OF this]
    show ?thesis using Inr by (cases found) (simp_all add: later case_prod_beta del: split_paired_All)
  qed simp
qed simp

text \<open>
  One process whose criticality cannot be read makes the whole list fail, although the call that reads
  it is meant to be allowed to fail.
\<close>

theorem critical_failure_fails_list:
  assumes "win_visible_windows api = Inr visible" and "enumerate_pids api fuel = Some (Inr pids)"
    and "pid \<in> set pids" and "wa_open api pid = Inr handle" and "wa_critical api handle = Inl e"
  shows "\<exists>cache' e'. win_active_executables key lossy api fuel cache = Some (cache', Inl e')"
proof -
  have "isl (win_probe api pid)"
    using assms(4,5) by (auto simp: win_probe_def is_critical_def res_bind_def Let_def split: sum.splits)
  with assms(3) have "isl (snd (win_loop key lossy api visible pids (cache, [])))" by (intro win_loop_fails) blast
  then show ?thesis
    using assms(1,2) by (auto simp: win_active_executables_def Let_def case_prod_beta isl_def)
qed

theorem critical_failure_fails_list_witness:
  "\<exists>cache' e'. win_active_executables id id (win_desktop\<lparr>wa_critical := \<lambda>h. Inl (Failed ''access denied'')\<rparr>) 1 [] =
     Some (cache', Inl e')"
proof (rule critical_failure_fails_list)
  show "win_visible_windows (win_desktop\<lparr>wa_critical := \<lambda>h. Inl (Failed ''access denied'')\<rparr>) = Inr {8}"
    by (rule win_desktop_visible)
  show "enumerate_pids (win_desktop\<lparr>wa_critical := \<lambda>h. Inl (Failed ''access denied'')\<rparr>) 1 = Some (Inr [4, 8])"
    using win_desktop_pids [of _ 0] by simp
  show "4 \<in> set [4, 8 :: u32]" by simp
  show "wa_open (win_desktop\<lparr>wa_critical := \<lambda>h. Inl (Failed ''access denied'')\<rparr>) 4 = Inr 4"
    by (simp add: win_desktop_def table_api_def)
qed simp

end
