(* ===== verification/Icons.thy ===== *)
theory Icons
  imports Processes
begin

text \<open>
  The icons of executables (\<^verbatim>\<open>src/processes/windows_icons.rs\<close>, \<^verbatim>\<open>macos_icons.rs\<close>) and the
  Python function that serves them.  The calls of GDI, AppKit, sysinfo, the hasher and the image encoders
  are parameters.  What is modelled is the cache of both platforms, the extraction of the pixels with its
  assertions, the conversion of the pixels, and the lock around the cache.
\<close>

subsection \<open>The cache\<close>

text \<open>Executable to hash, and hash to PNG; \<open>'k\<close> is what makes two paths equal.\<close>

record 'k icon_cache =
  ic_executables :: "'k \<rightharpoonup> u64"
  ic_icons :: "u64 \<rightharpoonup> bytes"

definition icon_cache_default :: "'k icon_cache" where
  "icon_cache_default = \<lparr>ic_executables = Map.empty, ic_icons = Map.empty\<rparr>"

text \<open>\<^verbatim>\<open>self.icons.get(..).unwrap()\<close> on a missing hash.\<close>

definition missing_icon :: fault where
  "missing_icon = Panicked ''called Option::unwrap() on a None value''"

definition cached_png :: "u64 \<Rightarrow> 'k icon_cache \<Rightarrow> bytes res" where
  "cached_png h cache = (case ic_icons cache h of Some png \<Rightarrow> Inr png | None \<Rightarrow> Inl missing_icon)"

subsection \<open>Windows\<close>

record pixel_data =
  pd_bgra :: "u32 list"
  pd_width :: u32
  pd_height :: u32

text \<open>
  \<open>gdi_dibits\<close> is told the width and the height; it returns the number of lines and what the buffer holds.
  The size of a \<^verbatim>\<open>BITMAP\<close> is reported correctly or not.
\<close>

record icon_env =
  ie_exists :: "string \<Rightarrow> bool"
  ie_module :: "nat res"
  ie_encode_wide :: "string \<Rightarrow> u16 list"
  ie_extract :: "nat \<Rightarrow> u16 list \<Rightarrow> nat option"
  ie_destroy :: "nat \<Rightarrow> unit res"
  gdi_icon_info :: "nat \<Rightarrow> (nat \<times> nat) res"
  gdi_delete :: "nat \<Rightarrow> unit res"
  gdi_object :: "nat \<Rightarrow> bool \<times> int \<times> int"
  gdi_dc :: "nat option"
  gdi_dibits :: "nat \<Rightarrow> nat \<Rightarrow> int \<Rightarrow> int \<Rightarrow> int \<times> u32 list"
  gdi_release :: "nat \<Rightarrow> int"
  ie_hash :: "u32 list \<Rightarrow> u64"
  ie_png :: "u32 \<Rightarrow> u32 \<Rightarrow> bytes list \<Rightarrow> bytes res"

text \<open>\<^verbatim>\<open>unwrap\<close> turns an error into a panic, \<^verbatim>\<open>assert!\<close> a false condition.\<close>

definition unwrap :: "'a res \<Rightarrow> 'a res" where
  "unwrap r = (case r of Inr a \<Rightarrow> Inr a | Inl (Failed m) \<Rightarrow> Inl (Panicked m) | Inl (Panicked m) \<Rightarrow> Inl (Panicked m))"

definition assert_that :: "bool \<Rightarrow> unit res" where
  "assert_that b = (if b then Inr () else Inl (Panicked ''assertion failed''))"

definition u32_try_from :: "int \<Rightarrow> u32 res" where
  "u32_try_from i = (if 0 \<le> i \<and> i < 2 ^ 32 then Inr (word_of_int i) else Inl (Failed ''out of range integral type conversion attempted''))"

text \<open>\<^verbatim>\<open>to_le_bytes\<close> of a pixel is blue, green, red, alpha.\<close>

definition pixel_rgba :: "u32 \<Rightarrow> bytes" where
  "pixel_rgba p = [ucast (drop_bit 16 p), ucast (drop_bit 8 p), ucast p, ucast (drop_bit 24 p)]"

definition pixel_at :: "pixel_data \<Rightarrow> u32 \<Rightarrow> u32 \<Rightarrow> bytes res" where
  "pixel_at d x y =
     (let idx = y * pd_width d + x in
      if unat idx < length (pd_bgra d) then Inr (pixel_rgba (pd_bgra d ! unat idx))
      else Inl (Panicked ''index out of bounds''))"

text \<open>\<^verbatim>\<open>RgbaImage::from_fn\<close> calls the function line by line.\<close>

definition to_image :: "pixel_data \<Rightarrow> bytes list res" where
  "to_image d =
     map_res (\<lambda>(y, x). pixel_at d (word_of_nat x) (word_of_nat y))
       (concat (map (\<lambda>y. map (\<lambda>x. (y, x)) [0..<unat (pd_width d)]) [0..<unat (pd_height d)]))"

definition pixel_hash :: "icon_env \<Rightarrow> pixel_data \<Rightarrow> u64" where
  "pixel_hash env d = ie_hash env (pd_bgra d)"

definition icon_to_pixels :: "icon_env \<Rightarrow> nat \<Rightarrow> pixel_data res" where
  "icon_to_pixels env icon =
     res_bind (unwrap (gdi_icon_info env icon)) (\<lambda>(mask, color).
     res_bind (unwrap (gdi_delete env mask)) (\<lambda>_.
     let (size_ok, bm_width, bm_height) = gdi_object env color in
     res_bind (assert_that size_ok) (\<lambda>_.
     res_bind (unwrap (u32_try_from bm_width)) (\<lambda>width.
     res_bind (unwrap (u32_try_from bm_height)) (\<lambda>height.
     case gdi_dc env of
       None \<Rightarrow> Inl (Panicked ''assertion failed'')
     | Some dc \<Rightarrow>
         let (result, buf) = gdi_dibits env dc color bm_width bm_height in
         res_bind (assert_that (result = bm_height)) (\<lambda>_.
         res_bind (assert_that (gdi_release env dc = 1)) (\<lambda>_.
         res_bind (unwrap (gdi_delete env color)) (\<lambda>_.
         Inr \<lparr>pd_bgra = buf, pd_width = width, pd_height = height\<rparr>))))))))"

text \<open>The path is copied into an array of 128 units, filled up with zeros.\<close>

definition icon_path_u16 :: "icon_env \<Rightarrow> string \<Rightarrow> u16 list" where
  "icon_path_u16 env executable = take 128 (ie_encode_wide env executable @ replicate 128 0)"

definition icon_for_executable :: "icon_env \<Rightarrow> string \<Rightarrow> nat \<Rightarrow> pixel_data res" where
  "icon_for_executable env executable hinst =
     (case ie_extract env hinst (icon_path_u16 env executable) of
        None \<Rightarrow> Inl (Failed ''unable to extract icon'')
      | Some icon \<Rightarrow>
          res_bind (icon_to_pixels env icon) (\<lambda>pixels.
          res_bind (ie_destroy env icon) (\<lambda>_. Inr pixels)))"

definition win_get_png ::
  "(string \<Rightarrow> 'k) \<Rightarrow> icon_env \<Rightarrow> string \<Rightarrow> 'k icon_cache \<Rightarrow> 'k icon_cache \<times> bytes res" where
  "win_get_png key env executable cache =
     (case ic_executables cache (key executable) of
        Some h \<Rightarrow> (cache, cached_png h cache)
      | None \<Rightarrow>
          if \<not> ie_exists env executable then (cache, Inl (Failed ''Executable does not exist.''))
          else
            (case res_bind (ie_module env) (icon_for_executable env executable) of
               Inl e \<Rightarrow> (cache, Inl e)
             | Inr pixels \<Rightarrow>
                 let pixel_hash = pixel_hash env pixels;
                     known = cache\<lparr>ic_executables := (ic_executables cache)(key executable \<mapsto> pixel_hash)\<rparr> in
                 (case ic_icons cache pixel_hash of
                    Some icon \<Rightarrow> (known, Inr icon)
                  | None \<Rightarrow>
                      (case res_bind (to_image pixels) (\<lambda>img. unwrap (ie_png env (pd_width pixels) (pd_height pixels) img)) of
                         Inl e \<Rightarrow> (known, Inl e)
                       | Inr icon \<Rightarrow> (known\<lparr>ic_icons := (ic_icons cache)(pixel_hash \<mapsto> icon)\<rparr>, Inr icon)))))"

subsection \<open>macOS\<close>

text \<open>
  The processes as sysinfo lists them, the TIFF of the icon of a running application (none when there is no
  such application), the hash of the TIFF, and its conversion (\<open>load\<close>, \<open>resize\<close>, \<open>write\<close>).
\<close>

record mac_icon_env =
  mi_processes :: "(u32 \<times> string option) list"
  mi_app_icon :: "u32 \<Rightarrow> bytes option"
  mi_hash :: "bytes \<Rightarrow> u64"
  mi_load_resized :: "bytes \<Rightarrow> bytes res"
  mi_write_png :: "bytes \<Rightarrow> bytes res"

definition tiff_to_png :: "mac_icon_env \<Rightarrow> bytes \<Rightarrow> bytes res" where
  "tiff_to_png env tiff =
     res_bind (unwrap (mi_load_resized env tiff)) (\<lambda>image. unwrap (mi_write_png env image))"

fun tiff_loop :: "mac_icon_env \<Rightarrow> path_component list \<Rightarrow> (u32 \<times> string option) list \<Rightarrow> bytes res" where
  "tiff_loop env executable [] = Inl (Failed ''unable to extract icon'')"
| "tiff_loop env executable ((pid, exe) # ps) =
     (case exe of
        None \<Rightarrow> tiff_loop env executable ps
      | Some path \<Rightarrow>
          if executable = path_components path
          then (case mi_app_icon env pid of
                  Some tiff \<Rightarrow> Inr tiff
                | None \<Rightarrow> tiff_loop env executable ps)
          else tiff_loop env executable ps)"

definition tiff_data_for_executable :: "mac_icon_env \<Rightarrow> string \<Rightarrow> bytes res" where
  "tiff_data_for_executable env executable = tiff_loop env (path_components executable) (mi_processes env)"

definition mac_get_png ::
  "mac_icon_env \<Rightarrow> string \<Rightarrow> path_component list icon_cache \<Rightarrow> path_component list icon_cache \<times> bytes res" where
  "mac_get_png env executable cache =
     (case ic_executables cache (path_components executable) of
        Some h \<Rightarrow> (cache, cached_png h cache)
      | None \<Rightarrow>
          (case tiff_data_for_executable env executable of
             Inl e \<Rightarrow> (cache, Inl e)
           | Inr tiff \<Rightarrow>
               let tiff_hash = mi_hash env tiff;
                   known = cache\<lparr>ic_executables := (ic_executables cache)(path_components executable \<mapsto> tiff_hash)\<rparr> in
               (case ic_icons cache tiff_hash of
                  Some icon \<Rightarrow> (known, Inr icon)
                | None \<Rightarrow>
                    (case tiff_to_png env tiff of
                       Inl e \<Rightarrow> (known, Inl e)
                     | Inr icon \<Rightarrow> (known\<lparr>ic_icons := (ic_icons cache)(tiff_hash \<mapsto> icon)\<rparr>, Inr icon)))))"

subsection \<open>The Python function\<close>

text \<open>
  The cache is a static behind a mutex.  A panic while the lock is held poisons it, and
  \<^verbatim>\<open>lock().unwrap()\<close> panics from then on; Python sees every panic as an exception and goes on.
\<close>

record 'k icon_static =
  is_poisoned :: bool
  is_cache :: "'k icon_cache"

definition is_panic :: "'a res \<Rightarrow> bool" where
  "is_panic r = (case r of Inl (Panicked m) \<Rightarrow> True | _ \<Rightarrow> False)"

definition poisoned_lock :: fault where
  "poisoned_lock = Panicked ''PoisonError''"

definition executable_icon ::
  "(string \<Rightarrow> 'k icon_cache \<Rightarrow> 'k icon_cache \<times> bytes res) \<Rightarrow> string \<Rightarrow> 'k icon_static \<Rightarrow> 'k icon_static \<times> bytes res" where
  "executable_icon get_png path st =
     (if is_poisoned st then (st, Inl poisoned_lock)
      else let (cache, r) = get_png path (is_cache st) in
        (\<lparr>is_poisoned = is_panic r, is_cache = cache\<rparr>, r))"

definition icon_static_new :: "'k icon_static" where
  "icon_static_new = \<lparr>is_poisoned = False, is_cache = icon_cache_default\<rparr>"


text \<open>The state after calls for these executables, whatever they returned.\<close>

definition icon_calls ::
  "(string \<Rightarrow> 'k icon_cache \<Rightarrow> 'k icon_cache \<times> bytes res) \<Rightarrow> string list \<Rightarrow> 'k icon_static \<Rightarrow> 'k icon_static" where
  "icon_calls get_png paths st = fold (\<lambda>p s. fst (executable_icon get_png p s)) paths st"

section \<open>The cache is consistent\<close>

text \<open>Every hash an executable is known by has its icon.\<close>

definition icon_cache_ok :: "'k icon_cache \<Rightarrow> bool" where
  "icon_cache_ok cache \<longleftrightarrow> ran (ic_executables cache) \<subseteq> dom (ic_icons cache)"

definition cache_le :: "'k icon_cache \<Rightarrow> 'k icon_cache \<Rightarrow> bool" where
  "cache_le c c' \<longleftrightarrow> ic_executables c \<subseteq>\<^sub>m ic_executables c' \<and> ic_icons c \<subseteq>\<^sub>m ic_icons c'"

lemma cache_le_refl [simp]: "cache_le c c"
  by (simp add: cache_le_def)

lemma cache_le_trans: "cache_le a b \<Longrightarrow> cache_le b c \<Longrightarrow> cache_le a c"
  unfolding cache_le_def by (auto intro: map_le_trans)

text \<open>
  What both implementations of \<open>get_png\<close> do: a known executable is answered from the cache; a new one
  fails and changes nothing, or gets a hash, whose icon is there, is added, or cannot be made (a panic).
\<close>

locale png_source =
  fixes key :: "string \<Rightarrow> 'k"
    and get_png :: "string \<Rightarrow> 'k icon_cache \<Rightarrow> 'k icon_cache \<times> bytes res"
  assumes get_known: "ic_executables c (key p) = Some h \<Longrightarrow> get_png p c = (c, cached_png h c)"
    and get_new: "ic_executables c (key p) = None \<Longrightarrow>
      (\<exists>e. get_png p c = (c, Inl e)) \<or>
      (\<exists>h png. ic_icons c h = Some png \<and>
         get_png p c = (c\<lparr>ic_executables := (ic_executables c)(key p \<mapsto> h)\<rparr>, Inr png)) \<or>
      (\<exists>h png. ic_icons c h = None \<and>
         get_png p c = (\<lparr>ic_executables = (ic_executables c)(key p \<mapsto> h), ic_icons = (ic_icons c)(h \<mapsto> png)\<rparr>, Inr png)) \<or>
      (\<exists>c' m. get_png p c = (c', Inl (Panicked m)))"
begin

lemma get_step:
  assumes "icon_cache_ok c" and "get_png p c = (c', r)" and "\<not> is_panic r"
  shows "icon_cache_ok c' \<and> cache_le c c' \<and> (\<forall>png. r = Inr png \<longrightarrow> snd (get_png p c') = Inr png)"
proof (cases "ic_executables c (key p)")
  case (Some h)
  from Some assms show ?thesis using get_known [OF Some] by auto
next
  case None
  consider (failed) e where "get_png p c = (c, Inl e)"
    | (shared) h png where "ic_icons c h = Some png"
        "get_png p c = (c\<lparr>ic_executables := (ic_executables c)(key p \<mapsto> h)\<rparr>, Inr png)"
    | (made) h png where "ic_icons c h = None"
        "get_png p c = (\<lparr>ic_executables = (ic_executables c)(key p \<mapsto> h), ic_icons = (ic_icons c)(h \<mapsto> png)\<rparr>, Inr png)"
    | (panicked) c'' m where "get_png p c = (c'', Inl (Panicked m))"
    using get_new [OF None] by blast
  then show ?thesis
  proof cases
    case failed
    with assms show ?thesis by simp
  next
    case shared
    have "get_png p c' = (c', Inr png)"
      using get_known [of c' p h] shared assms(2) by (simp add: cached_png_def)
    then show ?thesis
      using shared assms(1,2) None by (auto simp: icon_cache_ok_def cache_le_def map_le_def ran_def)
  next
    case made
    have "get_png p c' = (c', Inr png)"
      using get_known [of c' p h] made assms(2) by (auto simp: cached_png_def)
    then show ?thesis
      using made assms(1,2) None by (fastforce simp: icon_cache_ok_def cache_le_def map_le_def ran_def)
  next
    case panicked
    with assms show ?thesis by (auto simp: is_panic_def)
  qed
qed

lemma get_not_missing:
  assumes "icon_cache_ok c" and "ic_executables c (key p) = Some h"
  shows "\<exists>png. get_png p c = (c, Inr png)"
proof -
  have "h \<in> dom (ic_icons c)" using assms by (auto simp: icon_cache_ok_def ran_def)
  then show ?thesis by (auto simp: get_known [OF assms(2)] cached_png_def)
qed

lemma get_known_after: "get_png p c = (c', Inr png) \<Longrightarrow> \<exists>h. ic_executables c' (key p) = Some h"
  using get_new [of c p] get_known [of c p] by (cases "ic_executables c (key p)") auto

lemma get_again:
  assumes "cache_le c c'" and "snd (get_png p c) = Inr png" and "ic_executables c (key p) = Some h"
  shows "get_png p c' = (c', Inr png)"
proof -
  have "ic_executables c' (key p) = Some h"
    using assms(1,3) by (auto simp: cache_le_def map_le_def dom_def)
  moreover from get_known [OF assms(3)] assms(2) have "ic_icons c h = Some png"
    by (auto simp: cached_png_def split: option.splits)
  with assms(1) have "ic_icons c' h = Some png" by (auto simp: cache_le_def map_le_def dom_def)
  ultimately show ?thesis by (simp add: get_known cached_png_def)
qed

lemma call_step:
  assumes "is_poisoned st \<or> icon_cache_ok (is_cache st)"
  shows "let st' = fst (executable_icon get_png p st) in
     is_poisoned st' \<or> icon_cache_ok (is_cache st') \<and> \<not> is_poisoned st \<and> cache_le (is_cache st) (is_cache st')"
proof (cases "is_poisoned st")
  case False
  obtain c r where g: "get_png p (is_cache st) = (c, r)" by force
  show ?thesis
  proof (cases "is_panic r")
    case False
    with \<open>\<not> is_poisoned st\<close> g get_step [OF _ g] assms show ?thesis by (simp add: executable_icon_def)
  qed (use False g in \<open>simp add: executable_icon_def\<close>)
qed (simp add: executable_icon_def)

lemma calls_step:
  assumes "is_poisoned st \<or> icon_cache_ok (is_cache st)"
  shows "let st' = icon_calls get_png paths st in
     is_poisoned st' \<or> icon_cache_ok (is_cache st') \<and> \<not> is_poisoned st \<and> cache_le (is_cache st) (is_cache st')"
  using assms
proof (induction paths arbitrary: st)
  case (Cons p paths)
  let ?s = "fst (executable_icon get_png p st)"
  note call_step [OF Cons.prems, of p]
  moreover have "is_poisoned ?s \<or> icon_cache_ok (is_cache ?s)" using calculation by (auto simp: Let_def)
  note Cons.IH [OF this]
  ultimately show ?case by (auto simp: icon_calls_def Let_def intro: cache_le_trans)
qed (auto simp: icon_calls_def Let_def)

lemma served_icon_stays:
  assumes "executable_icon get_png p (icon_calls get_png before icon_static_new) = (st, Inr png)"
    and "\<not> is_poisoned (icon_calls get_png after st)"
  shows "snd (executable_icon get_png p (icon_calls get_png after st)) = Inr png"
proof -
  let ?s0 = "icon_calls get_png before icon_static_new"
  have inv0: "is_poisoned ?s0 \<or> icon_cache_ok (is_cache ?s0)"
    using calls_step [of icon_static_new before]
    by (auto simp: icon_static_new_def icon_cache_default_def icon_cache_ok_def Let_def)
  obtain c where g: "get_png p (is_cache ?s0) = (c, Inr png)" and st: "is_cache st = c" "\<not> is_poisoned st"
    and "\<not> is_poisoned ?s0"
    using assms(1) by (auto simp: executable_icon_def Let_def is_panic_def split: if_splits prod.splits)
  then have step: "icon_cache_ok c" "snd (get_png p c) = Inr png"
    using get_step [OF _ g] inv0 by (simp_all add: is_panic_def)
  obtain h where h: "ic_executables c (key p) = Some h" using get_known_after [OF g] by blast
  have "cache_le c (is_cache (icon_calls get_png after st))"
    using calls_step [of st after] step(1) st assms(2) by (simp add: Let_def)
  from get_again [OF this step(2) h] show ?thesis
    using assms(2) by (simp add: executable_icon_def)
qed

lemma never_missing:
  assumes "\<not> is_poisoned (icon_calls get_png paths icon_static_new)"
    and "ic_executables (is_cache (icon_calls get_png paths icon_static_new)) (key p) = Some h"
  shows "\<exists>png. executable_icon get_png p (icon_calls get_png paths icon_static_new) =
      (icon_calls get_png paths icon_static_new, Inr png)"
proof -
  let ?s = "icon_calls get_png paths icon_static_new"
  have "icon_cache_ok (is_cache ?s)"
    using calls_step [of icon_static_new paths] assms(1)
    by (auto simp: icon_static_new_def icon_cache_default_def icon_cache_ok_def Let_def)
  then obtain png where "get_png p (is_cache ?s) = (is_cache ?s, Inr png)"
    using get_not_missing [OF _ assms(2)] by blast
  then show ?thesis using assms(1) by (simp add: executable_icon_def is_panic_def)
qed

lemma serves:
  "\<not> is_poisoned (icon_calls get_png paths icon_static_new) \<and>
   ic_executables (is_cache (icon_calls get_png paths icon_static_new)) (key p) \<noteq> None \<longrightarrow>
   (\<exists>png. executable_icon get_png p (icon_calls get_png paths icon_static_new) =
      (icon_calls get_png paths icon_static_new, Inr png))"
  using never_missing [of paths p] by (simp only: not_None_eq) blast

lemma stays:
  "executable_icon get_png p (icon_calls get_png before icon_static_new) = (st, Inr png) \<and>
   \<not> is_poisoned (icon_calls get_png after st) \<longrightarrow>
   snd (executable_icon get_png p (icon_calls get_png after st)) = Inr png"
  using served_icon_stays by (intro impI, elim conjE) assumption

end

lemma unwrap_panics: "unwrap r = Inl e \<Longrightarrow> \<exists>m. e = Panicked m"
  by (auto simp: unwrap_def split: sum.splits fault.splits)

lemma to_image_panics: "to_image d = Inl e \<Longrightarrow> \<exists>m. e = Panicked m"
  unfolding to_image_def
  by (drule map_res_Inl_exists) (auto simp: pixel_at_def Let_def split: if_splits)

lemma icon_made_or_panics:
  "res_bind (to_image d) (\<lambda>img. unwrap (F img)) = Inl e \<Longrightarrow> \<exists>m. e = Panicked m"
  by (cases "to_image d") (auto dest: unwrap_panics to_image_panics)

lemma tiff_to_png_panics: "tiff_to_png env tiff = Inl e \<Longrightarrow> \<exists>m. e = Panicked m"
  by (cases "unwrap (mi_load_resized env tiff)") (auto simp: tiff_to_png_def dest: unwrap_panics)

interpretation win_icons: png_source key "win_get_png key env" for key env
proof
  fix c :: "'a icon_cache" and p
  show "ic_executables c (key p) = Some h \<Longrightarrow> win_get_png key env p c = (c, cached_png h c)" for h
    by (simp add: win_get_png_def)
next
  fix c :: "'a icon_cache" and p
  assume "ic_executables c (key p) = None"
  then show "(\<exists>e. win_get_png key env p c = (c, Inl e)) \<or>
      (\<exists>h png. ic_icons c h = Some png \<and>
         win_get_png key env p c = (c\<lparr>ic_executables := (ic_executables c)(key p \<mapsto> h)\<rparr>, Inr png)) \<or>
      (\<exists>h png. ic_icons c h = None \<and>
         win_get_png key env p c = (\<lparr>ic_executables = (ic_executables c)(key p \<mapsto> h), ic_icons = (ic_icons c)(h \<mapsto> png)\<rparr>, Inr png)) \<or>
      (\<exists>c' m. win_get_png key env p c = (c', Inl (Panicked m)))"
    by (auto simp: win_get_png_def Let_def dest: icon_made_or_panics split: option.splits sum.splits)
qed

interpretation mac_icons: png_source path_components "mac_get_png env" for env
proof
  fix c :: "path_component list icon_cache" and p
  show "ic_executables c (path_components p) = Some h \<Longrightarrow> mac_get_png env p c = (c, cached_png h c)" for h
    by (simp add: mac_get_png_def)
next
  fix c :: "path_component list icon_cache" and p
  assume "ic_executables c (path_components p) = None"
  then show "(\<exists>e. mac_get_png env p c = (c, Inl e)) \<or>
      (\<exists>h png. ic_icons c h = Some png \<and>
         mac_get_png env p c = (c\<lparr>ic_executables := (ic_executables c)(path_components p \<mapsto> h)\<rparr>, Inr png)) \<or>
      (\<exists>h png. ic_icons c h = None \<and>
         mac_get_png env p c = (\<lparr>ic_executables = (ic_executables c)(path_components p \<mapsto> h), ic_icons = (ic_icons c)(h \<mapsto> png)\<rparr>, Inr png)) \<or>
      (\<exists>c' m. mac_get_png env p c = (c', Inl (Panicked m)))"
    by (auto simp: mac_get_png_def Let_def dest: tiff_to_png_panics split: option.splits sum.splits)
qed


text \<open>
  C34. The icon cache never breaks.  After any calls for any executables on either platform, as long as none
  of them panicked, an executable the cache knows is served from it: the lookup of its icon, which the code
  unwraps, succeeds.  And an icon that was served once is served again, the same, after any further calls.
\<close>

theorem icon_cache_serves:
  fixes key :: "string \<Rightarrow> 'k"
  shows "(\<not> is_poisoned (icon_calls (win_get_png key wenv) paths icon_static_new) \<and>
      ic_executables (is_cache (icon_calls (win_get_png key wenv) paths icon_static_new)) (key p) \<noteq> None \<longrightarrow>
        (\<exists>png. executable_icon (win_get_png key wenv) p (icon_calls (win_get_png key wenv) paths icon_static_new) =
           (icon_calls (win_get_png key wenv) paths icon_static_new, Inr png))) \<and>
    (\<not> is_poisoned (icon_calls (mac_get_png menv) paths icon_static_new) \<and>
      ic_executables (is_cache (icon_calls (mac_get_png menv) paths icon_static_new)) (path_components p) \<noteq> None \<longrightarrow>
        (\<exists>png. executable_icon (mac_get_png menv) p (icon_calls (mac_get_png menv) paths icon_static_new) =
           (icon_calls (mac_get_png menv) paths icon_static_new, Inr png))) \<and>
    (executable_icon (win_get_png key wenv) p (icon_calls (win_get_png key wenv) paths icon_static_new) = (wst, Inr wpng) \<and>
      \<not> is_poisoned (icon_calls (win_get_png key wenv) later wst) \<longrightarrow>
        snd (executable_icon (win_get_png key wenv) p (icon_calls (win_get_png key wenv) later wst)) = Inr wpng) \<and>
    (executable_icon (mac_get_png menv) p (icon_calls (mac_get_png menv) paths icon_static_new) = (mst, Inr mpng) \<and>
      \<not> is_poisoned (icon_calls (mac_get_png menv) later mst) \<longrightarrow>
        snd (executable_icon (mac_get_png menv) p (icon_calls (mac_get_png menv) later mst)) = Inr mpng)"
  by (intro conjI) (rule win_icons.serves mac_icons.serves win_icons.stays mac_icons.stays)+

text \<open>A system on which every existing executable has the same icon of one white pixel.\<close>

definition one_pixel_env :: icon_env where
  "one_pixel_env =
     \<lparr>ie_exists = (\<lambda>p. p \<noteq> []),
      ie_module = Inr 0,
      ie_encode_wide = ascii_utf16,
      ie_extract = (\<lambda>h p. Some 1),
      ie_destroy = (\<lambda>i. Inr ()),
      gdi_icon_info = (\<lambda>i. Inr (2, 3)),
      gdi_delete = (\<lambda>h. Inr ()),
      gdi_object = (\<lambda>h. (True, 1, 1)),
      gdi_dc = Some 4,
      gdi_dibits = (\<lambda>dc bm w h. (h, [0xFFFFFFFF])),
      gdi_release = (\<lambda>dc. 1),
      ie_hash = (\<lambda>px. of_nat (length px)),
      ie_png = (\<lambda>w h px. Inr (concat px))\<rparr>"

lemma one_pixel_icon:
  "icon_for_executable one_pixel_env p h = Inr \<lparr>pd_bgra = [0xFFFFFFFF], pd_width = 1, pd_height = 1\<rparr>"
  by (simp add: icon_for_executable_def icon_to_pixels_def one_pixel_env_def unwrap_def assert_that_def
      u32_try_from_def)

lemma one_pixel_get:
  "win_get_png id one_pixel_env ''a'' icon_cache_default =
     (\<lparr>ic_executables = [''a'' \<mapsto> 1], ic_icons = [1 \<mapsto> [0xFF, 0xFF, 0xFF, 0xFF]]\<rparr>, Inr [0xFF, 0xFF, 0xFF, 0xFF])"
proof -
  have env: "ie_exists one_pixel_env ''a''" "ie_module one_pixel_env = Inr 0"
    "ie_png one_pixel_env 1 1 [[0xFF, 0xFF, 0xFF, 0xFF]] = Inr [0xFF, 0xFF, 0xFF, 0xFF]"
    by (simp_all add: one_pixel_env_def)
  have hash: "pixel_hash one_pixel_env \<lparr>pd_bgra = [0xFFFFFFFF], pd_width = 1, pd_height = 1\<rparr> = 1"
    by (simp add: pixel_hash_def one_pixel_env_def)
  have image: "to_image \<lparr>pd_bgra = [0xFFFFFFFF], pd_width = 1, pd_height = 1\<rparr> = Inr [[0xFF, 0xFF, 0xFF, 0xFF]]"
    by (simp add: to_image_def pixel_at_def pixel_rgba_def)
  show ?thesis
    by (simp add: win_get_png_def icon_cache_default_def env one_pixel_icon hash image unwrap_def)
qed

theorem icon_cache_serves_witness:
  "snd (executable_icon (win_get_png id one_pixel_env) ''a''
       (icon_calls (win_get_png id one_pixel_env) [''a'', []] icon_static_new)) = Inr [0xFF, 0xFF, 0xFF, 0xFF]"
proof -
  let ?G = "win_get_png id one_pixel_env"
  let ?st = "\<lparr>is_poisoned = False,
    is_cache = \<lparr>ic_executables = [''a'' \<mapsto> 1], ic_icons = [1 \<mapsto> [0xFF, 0xFF, 0xFF, 0xFF]]\<rparr>\<rparr>"
  have first: "executable_icon ?G ''a'' (icon_calls ?G [] icon_static_new) = (?st, Inr [0xFF, 0xFF, 0xFF, 0xFF])"
    by (simp add: executable_icon_def icon_calls_def icon_static_new_def one_pixel_get is_panic_def)
  have "\<not> is_poisoned (icon_calls ?G [[]] ?st)"
    by (simp add: executable_icon_def icon_calls_def win_get_png_def one_pixel_env_def is_panic_def)
  with first icon_cache_serves [of id one_pixel_env "[]" "''a''" undefined ?st "[0xFF, 0xFF, 0xFF, 0xFF]" "[[]]"]
  have "snd (executable_icon ?G ''a'' (icon_calls ?G [[]] ?st)) = Inr [0xFF, 0xFF, 0xFF, 0xFF]" by blast
  then show ?thesis
    using first by (simp add: icon_calls_def)
qed

subsection \<open>Pixels\<close>

lemma concat_rows: "concat (map (\<lambda>y. map (\<lambda>x. f (y * w + x)) [0..<w]) [0..<h]) = map f [0..<h * w]"
proof (induction h)
  case (Suc h)
  have "map (\<lambda>x. f (h * w + x)) [0..<w] = map f [h * w..<h * w + w]"
    by (rule nth_equalityI) auto
  moreover have "[0..<Suc h * w] = [0..<h * w] @ [h * w..<h * w + w]"
    using upt_add_eq_append [of 0 "h * w" w] by (simp add: add.commute)
  ultimately show ?case using Suc by simp
qed simp

text \<open>
  The conversion of an icon.  When the buffer holds the pixels of the icon and there are fewer than
  \<open>2 ^ 32\<close> of them, the computation of the index in 32 bits is exact, no access is out of bounds, and
  the image has the pixels line by line, each with red and blue exchanged.
\<close>

theorem to_image_total:
  assumes "length (pd_bgra d) = unat (pd_height d) * unat (pd_width d)"
    and "unat (pd_height d) * unat (pd_width d) < 2 ^ 32"
  shows "to_image d = Inr (map pixel_rgba (pd_bgra d))"
proof -
  let ?w = "unat (pd_width d)" and ?h = "unat (pd_height d)"
  have pixel: "pixel_at d (word_of_nat x) (word_of_nat y) = Inr (pixel_rgba (pd_bgra d ! (y * ?w + x)))"
    if "y < ?h" and "x < ?w" for x y
  proof -
    have "y * ?w + x < Suc y * ?w" using that by simp
    also have "\<dots> \<le> ?h * ?w" using that by (intro mult_le_mono1) simp
    finally have bound: "y * ?w + x < ?h * ?w" .
    have "word_of_nat y * pd_width d + word_of_nat x = (word_of_nat (y * ?w + x) :: u32)" by simp
    moreover have "unat (word_of_nat (y * ?w + x) :: u32) = y * ?w + x"
      using bound assms(2) by (simp add: unat_of_nat take_bit_nat_def del: of_nat_mult of_nat_add)
    ultimately show ?thesis using bound assms(1) by (simp add: pixel_at_def Let_def)
  qed
  have "to_image d =
      Inr (map (\<lambda>(y, x). pixel_rgba (pd_bgra d ! (y * ?w + x)))
        (concat (map (\<lambda>y. map (\<lambda>x. (y, x)) [0..<?w]) [0..<?h])))"
    unfolding to_image_def by (rule map_res_all_Inr) (auto simp: pixel)
  also have "map (\<lambda>(y, x). pixel_rgba (pd_bgra d ! (y * ?w + x))) (concat (map (\<lambda>y. map (\<lambda>x. (y, x)) [0..<?w]) [0..<?h])) =
      map (\<lambda>i. pixel_rgba (pd_bgra d ! i)) [0..<?h * ?w]"
    using concat_rows [of "\<lambda>i. pixel_rgba (pd_bgra d ! i)" ?w ?h] by (simp add: map_concat comp_def)
  also have "\<dots> = map pixel_rgba (pd_bgra d)"
    using assms(1) by (intro nth_equalityI) auto
  finally show ?thesis .
qed

theorem to_image_total_witness:
  "to_image \<lparr>pd_bgra = [0x04030201, 0x08070605], pd_width = 1, pd_height = 2\<rparr> = Inr [[3, 2, 1, 4], [7, 6, 5, 8]]"
  using to_image_total [of "\<lparr>pd_bgra = [0x04030201, 0x08070605], pd_width = 1, pd_height = 2\<rparr>"]
  by (simp add: pixel_rgba_def)

text \<open>
  The hash of an icon does not cover its shape: of two executables whose icons have the same pixels in
  another width and height, the second one is served the image of the first.
\<close>

theorem icon_shape_ignored:
  assumes "win_get_png key env p icon_cache_default = (c, Inr png)"
    and "icon_for_executable env p h = Inr d" and "icon_for_executable env q h = Inr d'"
    and "pd_bgra d' = pd_bgra d" and "ie_module env = Inr h" and "ie_exists env q"
  shows "snd (win_get_png key env q c) = Inr png"
proof -
  have hash: "pixel_hash env d' = pixel_hash env d" using assms(4) by (simp add: pixel_hash_def)
  have "ic_icons c (pixel_hash env d) = Some png" and "ic_executables c = [key p \<mapsto> pixel_hash env d]"
    using assms(1,2,5)
    by (auto simp: win_get_png_def icon_cache_default_def Let_def split: if_splits sum.splits)
  then show ?thesis
    using assms(3,5,6) hash by (auto simp: win_get_png_def cached_png_def Let_def)
qed

text \<open>The same two pixels, beside each other or on top of each other.\<close>

definition two_shapes_env :: icon_env where
  "two_shapes_env = one_pixel_env\<lparr>
     ie_extract := (\<lambda>h p. Some (unat (hd p))),
     gdi_icon_info := (\<lambda>i. Inr (0, i)),
     gdi_object := (\<lambda>h. if h = 97 then (True, 2, 1) else (True, 1, 2)),
     gdi_dibits := (\<lambda>dc bm w h. (h, [0, 0])),
     ie_png := (\<lambda>w h px. Inr [ucast w, ucast h])\<rparr>"

lemma two_shapes_icons:
  "icon_for_executable two_shapes_env ''a'' 0 = Inr \<lparr>pd_bgra = [0, 0], pd_width = 2, pd_height = 1\<rparr>"
  "icon_for_executable two_shapes_env ''b'' 0 = Inr \<lparr>pd_bgra = [0, 0], pd_width = 1, pd_height = 2\<rparr>"
  by (simp_all add: icon_for_executable_def icon_to_pixels_def two_shapes_env_def one_pixel_env_def unwrap_def
      assert_that_def u32_try_from_def icon_path_u16_def ascii_utf16_def)

theorem icon_shape_ignored_witness:
  "\<exists>c png. win_get_png id two_shapes_env ''a'' icon_cache_default = (c, Inr png) \<and>
     snd (win_get_png id two_shapes_env ''b'' c) = Inr png"
proof -
  have env: "ie_module two_shapes_env = Inr 0" "ie_exists two_shapes_env ''a''" "ie_exists two_shapes_env ''b''"
    "ie_png two_shapes_env 2 1 img = Inr [2, 1]" for img
    by (simp_all add: two_shapes_env_def one_pixel_env_def)
  have image: "to_image \<lparr>pd_bgra = [0, 0], pd_width = 2, pd_height = 1\<rparr> = Inr (map pixel_rgba [0, 0])"
    by (simp add: to_image_def pixel_at_def upt_rec [of 0 2] upt_rec [of "Suc 0" 2])
  obtain c png where first: "win_get_png id two_shapes_env ''a'' icon_cache_default = (c, Inr png)"
    by (simp add: win_get_png_def icon_cache_default_def env two_shapes_icons image unwrap_def Let_def)
  from icon_shape_ignored [OF this two_shapes_icons _ env(1,3)]
  have "snd (win_get_png id two_shapes_env ''b'' c) = Inr png" by simp
  with first show ?thesis by blast
qed

lemma long_path_not_terminated:
  "128 \<le> length (ie_encode_wide env p) \<Longrightarrow> icon_path_u16 env p = take 128 (ie_encode_wide env p)"
  by (simp add: icon_path_u16_def)

end
