(* ===== verification/Process_List.thy ===== *)
theory Process_List
  imports Icons Messages "HOL-Library.Multiset" "HOL-Library.Product_Lexorder"
begin

text \<open>
  \<^verbatim>\<open>src/bin/process-list.rs\<close>: the page with all executables, sorted so that applications with
  a window come first and system processes last, with icons for the former; and the parts of
  \<^verbatim>\<open>mitmproxy-rs/src/process_info.rs\<close> beside the lists themselves.
\<close>

subsection \<open>The page\<close>

definition nl :: string where "nl = [CHR 0x0A]"

definition page_head :: string where
  "page_head =
     ''<!doctype html><html><body><table>'' @ nl @
     ''    <tr>'' @ nl @
     ''        <th>Icon</th>'' @ nl @
     ''        <th>display_name</th>'' @ nl @
     ''        <th>is_visible</th>'' @ nl @
     ''        <th>is_system</th>'' @ nl @
     ''        <th>executable</th>'' @ nl @
     ''    </tr>'' @ nl"

definition page_foot :: string where
  "page_foot = ''</table></body></html>'' @ nl"

definition show_bool :: "bool \<Rightarrow> string" where
  "show_bool b = (if b then ''true'' else ''false'')"

definition page_cell :: "string \<Rightarrow> string" where
  "page_cell s = ''            <td>'' @ s @ ''</td>'' @ nl"

text \<open>\<open>lossy\<close> is \<^verbatim>\<open>to_string_lossy\<close>.\<close>

definition page_row :: "(string \<Rightarrow> string) \<Rightarrow> string \<Rightarrow> exec_info \<Rightarrow> string" where
  "page_row lossy img p =
     nl @ ''        <tr>'' @ nl @
     page_cell img @ page_cell (ei_display_name p) @ page_cell (show_bool (ei_visible p)) @
     page_cell (show_bool (ei_system p)) @ page_cell (lossy (ei_executable p)) @
     ''        </tr>'' @ nl"

definition page_order :: "exec_info list \<Rightarrow> exec_info list" where
  "page_order ps = sort_key (\<lambda>p. (ei_system p, \<not> ei_visible p)) ps"

text \<open>
  The icon of one executable; \<open>base64\<close> is the crate's encoding.  A panic of the icon cache ends the program.
\<close>

definition page_image ::
  "(string \<Rightarrow> 'k icon_cache \<Rightarrow> 'k icon_cache \<times> bytes res) \<Rightarrow> (bytes \<Rightarrow> string) \<Rightarrow> exec_info \<Rightarrow> 'k icon_cache \<Rightarrow>
   'k icon_cache \<times> string res" where
  "page_image get_png base64 p cache =
     (if \<not> ei_system p \<and> ei_visible p then
        (case get_png (ei_executable p) cache of
           (cache', Inr data) \<Rightarrow>
             (cache', Inr (''<img src='' @ [CHR 0x22] @ ''data:image/png;charset=utf-8;base64,'' @ base64 data @ [CHR 0x22] @ ''>''))
         | (cache', Inl (Failed e)) \<Rightarrow> (cache', Inr e)
         | (cache', Inl (Panicked e)) \<Rightarrow> (cache', Inl (Panicked e)))
      else (cache, Inr []))"

fun page_rows ::
  "(string \<Rightarrow> 'k icon_cache \<Rightarrow> 'k icon_cache \<times> bytes res) \<Rightarrow> (bytes \<Rightarrow> string) \<Rightarrow> (string \<Rightarrow> string) \<Rightarrow> exec_info list \<Rightarrow>
   'k icon_cache \<Rightarrow> string list \<times> 'k icon_cache res" where
  "page_rows get_png base64 lossy [] cache = ([], Inr cache)"
| "page_rows get_png base64 lossy (p # ps) cache =
     (case page_image get_png base64 p cache of
        (cache', Inl e) \<Rightarrow> ([], Inl e)
      | (cache', Inr img) \<Rightarrow>
          run_bind ([page_row lossy img p], Inr cache') (page_rows get_png base64 lossy ps))"

text \<open>What is printed, and how the program ends; on other systems it is \<^verbatim>\<open>unimplemented!\<close>.\<close>

definition process_list_main ::
  "bool \<Rightarrow> exec_info list res \<Rightarrow> (string \<Rightarrow> 'k icon_cache \<Rightarrow> 'k icon_cache \<times> bytes res) \<Rightarrow> (bytes \<Rightarrow> string) \<Rightarrow>
   (string \<Rightarrow> string) \<Rightarrow> string list \<times> unit res" where
  "process_list_main supported active_executables get_png base64 lossy =
     (if \<not> supported then ([], Inl (Panicked ''not implemented''))
      else case active_executables of
        Inl e \<Rightarrow> ([], Inl e)
      | Inr ps \<Rightarrow>
          run_bind ([page_head], Inr icon_cache_default) (\<lambda>cache.
          run_bind (page_rows get_png base64 lossy (page_order ps) cache) (\<lambda>cache.
            ([page_foot], Inr ()))))"

subsection \<open>The Python functions elsewhere\<close>

text \<open>\<^verbatim>\<open>executable_icon\<close> on a system without icons.\<close>

definition py_executable_icon ::
  "bool \<Rightarrow> (string \<Rightarrow> 'k icon_cache \<Rightarrow> 'k icon_cache \<times> bytes res) \<Rightarrow> string \<Rightarrow> 'k icon_static \<Rightarrow> 'k icon_static \<times> bytes res" where
  "py_executable_icon supported get_png path st =
     (if supported then executable_icon get_png path st
      else (st, Inl (Failed ''executable_icon is only available on Windows'')))"

definition process_getters :: "exec_info \<Rightarrow> string \<times> string \<times> bool \<times> bool" where
  "process_getters p = (ei_executable p, ei_display_name p, ei_visible p, ei_system p)"

subsection \<open>Properties\<close>

text \<open>The stable sort by two flags is the concatenation of the four classes.\<close>

lemma sorted_constant: "(\<And>x. x \<in> set xs \<Longrightarrow> f x = k) \<Longrightarrow> sorted (map f xs)"
  by (induction xs) auto

lemma page_order_classes:
  "page_order ps =
     filter (\<lambda>p. \<not> ei_system p \<and> ei_visible p) ps @ filter (\<lambda>p. \<not> ei_system p \<and> \<not> ei_visible p) ps @
     filter (\<lambda>p. ei_system p \<and> ei_visible p) ps @ filter (\<lambda>p. ei_system p \<and> \<not> ei_visible p) ps"
    (is "_ = ?four ps")
  unfolding page_order_def
proof (rule properties_for_sort_key)
  show "mset (?four ps) = mset ps" by (induction ps) auto
  have "sorted (map (\<lambda>p. (ei_system p, \<not> ei_visible p)) (filter (\<lambda>p. \<not> ei_system p \<and> ei_visible p) ps))"
    "sorted (map (\<lambda>p. (ei_system p, \<not> ei_visible p)) (filter (\<lambda>p. \<not> ei_system p \<and> \<not> ei_visible p) ps))"
    "sorted (map (\<lambda>p. (ei_system p, \<not> ei_visible p)) (filter (\<lambda>p. ei_system p \<and> ei_visible p) ps))"
    "sorted (map (\<lambda>p. (ei_system p, \<not> ei_visible p)) (filter (\<lambda>p. ei_system p \<and> \<not> ei_visible p) ps))"
    by (rule sorted_constant, fastforce)+
  then show "sorted (map (\<lambda>p. (ei_system p, \<not> ei_visible p)) (?four ps))"
    by (auto simp: sorted_append)
  fix q
  show "filter (\<lambda>x. (ei_system q, \<not> ei_visible q) = (ei_system x, \<not> ei_visible x)) (?four ps) =
      filter (\<lambda>x. (ei_system q, \<not> ei_visible q) = (ei_system x, \<not> ei_visible x)) ps"
    by (cases "ei_system q"; cases "ei_visible q") (simp_all add: conj_commute)
qed

text \<open>Which executables have a window and are none of the system's; only their icons are looked up.\<close>

definition with_icon :: "exec_info \<Rightarrow> bool" where
  "with_icon p \<longleftrightarrow> \<not> ei_system p \<and> ei_visible p"

lemma page_rows_Inr:
  "page_rows get_png base64 lossy ps cache = (rows, Inr cache') \<Longrightarrow>
   (\<exists>imgs. rows = map2 (page_row lossy) imgs ps \<and> length imgs = length ps \<and>
     (\<forall>img p. (img, p) \<in> set (zip imgs ps) \<longrightarrow> \<not> with_icon p \<longrightarrow> img = [])) \<and>
   cache' = fold (\<lambda>p c. fst (get_png (ei_executable p) c)) (filter with_icon ps) cache"
proof (induction ps arbitrary: cache rows)
  case (Cons p ps)
  then obtain c img rows' where img: "page_image get_png base64 p cache = (c, Inr img)"
    and rows: "page_rows get_png base64 lossy ps c = (rows', Inr cache')" "rows = page_row lossy img p # rows'"
    by (auto split: prod.splits sum.splits simp: prod_eq_iff)
  from img have "(\<not> with_icon p \<longrightarrow> img = []) \<and> c = (if with_icon p then fst (get_png (ei_executable p) cache) else cache)"
    by (auto simp: page_image_def with_icon_def split: if_splits prod.splits sum.splits fault.splits)
  moreover from Cons.IH [OF rows(1)] obtain imgs where "rows' = map2 (page_row lossy) imgs ps" "length imgs = length ps"
    "\<forall>img p. (img, p) \<in> set (zip imgs ps) \<longrightarrow> \<not> with_icon p \<longrightarrow> img = []"
    "cache' = fold (\<lambda>p c. fst (get_png (ei_executable p) c)) (filter with_icon ps) c" by blast
  ultimately show ?case using rows(2) by (intro conjI exI [of _ "img # imgs"]) auto
qed simp

text \<open>
  The page of the process list, if no icon makes it panic: after its head one row per executable, applications
  with a window first, then those without, then system processes with and without a window, in each
  class in the order of the list; only the first class has an image.
\<close>

lemma process_page:
  assumes "process_list_main True (Inr ps) get_png base64 lossy = (out, Inr ())"
  obtains imgs where
    "out = page_head # map2 (page_row lossy) imgs
       (filter (\<lambda>p. \<not> ei_system p \<and> ei_visible p) ps @ filter (\<lambda>p. \<not> ei_system p \<and> \<not> ei_visible p) ps @
        filter (\<lambda>p. ei_system p \<and> ei_visible p) ps @ filter (\<lambda>p. ei_system p \<and> \<not> ei_visible p) ps) @
       [page_foot]"
    "length imgs = length ps" "\<And>img p. (img, p) \<in> set (zip imgs (page_order ps)) \<Longrightarrow> \<not> with_icon p \<Longrightarrow> img = []"
proof -
  obtain rows x where r': "page_rows get_png base64 lossy (page_order ps) icon_cache_default = (rows, x)" by (metis surj_pair)
  from assms r' obtain cache where x: "x = Inr cache" by (cases x) (simp_all add: process_list_main_def)
  note r = r' [unfolded x]
  have out: "out = page_head # rows @ [page_foot]"
    using assms r by (simp add: process_list_main_def)
  from page_rows_Inr [OF r] obtain imgs where "rows = map2 (page_row lossy) imgs (page_order ps)" "length imgs = length ps"
    "\<forall>img p. (img, p) \<in> set (zip imgs (page_order ps)) \<longrightarrow> \<not> with_icon p \<longrightarrow> img = []"
    by (auto simp: page_order_def)
  with out show thesis using that page_order_classes [of ps] by metis
qed

end
