(* ===== verification/Startup.thy ===== *)
theory Startup
  imports Servers
begin

text \<open>
  How the packet sources of the local redirectors come up (\<^verbatim>\<open>src/packet_sources/linux.rs\<close>,
  \<^verbatim>\<open>windows.rs\<close>, \<^verbatim>\<open>macos.rs\<close>) and the certificates of macOS
  (\<^verbatim>\<open>src/certificates/macos.rs\<close>, \<^verbatim>\<open>mitmproxy-rs/src/util.rs\<close>).  The answers of processes, sockets and
  the keychain's calls are parameters; the order of the steps, what is passed on, and which error is
  reported are modelled.
\<close>

subsection \<open>Linux\<close>

text \<open>The first line of the redirector's output, awaited for five seconds.\<close>

datatype first_line = LineTimeout | LineError string | LineEnd | LineRead string

record linux_start =
  ls_tempdir :: "string res"
  ls_bind :: "string \<Rightarrow> unit res"
  ls_sudo_spawn :: "unit res"
  ls_sudo_success :: bool
  ls_redirector_spawn :: "string \<Rightarrow> string \<Rightarrow> unit res"
  ls_first_line :: first_line
  ls_connect :: "string \<Rightarrow> unit res"

text \<open>\<^verbatim>\<open>Path::join\<close> of a relative name.\<close>

definition path_join :: "string \<Rightarrow> string \<Rightarrow> string" where
  "path_join dir name = (if dir = [] \<or> last dir = CHR ''/'' then dir @ name else dir @ CHR ''/'' # name)"

text \<open>\<^verbatim>\<open>context\<close> replaces the message of an error.\<close>

definition with_context :: "string \<Rightarrow> 'a res \<Rightarrow> 'a res" where
  "with_context msg r = (case r of Inl (Failed e) \<Rightarrow> Inl (Failed msg) | _ \<Rightarrow> r)"

text \<open>The path the redirector prints first, within five seconds.\<close>

definition redirector_address :: "first_line \<Rightarrow> string res" where
  "redirector_address l =
     (case l of
        LineTimeout \<Rightarrow> Inl (Failed ''failed to establish connection to Linux redirector'')
      | LineError e \<Rightarrow> Inl (Failed ''failed to read redirector stdout'')
      | LineEnd \<Rightarrow> Inl (Failed ''redirector did not produce stdout'')
      | LineRead line \<Rightarrow> Inr line)"

definition linux_start_redirector :: "linux_start \<Rightarrow> string \<Rightarrow> string \<Rightarrow> string res" where
  "linux_start_redirector A executable listener_addr =
     res_bind (with_context ''Failed to run sudo.'' (ls_sudo_spawn A)) (\<lambda>_.
     if \<not> ls_sudo_success A then Inl (Failed ''Failed to elevate privileges'')
     else
       res_bind (with_context ''Failed to launch mitmproxy-linux-redirector.'' (ls_redirector_spawn A executable listener_addr)) (\<lambda>_.
       redirector_address (ls_first_line A)))"

text \<open>What is said when the redirector exits.\<close>

datatype exit_note = NoNote | DebugNote | StderrNote | ErrorNote

definition redirector_exit :: "bool \<Rightarrow> bool \<Rightarrow> exit_note" where
  "redirector_exit success shutting_down =
     (if success then (if shutting_down then NoNote else DebugNote)
      else (if shutting_down then StderrNote else ErrorNote))"

record linux_task =
  lt_datagram_dir :: string
  lt_peer :: string

definition linux_build :: "linux_start \<Rightarrow> string \<Rightarrow> (linux_task \<times> unit) res" where
  "linux_build A executable_path =
     res_bind (with_context ''failed to create temp dir'' (ls_tempdir A)) (\<lambda>datagram_dir.
     res_bind (ls_bind A (path_join datagram_dir ''mitmproxy'')) (\<lambda>_.
     res_bind (linux_start_redirector A executable_path datagram_dir) (\<lambda>dst.
     res_bind (with_context (''Failed to connect to redirector at '' @ dst) (ls_connect A dst)) (\<lambda>_.
       Inr (\<lparr>lt_datagram_dir = datagram_dir, lt_peer = dst\<rparr>, ())))))"

subsection \<open>The Linux redirector daemon\<close>

text \<open>
  \<^verbatim>\<open>mitmproxy-linux/src/main2.rs\<close> up to its loop.  The answers are those of the TUN device, of aya for
  the eBPF program and its map, and of the sockets; \<open>None\<close> is a missing program or map.
\<close>

record bpf_start =
  bs_load :: "unit res"
  bs_program :: "unit option"
  bs_program_cast :: "unit res"
  bs_cgroup :: "unit res"
  bs_prog_load :: "unit res"
  bs_attach :: "unit res"

definition load_bpf :: "bpf_start \<Rightarrow> unit res" where
  "load_bpf B =
     res_bind (with_context ''failed to load eBPF program'' (bs_load B)) (\<lambda>_.
     res_bind (case bs_program B of Some p \<Rightarrow> Inr p | None \<Rightarrow> Inl (Failed ''failed to get cgroup_sock_create'')) (\<lambda>_.
     res_bind (bs_program_cast B) (\<lambda>_.
     res_bind (with_context ''failed to open /sys/fs/cgroup/'' (bs_cgroup B)) (\<lambda>_.
     res_bind (with_context ''failed to load cgroup_sock_create program'' (bs_prog_load B)) (\<lambda>_.
     with_context ''failed to attach cgroup_sock_create program'' (bs_attach B))))))"

record daemon_start =
  ds_tun :: "string res"
  ds_tun_index :: "u32 res"
  ds_bpf :: "u32 \<Rightarrow> bpf_start"
  ds_map :: "unit option"
  ds_map_cast :: "unit res"
  ds_bind :: "string \<Rightarrow> unit res"
  ds_connect :: "string \<Rightarrow> unit res"
  ds_set_permissions :: "string \<Rightarrow> unit res"

text \<open>The daemon when its loop begins: its own address, the proxy's, the device, and the line it printed.\<close>

record linux_daemon =
  ld_redirector_addr :: string
  ld_mitmproxy_addr :: string
  ld_device_index :: u32
  ld_printed :: string

definition daemon_main :: "daemon_start \<Rightarrow> string list \<Rightarrow> linux_daemon res" where
  "daemon_main D args =
     res_bind (if 1 < length args then Inr (args ! 1) else Inl (Failed (''usage: '' @ hd args @ '' <pipe-dir>''))) (\<lambda>pipe_dir.
     let mitmproxy_addr = path_join pipe_dir ''mitmproxy''; redirector_addr = path_join pipe_dir ''redirector'' in
     res_bind (ds_tun D) (\<lambda>name.
     res_bind (with_context ''failed to get tun device index'' (ds_tun_index D)) (\<lambda>device_index.
     res_bind (with_context ''eBPF initialization failed'' (load_bpf (ds_bpf D device_index))) (\<lambda>_.
     res_bind (case ds_map D of Some m \<Rightarrow> Inr m | None \<Rightarrow> Inl (Failed (''could not get INTERCEPT_CONF map''))) (\<lambda>_.
     res_bind (with_context ''Cannot cast INTERCEPT_CONF to Array'' (ds_map_cast D)) (\<lambda>_.
     res_bind (with_context (''failed to bind to '' @ redirector_addr) (ds_bind D redirector_addr)) (\<lambda>_.
     res_bind (with_context (''failed to connect to '' @ mitmproxy_addr) (ds_connect D mitmproxy_addr)) (\<lambda>_.
     res_bind (ds_set_permissions D mitmproxy_addr) (\<lambda>_.
     res_bind (ds_set_permissions D redirector_addr) (\<lambda>_.
       Inr \<lparr>ld_redirector_addr = redirector_addr, ld_mitmproxy_addr = mitmproxy_addr,
            ld_device_index = device_index, ld_printed = redirector_addr\<rparr>))))))))))"

subsection \<open>Windows\<close>

text \<open>
  The pipe, and what \<^verbatim>\<open>ShellExecuteW\<close> returns for the executable and its argument; \<open>debug\<close> is a
  build with debug assertions.
\<close>

record windows_start =
  wb_create_pipe :: "string \<Rightarrow> unit res"
  wb_encode_wide :: "string \<Rightarrow> u16 list"
  wb_shell_execute :: "u16 list \<Rightarrow> u16 list \<Rightarrow> u32"
  wb_last_error :: string

definition SE_ERR_ACCESSDENIED :: u32 where
  "SE_ERR_ACCESSDENIED = 5"

definition pipe_name :: "nat \<Rightarrow> string" where
  "pipe_name pid =
     [CHR 0x5C, CHR 0x5C, CHR ''.'', CHR 0x5C] @ ''pipe'' @ CHR 0x5C # ''mitmproxy-transparent-proxy-'' @ show_nat pid"

text \<open>\<^verbatim>\<open>encode_utf16\<close> of a string of ASCII characters, as the name of the pipe is.\<close>

definition utf16_ascii :: "string \<Rightarrow> u16 list" where
  "utf16_ascii s = map (\<lambda>c. of_nat (of_char c)) s"

definition windows_build :: "windows_start \<Rightarrow> bool \<Rightarrow> nat \<Rightarrow> string \<Rightarrow> (string \<times> unit) res" where
  "windows_build A debug pid executable_path =
     (let name = pipe_name pid in
      res_bind (wb_create_pipe A name) (\<lambda>_.
      let result = wb_shell_execute A (wb_encode_wide A executable_path @ [0]) (utf16_ascii name @ [0]) in
      if debug then Inr (name, ())
      else if result = SE_ERR_ACCESSDENIED
      then Inl (Failed ''Failed to start the interception process as administrator.'')
      else if result \<le> 32 then Inl (Failed (''Failed to start the executable: '' @ wb_last_error A))
      else Inr (name, ())))"

text \<open>\<^verbatim>\<open>WindowsTask::run\<close> and \<^verbatim>\<open>LinuxTask::run\<close>: \<open>forwarded\<close> is how \<^verbatim>\<open>forward_packets\<close> ended.\<close>

definition windows_run :: "unit res \<Rightarrow> unit res \<Rightarrow> unit res" where
  "windows_run connect forwarded = res_bind connect (\<lambda>_. forwarded)"

definition linux_run :: "unit res \<Rightarrow> unit res" where
  "linux_run forwarded = res_bind forwarded (\<lambda>_. Inr ())"

subsection \<open>macOS\<close>

record process_output =
  po_stdout :: bytes
  po_stderr :: bytes
  po_success :: bool
  po_code :: "int option"

definition mac_start_redirector ::
  "(bytes \<Rightarrow> string) \<Rightarrow> (int option \<Rightarrow> string) \<Rightarrow> unit res \<Rightarrow> process_output res \<Rightarrow> (log_level \<times> string) list \<times> unit res" where
  "mac_start_redirector lossy show_code spawned output =
     (case with_context ''Failed to launch macos-redirector app.'' spawned of
        Inl e \<Rightarrow> ([], Inl e)
      | Inr _ \<Rightarrow>
          (case output of
             Inl e \<Rightarrow> ([], Inl e)
           | Inr out \<Rightarrow>
               ((if po_stdout out = [] then [] else [(LInfo, ''[macos-redirector] '' @ trim (lossy (po_stdout out)))]) @
                (if po_stderr out = [] then [] else [(LError, ''[macos-redirector] '' @ trim (lossy (po_stderr out)))]),
                if po_success out then Inr ()
                else Inl (Failed (''macos-redirector exited with status '' @ show_code (po_code out))))))"

datatype 's accepted = AcceptTimeout | AcceptResult "'s res"

definition mac_build :: "(string \<Rightarrow> unit res) \<Rightarrow> (string \<Rightarrow> unit res) \<Rightarrow> 's accepted \<Rightarrow> nat \<Rightarrow> ('s \<times> unit) res" where
  "mac_build bind start accept pid =
     (let listener_addr = ''/tmp/mitmproxy-'' @ show_nat pid in
      res_bind (bind listener_addr) (\<lambda>_.
      res_bind (start listener_addr) (\<lambda>_.
      case accept of
        AcceptTimeout \<Rightarrow> Inl (Failed ''failed to establish connection to macOS system extension'')
      | AcceptResult r \<Rightarrow> res_bind r (\<lambda>control_channel. Inr (control_channel, ())))))"

subsection \<open>Certificates\<close>

text \<open>The certificates of the keychain with their labels, and the answers of its calls.\<close>

type_synonym 'c keychain = "(string \<times> 'c) list"

record 'c keychain_calls =
  kk_from_der :: "bytes \<Rightarrow> 'c res"
  kk_search_error :: "fault option"
  kk_delete :: "unit res"
  kk_add :: "unit res"
  kk_open :: "string \<Rightarrow> unit res"

fun delete_first :: "string \<Rightarrow> 'c keychain \<Rightarrow> 'c keychain" where
  "delete_first l [] = []"
| "delete_first l ((k, c) # kc) = (if k = l then kc else (k, c) # delete_first l kc)"

definition keychain_search :: "'c keychain_calls \<Rightarrow> string \<Rightarrow> 'c keychain \<Rightarrow> 'c list res" where
  "keychain_search A l kc =
     (case kk_search_error A of Some e \<Rightarrow> Inl e | None \<Rightarrow> Inr (map snd (filter (\<lambda>(k, c). k = l) kc)))"

definition add_cert :: "'c keychain_calls \<Rightarrow> bytes \<Rightarrow> string \<Rightarrow> 'c keychain \<Rightarrow> 'c keychain \<times> unit res" where
  "add_cert A der path kc =
     (case kk_from_der A der of
        Inl e \<Rightarrow> (kc, Inl e)
      | Inr cert \<Rightarrow>
          (case keychain_search A ''mitmproxy'' kc of
             Inl e \<Rightarrow> (kc, Inl e)
           | Inr found \<Rightarrow>
               let (kc, deleted) =
                     (case found of
                        [] \<Rightarrow> (kc, Inr ())
                      | c # _ \<Rightarrow>
                          (case kk_delete A of
                             Inl e \<Rightarrow> (kc, Inl e)
                           | Inr _ \<Rightarrow> (delete_first ''mitmproxy'' kc, Inr ()))) in
               (case deleted of
                  Inl e \<Rightarrow> (kc, Inl e)
                | Inr _ \<Rightarrow>
                    (case kk_add A of
                       Inl e \<Rightarrow> (kc, Inl e)
                     | Inr _ \<Rightarrow> (kc @ [(''mitmproxy'', cert)], kk_open A path)))))"

definition remove_cert :: "'c keychain_calls \<Rightarrow> 'c keychain \<Rightarrow> 'c keychain \<times> unit res" where
  "remove_cert A kc =
     (case keychain_search A ''mitmproxy'' kc of
        Inl e \<Rightarrow> (kc, Inl e)
      | Inr [] \<Rightarrow> (kc, Inl (Failed ''Certificate not found''))
      | Inr (c # _) \<Rightarrow>
          (case kk_delete A of
             Inl e \<Rightarrow> (kc, Inl e)
           | Inr _ \<Rightarrow> (delete_first ''mitmproxy'' kc, Inr ())))"

text \<open>
  \<^verbatim>\<open>str::lines\<close>: pieces between line feeds, without a final empty one, and without a carriage return at
  their end.
\<close>

definition strip_cr :: "string \<Rightarrow> string" where
  "strip_cr line = (if line \<noteq> [] \<and> last line = CHR 0x0D then butlast line else line)"

definition str_lines :: "string \<Rightarrow> string list" where
  "str_lines s =
     (let pieces = split_on CHR 0x0A s in
      map strip_cr (if last pieces = [] then butlast pieces else pieces))"

definition pem_body :: "string \<Rightarrow> string" where
  "pem_body pem = concat (takeWhile (\<lambda>line. line \<noteq> ''-----END CERTIFICATE-----'') (drop 1 (str_lines pem)))"

definition py_add_cert ::
  "host_os \<Rightarrow> (string \<Rightarrow> bytes option) \<Rightarrow> string option res \<Rightarrow> (string \<Rightarrow> bool) \<Rightarrow> 'c keychain_calls \<Rightarrow> string \<Rightarrow>
     'c keychain \<Rightarrow> 'c keychain \<times> unit res" where
  "py_add_cert os decode module_dir exists_path A pem kc =
     (case os of
        OsMacos \<Rightarrow>
          (case res_bind module_dir (\<lambda>d. case d of Some d \<Rightarrow> Inr (d @ ''/macos-certificate-truster.app'')
                                             | None \<Rightarrow> Inl (Failed ''invalid path'')) of
             Inl e \<Rightarrow> (kc, Inl e)
           | Inr executable_path \<Rightarrow>
               if \<not> exists_path executable_path then (kc, Inl (Failed (executable_path @ '' does not exist'')))
               else
                 (case decode (pem_body pem) of
                    None \<Rightarrow> (kc, Inl (Panicked ''called Result::unwrap() on an Err value''))
                  | Some der \<Rightarrow>
                      let (kc, r) = add_cert A der executable_path kc in
                      (kc, with_context ''Failed to add certificate'' r)))
      | _ \<Rightarrow> (kc, Inl (Failed ''OS proxy mode is only available on macos'')))"

definition py_remove_cert :: "host_os \<Rightarrow> 'c keychain_calls \<Rightarrow> 'c keychain \<Rightarrow> 'c keychain \<times> unit res" where
  "py_remove_cert os A kc =
     (case os of
        OsMacos \<Rightarrow> (let (kc, r) = remove_cert A kc in (kc, with_context ''Failed to remove certificate'' r))
      | _ \<Rightarrow> (kc, Inl (Failed ''OS proxy mode is only available on macos'')))"

text \<open>
  The certificate truster: it trusts the first certificate with the label, \<open>None\<close> if it panics.
\<close>

definition truster_main :: "'c keychain_calls \<Rightarrow> ('c \<Rightarrow> unit res) \<Rightarrow> 'c keychain \<Rightarrow> 'c option" where
  "truster_main A set_trust kc =
     (case keychain_search A ''mitmproxy'' kc of
        Inr (cert # _) \<Rightarrow> (case set_trust cert of Inr _ \<Rightarrow> Some cert | Inl e \<Rightarrow> None)
      | _ \<Rightarrow> None)"

section \<open>Properties\<close>

lemma with_context_Inr [simp]: "with_context m r = Inr a \<longleftrightarrow> r = Inr a"
  by (auto simp: with_context_def split: sum.splits fault.splits)

text \<open>The Linux source comes up exactly if every step succeeds, and talks to the address the redirector printed.\<close>

lemma linux_build_iff:
  "linux_build A exe = Inr (task, u) \<longleftrightarrow>
     (\<exists>dir dst. ls_tempdir A = Inr dir \<and> ls_bind A (path_join dir ''mitmproxy'') = Inr () \<and> ls_sudo_spawn A = Inr () \<and>
        ls_sudo_success A \<and> ls_redirector_spawn A exe dir = Inr () \<and> ls_first_line A = LineRead dst \<and>
        ls_connect A dst = Inr () \<and> task = \<lparr>lt_datagram_dir = dir, lt_peer = dst\<rparr>)"
  by (auto simp: linux_build_def linux_start_redirector_def redirector_address_def res_bind_eq_Inr split: if_splits first_line.splits)

text \<open>
  A Unix datagram socket is bound to a path that is free, and connects to a path that is bound: \<open>bound\<close>
  are the paths in use when the call is made.
\<close>

definition binds_in :: "string set \<Rightarrow> (string \<Rightarrow> unit res) \<Rightarrow> bool" where
  "binds_in bound f \<longleftrightarrow> (\<forall>p. (f p = Inr ()) = (p \<notin> bound))"

definition connects_in :: "string set \<Rightarrow> (string \<Rightarrow> unit res) \<Rightarrow> bool" where
  "connects_in bound f \<longleftrightarrow> (\<forall>p. (f p = Inr ()) = (p \<in> bound))"

lemma path_join_inj: "path_join dir a = path_join dir b \<longleftrightarrow> a = b"
  by (simp add: path_join_def)

lemma daemon_main_Inr:
  assumes "daemon_main D args = Inr d"
  shows "1 < length args \<and> ld_redirector_addr d = path_join (args ! 1) ''redirector'' \<and>
     ld_mitmproxy_addr d = path_join (args ! 1) ''mitmproxy'' \<and> ld_printed d = ld_redirector_addr d \<and>
     ds_bind D (ld_redirector_addr d) = Inr () \<and> ds_connect D (ld_mitmproxy_addr d) = Inr () \<and>
     ds_tun_index D = Inr (ld_device_index d) \<and> load_bpf (ds_bpf D (ld_device_index d)) = Inr ()"
  using assms by (auto simp: daemon_main_def Let_def res_bind_eq_Inr split: if_splits)

text \<open>
  C14. The proxy and the Linux redirector meet.  In a fresh directory, when the proxy's steps before it and the
  redirector's own steps succeed, the redirector can bind its socket and reach the one of the proxy; the
  line it prints is the address of that socket, so the source comes up, with each of the two sockets
  connected to the other.
\<close>

theorem linux_rendezvous:
  assumes "ls_tempdir A = Inr dir" and "ls_sudo_spawn A = Inr ()" and "ls_sudo_success A"
    and "ls_redirector_spawn A exe dir = Inr ()"
    and "binds_in bound (ls_bind A)" and "path_join dir ''mitmproxy'' \<notin> bound" and "path_join dir ''redirector'' \<notin> bound"
    and "binds_in (insert (path_join dir ''mitmproxy'') bound) (ds_bind D)"
    and "connects_in (bound \<union> {path_join dir ''mitmproxy'', path_join dir ''redirector''}) (ds_connect D)"
    and "ds_tun D = Inr name" and "ds_tun_index D = Inr index" and "load_bpf (ds_bpf D index) = Inr ()"
    and "ds_map D = Some ()" and "ds_map_cast D = Inr ()" and "\<forall>p. ds_set_permissions D p = Inr ()"
    and "\<forall>d. daemon_main D [exe, dir] = Inr d \<longrightarrow> ls_first_line A = LineRead (ld_printed d)"
    and "connects_in (bound \<union> {path_join dir ''mitmproxy'', path_join dir ''redirector''}) (ls_connect A)"
  shows "\<exists>d task. daemon_main D [exe, dir] = Inr d \<and> linux_build A exe = Inr (task, ()) \<and>
     lt_peer task = ld_redirector_addr d \<and> ld_mitmproxy_addr d = path_join (lt_datagram_dir task) ''mitmproxy'' \<and>
     ld_device_index d = index"
proof -
  let ?m = "path_join dir ''mitmproxy''" and ?r = "path_join dir ''redirector''"
  have "?r \<noteq> ?m" by (simp add: path_join_inj)
  then have bind: "ds_bind D ?r = Inr ()" using assms(7,8) by (simp add: binds_in_def)
  have connect: "ds_connect D ?m = Inr ()" using assms(9) by (simp add: connects_in_def)
  let ?d = "\<lparr>ld_redirector_addr = ?r, ld_mitmproxy_addr = ?m, ld_device_index = index, ld_printed = ?r\<rparr>"
  have main: "daemon_main D [exe, dir] = Inr ?d"
    using assms(10-15) bind connect by (simp add: daemon_main_def Let_def with_context_def)
  have "ls_connect A ?r = Inr ()" using assms(17) by (simp add: connects_in_def)
  moreover have "ls_bind A ?m = Inr ()" using assms(5,6) by (simp add: binds_in_def)
  moreover have "ls_first_line A = LineRead ?r" using assms(16) main by simp
  ultimately have "linux_build A exe = Inr (\<lparr>lt_datagram_dir = dir, lt_peer = ?r\<rparr>, ())"
    using assms(1-4) by (simp add: linux_build_iff)
  with main show ?thesis by force
qed

text \<open>Answers for which all of this holds.\<close>

definition free_socket :: "string set \<Rightarrow> string \<Rightarrow> unit res" where
  "free_socket bound p = (if p \<in> bound then Inl (Failed ''address in use'') else Inr ())"

definition live_socket :: "string set \<Rightarrow> string \<Rightarrow> unit res" where
  "live_socket bound p = (if p \<in> bound then Inr () else Inl (Failed ''connection refused''))"

definition fine_daemon :: daemon_start where
  "fine_daemon =
     \<lparr>ds_tun = Inr ''tun0'', ds_tun_index = Inr 7,
      ds_bpf = (\<lambda>i. \<lparr>bs_load = Inr (), bs_program = Some (), bs_program_cast = Inr (), bs_cgroup = Inr (),
                     bs_prog_load = Inr (), bs_attach = Inr ()\<rparr>),
      ds_map = Some (), ds_map_cast = Inr (),
      ds_bind = free_socket {''/t/mitmproxy''}, ds_connect = live_socket {''/t/mitmproxy'', ''/t/redirector''},
      ds_set_permissions = (\<lambda>p. Inr ())\<rparr>"

definition fine_start :: linux_start where
  "fine_start =
     \<lparr>ls_tempdir = Inr ''/t'', ls_bind = free_socket {}, ls_sudo_spawn = Inr (), ls_sudo_success = True,
      ls_redirector_spawn = (\<lambda>e d. Inr ()), ls_first_line = LineRead ''/t/redirector'',
      ls_connect = live_socket {''/t/mitmproxy'', ''/t/redirector''}\<rparr>"

theorem linux_rendezvous_witness:
  "\<exists>d task. daemon_main fine_daemon [''redirector'', ''/t''] = Inr d \<and> linux_build fine_start ''redirector'' = Inr (task, ()) \<and>
     lt_peer task = ld_redirector_addr d \<and> ld_device_index d = 7"
proof -
  have join: "path_join ''/t'' n = ''/t/'' @ n" for n by (simp add: path_join_def)
  have printed: "ls_first_line fine_start = LineRead (ld_printed d)"
    if "daemon_main fine_daemon [''redirector'', ''/t''] = Inr d" for d
    using daemon_main_Inr [OF that] by (simp add: fine_start_def join)
  have "\<exists>d task. daemon_main fine_daemon [''redirector'', ''/t''] = Inr d \<and>
      linux_build fine_start ''redirector'' = Inr (task, ()) \<and> lt_peer task = ld_redirector_addr d \<and>
      ld_mitmproxy_addr d = path_join (lt_datagram_dir task) ''mitmproxy'' \<and> ld_device_index d = 7"
    by (rule linux_rendezvous [where bound = "{}" and name = "''tun0''"])
      (simp_all add: printed, simp_all add: fine_start_def fine_daemon_def load_bpf_def with_context_def
        binds_in_def connects_in_def free_socket_def live_socket_def join)
  then show ?thesis by blast
qed

lemma windows_build_release:
  "windows_build A False pid exe = Inr (name, u) \<longleftrightarrow>
     name = pipe_name pid \<and> wb_create_pipe A name = Inr () \<and>
     32 < wb_shell_execute A (wb_encode_wide A exe @ [0]) (utf16_ascii name @ [0])"
  by (auto simp: windows_build_def Let_def res_bind_eq_Inr SE_ERR_ACCESSDENIED_def not_le split: if_splits)

subsection \<open>Certificates\<close>

lemma labelled_delete_first:
  "filter (\<lambda>(k, c). k = l) (delete_first l kc) = tl (filter (\<lambda>(k, c). k = l) kc)"
  "filter (\<lambda>(k, c). k \<noteq> l) (delete_first l kc) = filter (\<lambda>(k, c). k \<noteq> l) kc"
  by (induction kc) auto

text \<open>
  The certificate in the macOS keychain is replaced, not added to: when adding succeeds and there was at
  most one certificate with the program's label, the new one is the only one afterwards, the certificates
  with other labels are the same, the truster finds the new one, and removing it restores a keychain
  without the label.
\<close>

theorem certificate_replaced:
  assumes "add_cert A der path kc = (kc', Inr ())" and "length (filter (\<lambda>(k, c). k = ''mitmproxy'') kc) \<le> 1"
    and "kk_from_der A der = Inr cert" and "kk_delete A = Inr ()"
  shows "filter (\<lambda>(k, c). k = ''mitmproxy'') kc' = [(''mitmproxy'', cert)] \<and>
     filter (\<lambda>(k, c). k \<noteq> ''mitmproxy'') kc' = filter (\<lambda>(k, c). k \<noteq> ''mitmproxy'') kc \<and>
     truster_main A (\<lambda>c. Inr ()) kc' = Some cert \<and>
     remove_cert A kc' = (delete_first ''mitmproxy'' kc', Inr ()) \<and>
     filter (\<lambda>(k, c). k = ''mitmproxy'') (delete_first ''mitmproxy'' kc') = []"
proof -
  let ?own = "filter (\<lambda>(k, c). k = ''mitmproxy'')" and ?rest = "filter (\<lambda>(k, c). k \<noteq> ''mitmproxy'')"
  have search: "kk_search_error A = None"
    using assms(1,3) by (auto simp: add_cert_def keychain_search_def split: option.splits)
  define base where "base = (if ?own kc = [] then kc else delete_first ''mitmproxy'' kc)"
  have kc': "kc' = base @ [(''mitmproxy'', cert)]"
    using assms(1,3,4) search
    by (auto simp: add_cert_def keychain_search_def base_def Let_def split: sum.splits list.splits)
  have "?own base = []" using assms(2) by (cases "?own kc") (auto simp: base_def labelled_delete_first)
  moreover have "?rest base = ?rest kc" by (simp add: base_def labelled_delete_first)
  ultimately have own: "?own kc' = [(''mitmproxy'', cert)]" and "?rest kc' = ?rest kc" by (simp_all add: kc')
  moreover have "keychain_search A ''mitmproxy'' kc' = Inr [cert]"
    using search own by (simp add: keychain_search_def)
  ultimately show ?thesis
    using assms(4) by (simp add: truster_main_def remove_cert_def labelled_delete_first)
qed

definition open_keychain :: "bytes keychain_calls" where
  "open_keychain =
     \<lparr>kk_from_der = (\<lambda>d. Inr d), kk_search_error = None, kk_delete = Inr (), kk_add = Inr (), kk_open = (\<lambda>p. Inr ())\<rparr>"

theorem certificate_replaced_witness:
  "filter (\<lambda>(k, c). k = ''mitmproxy'') (fst (add_cert open_keychain [2] [] [(''mitmproxy'', [1]), (''other'', [9])])) =
     [(''mitmproxy'', [2])]"
proof -
  have "add_cert open_keychain [2] [] [(''mitmproxy'', [1]), (''other'', [9])] =
      ([(''other'', [9]), (''mitmproxy'', [2])], Inr ())"
    by (simp add: add_cert_def open_keychain_def keychain_search_def)
  note added = this
  from certificate_replaced [OF added] show ?thesis
    unfolding added by (simp add: open_keychain_def)
qed

text \<open>The body of a PEM file is what stands between its first line and its end.\<close>

lemma pem_body_lines:
  assumes "str_lines pem = header # body @ ''-----END CERTIFICATE-----'' # rest"
    and "''-----END CERTIFICATE-----'' \<notin> set body"
  shows "pem_body pem = concat body"
proof -
  have "takeWhile (\<lambda>line. line \<noteq> ''-----END CERTIFICATE-----'') (body @ ''-----END CERTIFICATE-----'' # rest) = body"
    using assms(2) by (induction body) auto
  with assms(1) show ?thesis by (simp add: pem_body_def)
qed

end
