(* ===== verification/Spec2Isabelle.thy ===== *)
theory Spec2Isabelle
  imports Udp_Path Tcp_Path Linux_Redirector Windows_State Wg_Client Macos View_Registry Dns Process_List Startup
begin

text \<open>
  A verification of \<^bold>\<open>mitmproxy_rs\<close>, the Rust half of mitmproxy: it intercepts the traffic of
  processes or of WireGuard clients, terminates their TCP and UDP connections in a user-space network
  stack, hands them to Python as streams, and pretty-prints message bodies.  Paths below are relative
  to \<^verbatim>\<open>src/\<close>.

  \<^bold>\<open>How the parts interact.\<close>  A \<^emph>\<open>packet source\<close> obtains IP packets: from a TUN device, a WireGuard
  tunnel, or a redirector that runs with elevated rights (Linux: eBPF and a daemon, Windows: WinDivert,
  macOS: a system extension that passes whole flows).  It sends network events to the
  \<^emph>\<open>network task\<close>, which feeds smoltcp and the UDP handler and answers with packets.  New connections
  become transport events for the \<^emph>\<open>Python side\<close>, which answers with transport commands (read, write,
  drain, close).  The configuration of what to intercept travels from Python through
  \<^verbatim>\<open>forward_packets\<close> to the redirector.  Beside this path Python gets a DNS resolver, the list of
  running executables with their icons, syntax highlighting, and the views of message bodies.

  \<^bold>\<open>Theories.\<close>
  \<^item> \<open>Prelude\<close>: machine integers, results with failures and panics, and the string functions of Rust's
    standard library that the program uses.
  \<^item> \<open>Messages\<close> (\<^verbatim>\<open>src/messages.rs\<close>): connection ids, events, commands, packets.
  \<^item> \<open>Intercept_Conf\<close> (\<^verbatim>\<open>src/intercept_conf.rs\<close>): parsing, printing and deciding; the locale
    \<open>last_match\<close> states what the user-space and the kernel decision have in common.
  \<^item> \<open>Ipc\<close> (\<^verbatim>\<open>src/ipc\<close>) and \<open>Wire_Format\<close>: the messages to the redirectors.  The locale
    \<open>ipc_codec_laws\<close> is what is assumed of prost, \<open>ipc_cursor_laws\<close> adds that decoding reads to the end;
    \<open>Wire_Format\<close> builds an encoding that has both.
  \<^item> \<open>Linux_Redirector\<close> (\<^verbatim>\<open>mitmproxy-linux*\<close>): the eBPF program, its patterns and the daemon's loop,
    over the contract \<open>bpf_array_laws\<close> of the eBPF map.
  \<^item> \<open>Windows_Redirector\<close> (\<^verbatim>\<open>mitmproxy-windows/redirector/src/main2.rs\<close> and
    \<^verbatim>\<open>mitmproxy-rs/src/windows_redirector.rs\<close>): the three copies of the handlers, each written out, and
    the policy they are proved to follow; the locale \<open>packet_processor\<close> carries the shared proofs.
  \<^item> \<open>Lru_Cache\<close>: the contract \<open>lru_laws\<close> of the time-limited cache, \<open>lru_frame\<close> for runs of several
    calls, and an instance of both.
  \<^item> \<open>Udp\<close>, \<open>Virtual_Device\<close>, \<open>Tcp\<close>, \<open>Icmp\<close>, \<open>Network\<close> (\<^verbatim>\<open>src/network\<close>): the network stack and its
    task.  smoltcp's sockets, interface and packet accessors are records of functions.  \<open>Tcp_Path\<close> follows
    one TCP connection through all steps of the handler, over the contract \<open>tcp_stream_laws\<close> (which extends
    \<open>tcp_laws\<close>), and \<open>Udp_Path\<close> one UDP exchange from the packet source to the Python stream and back.
  \<^item> \<open>Packet_Sources\<close> (\<^verbatim>\<open>src/packet_sources/{mod,tun,udp,linux}.rs\<close>), \<open>Wireguard\<close>
    (\<^verbatim>\<open>wireguard.rs\<close>), \<open>Macos\<close> (\<^verbatim>\<open>macos.rs\<close>): the packet sources; \<open>Wg_Client\<close>
    (\<^verbatim>\<open>wireguard-test-client/src/main.rs\<close>): the client that tests a WireGuard server.  Every \<^verbatim>\<open>select!\<close> loop is
    a body (one arm per input) with a guard, run by \<open>select_loop\<close> over an explicit sequence of inputs; an
    input whose guard is closed is not taken.  The locale \<open>egress_queue\<close> proves once that such a loop
    loses and reorders nothing, and is interpreted for the TUN, UDP, macOS and client tasks.
  \<^item> \<open>Python_Api\<close> (\<^verbatim>\<open>mitmproxy-rs/src/{stream,udp_client,task}.rs\<close>, \<^verbatim>\<open>server/base.rs\<close> and
    \<^verbatim>\<open>src/shutdown.rs\<close>): streams, the UDP client, handing connections over, shutdown.
  \<^item> \<open>Network_Table\<close> (\<^verbatim>\<open>src/windows/network.rs\<close>): the system's tables of sockets, over the contract
    \<open>table_source\<close> of the calls that fill a buffer; \<open>Windows_State\<close>: the reachable states of the Windows
    redirector, as an inductive predicate over \<open>win_step\<close>.
  \<^item> \<open>Servers\<close> (\<^verbatim>\<open>mitmproxy-rs/src/server\<close>, the rest of \<^verbatim>\<open>task.rs\<close> and \<^verbatim>\<open>udp_client.rs\<close>,
    \<^verbatim>\<open>util.rs\<close>, \<^verbatim>\<open>contentviews.rs\<close>): starting and closing servers, the local redirector, the end of the
    handlers, keys, views in Python; \<open>Startup\<close> (\<^verbatim>\<open>src/packet_sources/{linux,windows,macos}.rs\<close>,
    \<^verbatim>\<open>mitmproxy-linux/src/main2.rs\<close> before its loop, \<^verbatim>\<open>src/certificates/macos.rs\<close>): how the redirectors
    come up, and the certificates of macOS.
  \<^item> \<open>Processes\<close> and \<open>Icons\<close> (\<^verbatim>\<open>src/processes\<close>): the lists of executables, where the locale
    \<open>grouping\<close> proves once what both platforms' loops compute, and the icon caches, where
    \<open>png_source\<close> carries the proofs for both; \<open>Process_List\<close> (\<^verbatim>\<open>src/bin/process-list.rs\<close>): the page that
    shows them.
  \<^item> \<open>Dns\<close> (\<^verbatim>\<open>src/dns.rs\<close>, \<^verbatim>\<open>mitmproxy-rs/src/dns_resolver.rs\<close>) and \<open>Highlight\<close>
    (\<^verbatim>\<open>mitmproxy-highlight/src\<close>): the resolver and syntax highlighting, the latter over the contract
    \<open>highlighter_laws\<close> of tree-sitter's events.
  \<^item> \<open>Contentviews\<close>, \<open>Protobuf_View\<close>, \<open>Raw_Proto\<close> (\<^verbatim>\<open>mitmproxy-contentviews/src\<close>): the hex,
    MsgPack, gRPC and protobuf views, with re-encoding and the guessing of descriptors; \<open>View_Registry\<close>
    (also \<^verbatim>\<open>mitmproxy-rs/src/lib.rs\<close>): their metadata, the loading of protobuf definitions, and their
    registration in the Python module.
  \<^item> This theory: properties that span several components.

  \<^bold>\<open>Conventions.\<close>  Code outside the repository is a parameter (a record of functions); what the program
  relies on is a locale over the parameter, used as a hypothesis, and each has an instance.  An error is
  \<open>Inl (Failed m)\<close>, a panic \<open>Inl (Panicked m)\<close>; effects of a step (answers on one-shot channels, events,
  packets) are listed in order.  Time is a number of milliseconds.  Channels with a capacity are
  counted where the code depends on it (the 256 slots of the network task, permits).  Asynchronous
  tasks are sequences of inputs, over which the theorems quantify.  Error messages are abbreviated to
  their constant part, logging is left out.

  \<^bold>\<open>What is shown.\<close>
  \<^item> Across components: the user's configuration is what the kernel program and the Windows redirector
    enforce (on Windows if its message fits the redirector's buffer); packets pass both redirectors unchanged and with their process; the Linux redirector and the
    proxy find each other's sockets; the sockets the system lists are known to the Windows redirector.
  \<^item> Network stack: the capacity of the channels is respected; connection ids never repeat; UDP datagrams
    reach exactly their connection, in order, and an exchange works from end to end; over the whole life
    of a TCP connection Python reads what was received and the peer gets what Python wrote; a pass over a connection
    loses no waiter, and polling is total in every reachable state; the device never overruns the channel.
  \<^item> Redirectors: decisions are the last match; held packets are released once and in order; a decision
    holds for ten minutes of any run; every captured packet is accounted for while sending works; the
    copies of the Windows redirector agree over whole runs; every reachable state is well formed.
  \<^item> Packet sources: WireGuard rounds end and answers go to the sender, and the test client's verdict is
    right; TUN and macOS relays keep the order; the reverse path filter is switched off for the TUN device only.
  \<^item> Python: a stream sends a well-formed sequence of commands; a shutdown stays visible; keys, the
    installation of the macOS app and the certificate behave as documented.
  \<^item> Desktop: the list of executables groups the processes, with a cache of names that is up to date; enumerating
    processes ends with a whole table; the icon cache never misses an icon it knows; the page lists
    applications with a window first.
  \<^item> Resolver and highlighting: no address and no character is lost.
  \<^item> Views: gRPC frames, zigzag numbers and, as YAML values, fields without a definition survive a round trip;
    guessing a descriptor ends; a directory of definitions is loaded completely but for entries that cannot
    be listed; no registered view hides another, and
    the choice by priority is unambiguous.
  \<^item> Defects: some theorems state what the code does where that is not what it means to do: a refused SYN
    ends the network task, the fall-back WireGuard peer panics, ICMPv6 replies have the wrong next
    header, flows of the macOS source share one id, \<^verbatim>\<open>write_eof\<close> closes UDP streams, an odd
    \<^verbatim>\<open>!binary\<close> panics, all Python handlers but one are left running at shutdown, the last window is
    not counted, a process whose criticality is unknown hides all others, and icons of another shape are
    confused.

  \<^bold>\<open>Bounds and fuel.\<close>  Loops are total functions with measures (gRPC frames, replacing tags) or structural
  recursions.  Draining a WireGuard tunnel is a \<open>partial_function\<close>, shown to return when the tunnel's queue
  is finite (\<open>tunn_laws\<close>).  Guessing a descriptor has fuel for the nesting; a fuel above the length of the
  data is shown to be enough, since a nested message is shorter than the one that holds it.  The loops that
  grow a buffer have fuel: twenty rounds for fewer than \<open>2 ^ 29\<close> processes, because the buffer doubles and
  its size is a 32-bit number, and two rounds for each table of sockets, because the system says what it needs.

  \<^bold>\<open>Not modelled.\<close>  What operating systems, Python, tokio and the third-party crates do themselves; the
  export lists of the Python module, the \<^verbatim>\<open>__repr__\<close> of some classes and debug output, which have no state; the
  adapters that make a datagram socket a byte stream; opening WinDivert's handles and raising a
  resource limit, single calls into the system; the exit on a signal; build scripts, tests and benchmarks.
\<close>

section \<open>From the proxy's configuration to the interception\<close>

text \<open>
  C1. On Linux the configuration the user sets is what the kernel enforces: for a specification of at
  most 20 process ids, the message that \<^verbatim>\<open>forward_packets\<close> writes makes the redirector fill
  the eBPF map, whatever it held, so that from then on a new socket is bound to the TUN device exactly
  if \<open>should_intercept\<close> of the proxy's configuration holds for its process, and keeps its device
  otherwise.
\<close>

theorem conf_reaches_kernel:
  assumes "ipc_codec_laws (fe_codec E)" "\<forall>b. fe_write_all E b = Inr ()" "bpf_array_laws arr"
    and "length as \<le> INTERCEPT_CONF_LEN" "\<forall>a\<in>set as. \<exists>p. action_pattern a = Pid p"
  shows "\<exists>buf m'. forward_packets E (FwdConf (conf_new as)) () = ([FwdWrite buf], Inr (Some ())) \<and>
     linux_step (fe_codec E) arr env (LinIpcRecv (Inr buf)) m = (m', [], LinContinue) \<and>
     (\<forall>interface_id command info dev. cgroup_sock_create arr m' interface_id command (pi_pid info) dev =
        (1, if should_intercept (conf_new as) info then interface_id else dev))"
proof -
  obtain buf where buf: "forward_packets E (FwdConf (conf_new as)) () = ([FwdWrite buf], Inr (Some ()))" "buf \<noteq> []"
    "dec_from_proxy (fe_codec E) buf = Some (FromProxy (Some (FromProxyConf (ipc_conf_from (conf_new as)))))"
    using forward_write [OF assms(1,2)] by auto
  obtain m' where m': "update_intercept_conf arr (conf_action_strings (conf_new as)) m = (m', None)"
    "\<And>command info. ebpf_should_intercept arr m' command (pi_pid info) = should_intercept (conf_new as) info"
    using pids_decided [OF assms(3-5)] by blast
  have "linux_step (fe_codec E) arr env (LinIpcRecv (Inr buf)) m = (m', [], LinContinue)"
    using buf(2,3) m'(1) by (simp add: ipc_conf_from_def)
  with buf(1) m'(2) show ?thesis by (auto simp: cgroup_sock_create_def)
qed

definition quiet_env :: lin_env where
  "quiet_env = \<lparr>device_send = (\<lambda>b. Inr ()), ipc_send = (\<lambda>b. Inr ()), try_reclaim = True\<rparr>"

theorem conf_reaches_kernel_witness:
  "\<exists>buf m'. forward_packets basic_fwd (FwdConf (conf_new [Include (Pid 7)])) () = ([FwdWrite buf], Inr (Some ())) \<and>
     linux_step plain_codec kernel_array quiet_env (LinIpcRecv (Inr buf)) (\<lambda>i. ANone) = (m', [], LinContinue) \<and>
     cgroup_sock_create kernel_array m' 3 None 7 0 = (1, 3) \<and> cgroup_sock_create kernel_array m' 3 None 8 0 = (1, 0)"
proof -
  have "should_intercept (conf_new [Include (Pid 7)]) \<lparr>pi_pid = 7, pi_process_name = None\<rparr>"
    "\<not> should_intercept (conf_new [Include (Pid 7)]) \<lparr>pi_pid = 8, pi_process_name = None\<rparr>"
    by (simp_all add: should_intercept_def conf_new_def intercept_step_def)
  note decision = this
  have k: "ipc_codec_laws (fe_codec basic_fwd)" using plain.ipc_codec_laws_axioms by simp
  obtain buf m' where run: "forward_packets basic_fwd (FwdConf (conf_new [Include (Pid 7)])) () = ([FwdWrite buf], Inr (Some ()))"
    "linux_step (fe_codec basic_fwd) kernel_array quiet_env (LinIpcRecv (Inr buf)) (\<lambda>i. ANone) = (m', [], LinContinue)"
    and sock: "\<And>interface_id command info dev. cgroup_sock_create kernel_array m' interface_id command (pi_pid info) dev =
        (1, if should_intercept (conf_new [Include (Pid 7)]) info then interface_id else dev)"
    using conf_reaches_kernel [OF k _ kernel.bpf_array_laws_axioms, of "[Include (Pid 7)]" quiet_env "\<lambda>i. ANone"]
    by (auto simp: INTERCEPT_CONF_LEN_def simp del: forward_packets.simps linux_step.simps)
  have "cgroup_sock_create kernel_array m' 3 None 7 0 = (1, 3)" "cgroup_sock_create kernel_array m' 3 None 8 0 = (1, 0)"
    using sock [of 3 None "\<lparr>pi_pid = 7, pi_process_name = None\<rparr>" 0] sock [of 3 None "\<lparr>pi_pid = 8, pi_process_name = None\<rparr>" 0]
      decision by simp_all
  with run show ?thesis by (simp only: basic_fwd_simps) blast
qed

text \<open>
  C9. On Windows the specification the user sets arrives unchanged.  What \<^verbatim>\<open>set_intercept\<close> of the
  local redirector sends is what the specification describes itself as, and the message that
  \<^verbatim>\<open>forward_packets\<close> writes for it, if it fits the buffer the redirector reads into, is the event
  that makes the redirector decide by exactly that configuration, provided that it can read the
  system's table of sockets, knows their protocols and can send; if it cannot read the table, the
  event ends the redirector with that error.
\<close>

theorem conf_reaches_windows:
  assumes "ipc_cursor_laws (fe_codec E)" "\<forall>b. fe_write_all E b = Inr ()"
    and "set_intercept spec lr = (confs, Inr (), lr')"
    and "\<forall>c\<in>set confs. \<forall>buf. forward_packets E (FwdConf c) () = ([FwdWrite buf], Inr (Some ())) \<longrightarrow> length buf \<le> IPC_BUF_SIZE"
  shows "\<exists>c buf ev. confs = [c] \<and> lr_spec lr' = spec \<and> describe_spec spec = Inr (conf_description c) \<and>
     forward_packets E (FwdConf c) () = ([FwdWrite buf], Inr (Some ())) \<and>
     handle_ipc (fe_codec E) IPC_BUF_SIZE w (PipeRead (Inr buf)) = PipeEvent ev \<and>
     (case we_network_table W of
        Inl e \<Rightarrow> fst (win_step W now ev st) = ([], Inl e)
      | Inr entries \<Rightarrow> ipc_works W \<and> (\<forall>e\<in>set entries. we_proto_try_from W (en_protocol e) \<noteq> None) \<longrightarrow>
          (\<exists>outs st'. win_step W now ev st = ((outs, Inr ()), st') \<and> wst_conf st' = c))"
proof -
  note laws = ipc_cursor_laws.axioms(1) [OF assms(1)]
  obtain c where c: "conf_try_from spec = Inr c" and sent: "confs = [c]" "lr_spec lr' = spec"
    using assms(3) by (auto simp: set_intercept_def Let_def split: sum.splits if_splits)
  obtain buf where buf: "forward_packets E (FwdConf c) () = ([FwdWrite buf], Inr (Some ()))" "buf \<noteq> []"
    "dec_from_proxy (fe_codec E) buf = Some (FromProxy (Some (FromProxyConf (ipc_conf_from c))))"
    using forward_write [OF laws assms(2)] by auto
  have "length buf \<le> IPC_BUF_SIZE" using assms(4) sent(1) buf(1) by simp
  then have read: "handle_ipc (fe_codec E) IPC_BUF_SIZE w (PipeRead (Inr buf)) = PipeEvent (WinIpc (FromProxyConf (ipc_conf_from c)))"
    using buf(2,3) ipc_cursor_laws.decoded_whole [OF assms(1) buf(3)] by simp
  have conf: "conf_try_from_ipc (ipc_conf_from c) = Inr c"
    using conf_vec_roundtrip [OF conf_try_from_wf [OF c]] by (simp add: conf_try_from_ipc_def ipc_conf_from_def)
  let ?st = "st\<lparr>wst_conf := c, wst_connections := lru_clear (we_cache W) (wst_connections st),
    wst_listeners := listeners_clear (wst_listeners st)\<rparr>"
  have "case we_network_table W of
        Inl e \<Rightarrow> fst (win_step W now (WinIpc (FromProxyConf (ipc_conf_from c))) st) = ([], Inl e)
      | Inr entries \<Rightarrow> ipc_works W \<and> (\<forall>e\<in>set entries. we_proto_try_from W (en_protocol e) \<noteq> None) \<longrightarrow>
          (\<exists>outs st'. win_step W now (WinIpc (FromProxyConf (ipc_conf_from c))) st = ((outs, Inr ()), st') \<and> wst_conf st' = c)"
    using preexisting_succeeds [of W _ now ?st] conf by (auto simp: Let_def split: sum.split)
  with buf(1) read c sent show ?thesis
    by (auto simp: describe_spec_def simp del: forward_packets.simps handle_ipc.simps win_step.simps)
qed

theorem conf_reaches_windows_witness:
  "\<exists>buf ev outs st'. forward_packets basic_fwd (FwdConf (conf_new [Exclude (Pid 1234), Include (Process ''mitm'')])) () =
       ([FwdWrite buf], Inr (Some ())) \<and>
     handle_ipc plain_codec IPC_BUF_SIZE (\<lambda>b. Inr ()) (PipeRead (Inr buf)) = PipeEvent ev \<and>
     win_step basic_win 5 ev (win_start basic_win) = ((outs, Inr ()), st') \<and>
     wst_conf st' = conf_new [Exclude (Pid 1234), Include (Process ''mitm'')]"
proof -
  let ?c = "conf_new [Exclude (Pid 1234), Include (Process ''mitm'')]"
  let ?lr = "lr_new \<lparr>sv_start_shutdown = True, sv_start = fst shutdown_channel\<rparr>"
  have "conf_try_from '' !1234 , mitm'' = Inr ?c"
    by (simp add: conf_try_from_def conf_try_from_vec_def action_try_from_def pattern_try_from_def Let_def
        trim_eval parse_u32_def parse_uint_def digit_val_def)
  then have set: "set_intercept '' !1234 , mitm'' ?lr = ([?c], Inr (), ?lr\<lparr>lr_spec := '' !1234 , mitm''\<rparr>)"
    by (simp add: set_intercept_def lr_new_def)
  have strings: "conf_action_strings ?c = [CHR ''!'' # map digit_char [1, 2, 3, 4], ''mitm'']"
    by (simp add: conf_action_strings_def conf_new_def show_u32_def show_nat.simps)
  have varint: "n < 128 \<Longrightarrow> varint_enc n = [word_of_nat n]" for n by (simp add: varint_enc.simps)
  have "length (fst from_proxy_fmt (FromProxy (Some (FromProxyConf (ipc_conf_from ?c))))) \<le> IPC_BUF_SIZE"
    by (simp add: ipc_conf_from_def strings from_proxy_fmt_def conv_fmt_def opt_fmt_def sum_fmt_def list_fmt_def
        string_fmt_def byte_fmt_def as_bytes_def varint IPC_BUF_SIZE_def MAX_PACKET_SIZE_def)
  then have fits: "\<forall>c\<in>set [?c]. \<forall>buf. forward_packets basic_fwd (FwdConf c) () = ([FwdWrite buf], Inr (Some ())) \<longrightarrow> length buf \<le> IPC_BUF_SIZE"
    by (simp add: fwd_write_def plain_codec_def)
  have codec: "ipc_cursor_laws (fe_codec basic_fwd)" using plain.ipc_cursor_laws_axioms by simp
  have table: "we_network_table basic_win = Inr []" by (simp add: basic_win_def)
  show ?thesis
    using conf_reaches_windows [OF codec _ set fits, of "\<lambda>b. Inr ()" basic_win 5 "win_start basic_win"] table
    by (auto simp del: forward_packets.simps handle_ipc.simps win_step.simps)
qed

section \<open>Packets between the redirectors and the network stack\<close>

text \<open>
  C10. On Linux a packet read from the TUN device reaches the network stack as it was, with its IP
  checksum filled in and without process information, and a packet of the network stack reaches the
  device byte for byte; neither changes the eBPF map or ends the redirector.
\<close>

theorem linux_packet_paths:
  assumes "ipc_codec_laws (fe_codec E)" "\<forall>b. fe_write_all E b = Inr ()" "\<forall>e. fe_try_send E e"
    and "\<forall>b. device_send env b = Inr ()" "\<forall>b. ipc_send env b = Inr ()" "try_reclaim env"
    and "smol_try_from (fe_wire E) data = Inr p"
  shows "(\<exists>buf. linux_step (fe_codec E) arr env (LinTunRead (Inr data)) m = (m, [LinIpcSend buf], LinContinue) \<and>
       forward_packets E (FwdRead buf) () =
         ([FwdEvent (ReceivePacket (fill_ip_checksum (fe_wire E) p) (LocalRedirector None None None))], Inr (Some ()))) \<and>
     (\<exists>buf. forward_packets E (FwdCommand (SendPacket q)) () = ([FwdWrite buf], Inr (Some ())) \<and>
       linux_step (fe_codec E) arr env (LinIpcRecv (Inr buf)) m = (m, [LinDeviceSend (into_inner q)], LinContinue))"
proof (rule conjI)
  have "data \<noteq> []" using assms(7) by (auto simp: smol_try_from_def)
  from forward_read [OF assms(1) this assms(7) refl, of None] assms(3)
  obtain buf where "enc_packet (fe_codec E) (PacketWithMeta data None) = Inr buf"
    "forward_packets E (FwdRead buf) () =
       ([FwdEvent (ReceivePacket (fill_ip_checksum (fe_wire E) p) (LocalRedirector None None None))], Inr (Some ()))"
    by (auto simp del: forward_packets.simps)
  then show "\<exists>buf. linux_step (fe_codec E) arr env (LinTunRead (Inr data)) m = (m, [LinIpcSend buf], LinContinue) \<and>
       forward_packets E (FwdRead buf) () =
         ([FwdEvent (ReceivePacket (fill_ip_checksum (fe_wire E) p) (LocalRedirector None None None))], Inr (Some ()))"
    using assms(5,6) by (intro exI [of _ buf]) (simp del: forward_packets.simps)
  obtain buf where "forward_packets E (FwdCommand (SendPacket q)) () = ([FwdWrite buf], Inr (Some ()))" "buf \<noteq> []"
    "dec_from_proxy (fe_codec E) buf = Some (FromProxy (Some (FromProxyPacket (IpcPacket (into_inner q)))))"
    using forward_write [OF assms(1,2)] by auto
  then show "\<exists>buf. forward_packets E (FwdCommand (SendPacket q)) () = ([FwdWrite buf], Inr (Some ())) \<and>
       linux_step (fe_codec E) arr env (LinIpcRecv (Inr buf)) m = (m, [LinDeviceSend (into_inner q)], LinContinue)"
    using assms(4) by (intro exI [of _ buf]) (simp del: forward_packets.simps)
qed

theorem linux_packet_paths_witness:
  "(\<exists>buf. linux_step plain_codec kernel_array quiet_env (LinTunRead (Inr ex_packet)) (\<lambda>i. ANone) =
       ((\<lambda>i. ANone), [LinIpcSend buf], LinContinue) \<and>
     forward_packets basic_fwd (FwdRead buf) () =
       ([FwdEvent (ReceivePacket (fill_ip_checksum basic_wire (V4 ex_packet)) (LocalRedirector None None None))], Inr (Some ()))) \<and>
   (\<exists>buf. forward_packets basic_fwd (FwdCommand (SendPacket (V4 ex_packet))) () = ([FwdWrite buf], Inr (Some ())) \<and>
     linux_step plain_codec kernel_array quiet_env (LinIpcRecv (Inr buf)) (\<lambda>i. ANone) =
       ((\<lambda>i. ANone), [LinDeviceSend ex_packet], LinContinue))"
proof -
  have "smol_try_from basic_wire ex_packet = Inr (V4 ex_packet)"
    by (simp add: smol_try_from_def ex_packet_def basic_wire_def)
  then show ?thesis
    using linux_packet_paths [of basic_fwd quiet_env ex_packet "V4 ex_packet" kernel_array "\<lambda>i. ANone" "V4 ex_packet"]
      plain.ipc_codec_laws_axioms by (simp add: quiet_env_def del: forward_packets.simps linux_step.simps)
qed

text \<open>
  C11. On Windows a packet that the redirector decides to intercept arrives at the network stack with
  the process it belongs to: the one message it becomes, written to the pipe (if it fits the pipe's
  buffer) and read by \<^verbatim>\<open>forward_packets\<close>, is an event that carries the packet with fixed
  checksums, the process id and the process name.
\<close>

theorem windows_packet_path:
  assumes "ipc_codec_laws (fe_codec E)" "\<forall>e. fe_try_send E e" "ipc_works W"
    and "we_inner W (fix_checksums W a pkt) = data" "smol_try_from (fe_wire E) data = Inr p"
    and "\<forall>b. enc_packet (fe_codec E) (PacketWithMeta data (Some (IpcTunnelInfo (Some (pi_pid info)) (pi_process_name info)))) = Inr b
      \<longrightarrow> length b \<le> cap"
  shows "\<exists>msg buf. process_packet W a pkt (ActIntercept info) = ([WIpc msg], Inr ()) \<and>
     handle_ipc (fe_codec E) cap (\<lambda>b. Inr ()) (PipePacket msg) = PipeWrite buf \<and>
     forward_packets E (FwdRead buf) () =
       ([FwdEvent (ReceivePacket (fill_ip_checksum (fe_wire E) p)
           (LocalRedirector (Some (pi_pid info)) (pi_process_name info) None))], Inr (Some ()))"
proof -
  let ?t = "Some (IpcTunnelInfo (Some (pi_pid info)) (pi_process_name info))"
  have "data \<noteq> []" using assms(5) by (auto simp: smol_try_from_def)
  from forward_read [OF assms(1) this assms(5) refl, of ?t] assms(2)
  obtain buf where buf: "enc_packet (fe_codec E) (PacketWithMeta data ?t) = Inr buf"
    "forward_packets E (FwdRead buf) () =
       ([FwdEvent (ReceivePacket (fill_ip_checksum (fe_wire E) p)
           (LocalRedirector (Some (pi_pid info)) (pi_process_name info) None))], Inr (Some ()))"
    by (auto simp del: forward_packets.simps)
  have "process_packet W a pkt (ActIntercept info) = ([WIpc (PacketWithMeta data ?t)], Inr ())"
    using assms(3,4) by (simp add: process_packet_eq ipc_works_def Let_def)
  moreover have "length buf \<le> cap" using assms(6) buf(1) by simp
  ultimately show ?thesis
    using buf by (intro exI [of _ "PacketWithMeta data ?t"] exI [of _ buf]) (simp del: forward_packets.simps)
qed

theorem windows_packet_path_witness:
  "\<exists>msg buf. process_packet basic_win ex_wd_addr ex_packet (ActIntercept \<lparr>pi_pid = 77, pi_process_name = Some ''curl.exe''\<rparr>) =
       ([WIpc msg], Inr ()) \<and>
     handle_ipc plain_codec (length (fst packet_fmt (PacketWithMeta (ex_packet[10 := 7]) (Some (IpcTunnelInfo (Some 77) (Some ''curl.exe''))))))
       (\<lambda>b. Inr ()) (PipePacket msg) = PipeWrite buf \<and>
     forward_packets basic_fwd (FwdRead buf) () =
       ([FwdEvent (ReceivePacket (fill_ip_checksum basic_wire (V4 (ex_packet[10 := 7])))
           (LocalRedirector (Some 77) (Some ''curl.exe'') None))], Inr (Some ()))"
proof -
  have "smol_try_from basic_wire (ex_packet[10 := 7]) = Inr (V4 (ex_packet[10 := 7]))"
    by (simp add: smol_try_from_def ex_packet_def basic_wire_def)
  moreover have "we_inner basic_win (fix_checksums basic_win ex_wd_addr ex_packet) = ex_packet[10 := 7]"
    by (simp add: fix_checksums_def basic_win_def ex_wd_addr_def)
  moreover have "enc_packet plain_codec q = Inr (fst packet_fmt q)" for q by (simp add: plain_codec_def)
  ultimately show ?thesis
    using windows_packet_path [of basic_fwd basic_win ex_wd_addr ex_packet "ex_packet[10 := 7]" "V4 (ex_packet[10 := 7])"
        "\<lparr>pi_pid = 77, pi_process_name = Some ''curl.exe''\<rparr>"
        "length (fst packet_fmt (PacketWithMeta (ex_packet[10 := 7]) (Some (IpcTunnelInfo (Some 77) (Some ''curl.exe'')))))"]
      plain.ipc_codec_laws_axioms
    by (simp del: forward_packets.simps handle_ipc.simps)
qed

end
